(* ===== verification/Prelude.thy ===== *)
theory Prelude
  imports Main "HOL-Library.Monad_Syntax"
begin

text \<open>
  Shared automation of the development: the named collections the component theories fill, and
  generic lemmas on options and lists.

  \<^item> \<open>script_le\<close>: an operation never lengthens the list of answers still to come (destruction
    rules, used by the termination proofs of loops that call it);
  \<^item> \<open>fd_eff\<close>: the effect of an operation on the balance of open descriptors;
  \<^item> \<open>live_eff\<close>: the effect of an operation on the count of live heap blocks;
  \<^item> \<open>frame\<close>: parts of the state an operation leaves alone;
  \<^item> \<open>eff\<close>: all three effects of an operation in one destruction rule;
  \<^item> \<open>vcg\<close>: the introduction rules that walk through the body of an operation and leave one
    goal per path.
\<close>

named_theorems script_le
named_theorems fd_eff
named_theorems live_eff
named_theorems frame
named_theorems eff
named_theorems vcg

section \<open>Options\<close>

lemmas bind_Some = Option.bind_eq_Some_conv

lemma bind_cong_Some [fundef_cong]:
  "x = y \<Longrightarrow> (\<And>a. y = Some a \<Longrightarrow> f a = g a) \<Longrightarrow> Option.bind x f = Option.bind y g"
  by (cases y) auto

section \<open>Paths\<close>

text \<open>
  \<open>ensures m Q\<close>: if the computation \<open>m\<close> ends, its result satisfies \<open>Q\<close>. Its rules follow the
  syntax of \<open>do\<close> blocks, so \<open>intro vcg\<close> turns a statement about an operation into one goal per
  path through it.
\<close>

definition ensures :: "'a option \<Rightarrow> ('a \<Rightarrow> bool) \<Rightarrow> bool" where
  "ensures m Q \<longleftrightarrow> (\<forall>x. m = Some x \<longrightarrow> Q x)"

lemma ensures_D: "m = Some x \<Longrightarrow> ensures m Q \<Longrightarrow> Q x"
  by (simp add: ensures_def)

lemma ensures_D2: "m = Some (x, y) \<Longrightarrow> ensures m (\<lambda>(x, y). Q x y) \<Longrightarrow> Q x y"
  by (simp add: ensures_def)

lemma ensures_mono: "ensures m P \<Longrightarrow> (\<And>x. P x \<Longrightarrow> Q x) \<Longrightarrow> ensures m Q"
  by (auto simp: ensures_def)

lemma ensures_D3: "m = Some (x, y, z) \<Longrightarrow> ensures m (\<lambda>(x, y, z). Q x y z) \<Longrightarrow> Q x y z"
  by (simp add: ensures_def)

lemma ensures_D4: "m = Some (x, y, z, u) \<Longrightarrow> ensures m (\<lambda>(x, y, z, u). Q x y z u) \<Longrightarrow> Q x y z u"
  by (simp add: ensures_def)

lemma ensures_mono2: "ensures m (\<lambda>(x, y). P x y) \<Longrightarrow> (\<And>x y. P x y \<Longrightarrow> Q (x, y)) \<Longrightarrow> ensures m Q"
  by (auto simp: ensures_def)

lemma ensures_mono3:
  "ensures m (\<lambda>(x, y, z). P x y z) \<Longrightarrow> (\<And>x y z. P x y z \<Longrightarrow> Q (x, y, z)) \<Longrightarrow> ensures m Q"
  by (auto simp: ensures_def)

lemma ensures_mono4:
  "ensures m (\<lambda>(x, y, z, u). P x y z u) \<Longrightarrow> (\<And>x y z u. P x y z u \<Longrightarrow> Q (x, y, z, u)) \<Longrightarrow> ensures m Q"
  by (auto simp: ensures_def)

lemma ensures_use: "(\<And>x. m = Some x \<Longrightarrow> P x) \<Longrightarrow> (\<And>x. P x \<Longrightarrow> Q x) \<Longrightarrow> ensures m Q"
  by (auto simp: ensures_def)

lemma ensures_use2:
  "(\<And>x y. m = Some (x, y) \<Longrightarrow> P x y) \<Longrightarrow> (\<And>x y. P x y \<Longrightarrow> Q (x, y)) \<Longrightarrow> ensures m Q"
  by (auto simp: ensures_def)

lemma ensures_Some [vcg]: "Q x \<Longrightarrow> ensures (Some x) Q"
  by (simp add: ensures_def)

lemma ensures_None [vcg]: "ensures None Q"
  by (simp add: ensures_def)

lemma ensures_bind [vcg]: "ensures m (\<lambda>x. ensures (f x) Q) \<Longrightarrow> ensures (Option.bind m f) Q"
  by (auto simp: ensures_def bind_Some)

lemma ensures_case [vcg]:
  "ensures m (\<lambda>x. ensures (f x) Q) \<Longrightarrow> ensures (case m of None \<Rightarrow> None | Some x \<Rightarrow> f x) Q"
  by (auto simp: ensures_def split: option.splits)

lemma ensures_if [vcg]:
  "(b \<Longrightarrow> ensures x Q) \<Longrightarrow> (\<not> b \<Longrightarrow> ensures y Q) \<Longrightarrow> ensures (if b then x else y) Q"
  by simp

lemma ensures_prod [vcg]: "ensures (f a b) Q \<Longrightarrow> ensures (case (a, b) of (x, y) \<Rightarrow> f x y) Q"
  by simp

lemma ensures_Let [vcg]: "ensures (f x) Q \<Longrightarrow> ensures (Let x f) Q"
  by simp

lemmas paths =
  ensures_Some ensures_None ensures_bind ensures_case ensures_if ensures_prod ensures_Let

lemma ensures_split: "(\<And>x y. p = (x, y) \<Longrightarrow> ensures (f x y) Q) \<Longrightarrow> ensures (case p of (x, y) \<Rightarrow> f x y) Q"
  by (cases p) simp

lemma ensures_option:
  "(opt = None \<Longrightarrow> ensures m Q) \<Longrightarrow> (\<And>x. opt = Some x \<Longrightarrow> ensures (f x) Q) \<Longrightarrow>
     ensures (case opt of None \<Rightarrow> m | Some x \<Rightarrow> f x) Q"
  by (cases opt) simp_all

lemma ensures_sum:
  "(\<And>a. s = Inl a \<Longrightarrow> ensures (f a) Q) \<Longrightarrow> (\<And>b. s = Inr b \<Longrightarrow> ensures (g b) Q) \<Longrightarrow>
     ensures (case s of Inl a \<Rightarrow> f a | Inr b \<Rightarrow> g b) Q"
  by (cases s) simp_all

section \<open>Lists\<close>

text \<open>The position of the first element that satisfies \<open>P\<close>: a search along a linked list.\<close>

fun find_index :: "('a \<Rightarrow> bool) \<Rightarrow> 'a list \<Rightarrow> nat option" where
  "find_index P [] = None"
| "find_index P (x # xs) = (if P x then Some 0 else map_option Suc (find_index P xs))"

lemma find_index_Some: "find_index P xs = Some i \<Longrightarrow> i < length xs \<and> P (xs ! i) \<and> (\<forall>k<i. \<not> P (xs ! k))"
  by (induction xs arbitrary: i) (auto simp: less_Suc_eq_0_disj split: if_splits)

lemma find_index_None: "find_index P xs = None \<longleftrightarrow> (\<forall>x\<in>set xs. \<not> P x)"
  by (induction xs) auto

lemma length_dropWhile_less: "xs \<noteq> [] \<Longrightarrow> P (hd xs) \<Longrightarrow> length (dropWhile P xs) < length xs"
  by (cases xs) (auto intro: le_imp_less_Suc length_dropWhile_le)

lemma dropWhile_idle: "xs = [] \<or> \<not> P (hd xs) \<Longrightarrow> dropWhile P xs = xs"
  by (cases xs) auto

lemma takeWhile_all: "(\<forall>x\<in>set xs. P x) \<Longrightarrow> takeWhile P xs = xs"
  by (simp add: takeWhile_eq_all_conv)

lemma filter_none: "(\<forall>x\<in>set xs. \<not> P x) \<Longrightarrow> filter P xs = []"
  by (simp add: filter_empty_conv)

lemma takeWhile_sep: "(\<forall>x\<in>set xs. P x) \<Longrightarrow> \<not> P y \<Longrightarrow> takeWhile P (xs @ y # ys) = xs"
  by (induction xs) auto

lemma dropWhile_sep: "(\<forall>x\<in>set xs. P x) \<Longrightarrow> \<not> P y \<Longrightarrow> dropWhile P (xs @ y # ys) = y # ys"
  by (induction xs) auto

lemma take_takeWhile: "take (length (takeWhile P xs)) xs = takeWhile P xs"
  by (induction xs) auto

lemma drop_takeWhile: "drop (length (takeWhile P xs)) xs = dropWhile P xs"
  by (induction xs) auto

lemma sum_list_update_int:
  "i < length xs \<Longrightarrow> sum_list (map f (xs[i := x])) = sum_list (map f xs) - f (xs ! i) + (f x :: int)"
  by (induction xs arbitrary: i) (auto split: nat.splits)

lemma list_all_update: "list_all P xs \<Longrightarrow> P x \<Longrightarrow> list_all P (xs[i := x])"
  by (auto simp: list_all_iff dest: set_update_subset_insert [THEN subsetD])

end
