(* ===== verification/CLib.thy ===== *)
theory CLib
  imports Prelude Complex_Main "HOL-Library.Char_ord"
begin

text \<open>
  The pure functions of the C library the sources call, on \<open>string\<close> (a list of 8-bit chars):
  \<open>isspace\<close> and \<open>isdigit\<close> in the C locale, the terminating NUL (\<open>cstr\<close> is what a
  \<^verbatim>\<open>char *\<close> shows of a buffer), bounded copies, the decimal conversions of
  \<^verbatim>\<open>printf("%d")\<close>, \<^verbatim>\<open>strtol\<close> and \<^verbatim>\<open>strtoul\<close> with their range errors, and the
  macros of \<^verbatim>\<open><sys/wait.h>\<close>. \<^verbatim>\<open>long\<close> has 64 bits, \<^verbatim>\<open>int\<close> 32.
\<close>

section \<open>Characters\<close>

abbreviation (input) NUL :: char where "NUL \<equiv> CHR 0x00"
abbreviation (input) LF :: char where "LF \<equiv> CHR 0x0A"
abbreviation (input) CR :: char where "CR \<equiv> CHR 0x0D"
abbreviation (input) TAB :: char where "TAB \<equiv> CHR 0x09"
abbreviation (input) SPACE :: char where "SPACE \<equiv> CHR '' ''"

definition isspace :: "char \<Rightarrow> bool" where
  "isspace c \<longleftrightarrow> c = SPACE \<or> c = TAB \<or> c = LF \<or> c = CHR 0x0B \<or> c = CHR 0x0C \<or> c = CR"

lemma isspace_simps [simp]: "isspace SPACE" "isspace TAB" "isspace LF" "isspace CR"
  by (simp_all add: isspace_def)

definition code :: "char \<Rightarrow> nat" where
  "code c = of_char c"

definition isdigit :: "char \<Rightarrow> bool" where
  "isdigit c \<longleftrightarrow> 48 \<le> code c \<and> code c \<le> 57"

definition cstr :: "string \<Rightarrow> string" where
  "cstr s = takeWhile (\<lambda>c. c \<noteq> NUL) s"

lemma cstr_no_NUL: "NUL \<notin> set (cstr s)"
  by (auto simp: cstr_def dest: set_takeWhileD)

lemma cstr_id: "NUL \<notin> set s \<Longrightarrow> cstr s = s"
  unfolding cstr_def by (rule takeWhile_all) auto

lemma cstr_length: "length (cstr s) \<le> length s"
  by (simp add: cstr_def length_takeWhile_le)

text \<open>A text between single quotes, as in the messages.\<close>

abbreviation (input) quoted :: "string \<Rightarrow> string" where
  "quoted s \<equiv> CHR 0x27 # s @ [CHR 0x27]"

section \<open>Bounded copies\<close>

text \<open>
  \<open>copy_bounded n s\<close>: the text a buffer of \<open>n\<close> bytes holds after a copy that keeps room for the
  terminating NUL, as \<^verbatim>\<open>strncpy(dst, s, n - 1)\<close> and as the \<^verbatim>\<open>copy_text\<close> helpers do.
  \<open>snprintf_fits\<close>: \<^verbatim>\<open>snprintf\<close> did not truncate.
\<close>

definition copy_bounded :: "nat \<Rightarrow> string \<Rightarrow> string" where
  "copy_bounded n s = take (n - 1) (cstr s)"

definition snprintf_fits :: "nat \<Rightarrow> string \<Rightarrow> bool" where
  "snprintf_fits n s \<longleftrightarrow> length s < n"

lemma copy_bounded_length: "0 < n \<Longrightarrow> length (copy_bounded n s) < n"
  by (auto simp: copy_bounded_def min_def)

lemma copy_bounded_id: "NUL \<notin> set s \<Longrightarrow> length s < n \<Longrightarrow> copy_bounded n s = s"
  by (simp add: copy_bounded_def cstr_id)

definition starts_with :: "string \<Rightarrow> string \<Rightarrow> bool" where
  "starts_with s p \<longleftrightarrow> take (length p) s = p"

section \<open>Decimal conversion\<close>

definition digit_char :: "nat \<Rightarrow> char" where
  "digit_char n = char_of (48 + n)"

definition digit_val :: "char \<Rightarrow> nat" where
  "digit_val c = code c - 48"

fun show_nat :: "nat \<Rightarrow> string" where
  "show_nat n = (if n < 10 then [digit_char n] else show_nat (n div 10) @ [digit_char (n mod 10)])"

declare show_nat.simps [simp del]

definition show_int :: "int \<Rightarrow> string" where
  "show_int i = (if i < 0 then CHR ''-'' # show_nat (nat (- i)) else show_nat (nat i))"

definition dec_value :: "string \<Rightarrow> nat" where
  "dec_value ds = foldl (\<lambda>v c. 10 * v + digit_val c) 0 ds"

lemma code_digit_char: "n < 10 \<Longrightarrow> code (digit_char n) = 48 + n"
  by (simp add: code_def digit_char_def)

lemma digit_val_digit_char: "n < 10 \<Longrightarrow> digit_val (digit_char n) = n"
  by (simp add: digit_val_def code_digit_char)

lemma isdigit_digit_char: "n < 10 \<Longrightarrow> isdigit (digit_char n)"
  by (simp add: isdigit_def code_digit_char)

lemma show_nat_nonempty [simp]: "show_nat n \<noteq> []"
  by (subst show_nat.simps) simp

lemma show_nat_digits: "c \<in> set (show_nat n) \<Longrightarrow> isdigit c"
proof (induction n rule: show_nat.induct)
  case (1 n)
  then show ?case
    by (cases "n < 10") (auto simp: show_nat.simps [of n] isdigit_digit_char)
qed

lemma dec_value_snoc: "dec_value (ds @ [d]) = 10 * dec_value ds + digit_val d"
  by (simp add: dec_value_def)

lemma dec_value_show_nat: "dec_value (show_nat n) = n"
proof (induction n rule: show_nat.induct)
  case (1 n)
  show ?case
  proof (cases "n < 10")
    case True
    then show ?thesis
      by (simp add: show_nat.simps [of n] dec_value_def digit_val_digit_char)
  next
    case False
    with 1 show ?thesis
      by (simp add: show_nat.simps [of n] dec_value_snoc digit_val_digit_char)
  qed
qed

lemma length_show_nat: "n < 10 ^ k \<Longrightarrow> 0 < k \<Longrightarrow> length (show_nat n) \<le> k"
proof (induction n arbitrary: k rule: show_nat.induct)
  case (1 n)
  show ?case
  proof (cases "n < 10")
    case True
    with 1 show ?thesis by (simp add: show_nat.simps [of n])
  next
    case False
    with "1.prems" obtain j where j: "k = Suc j" "0 < j"
      by (cases k; cases "k - 1") auto
    with "1.prems" have "n div 10 < 10 ^ j" by (simp add: less_mult_imp_div_less mult.commute)
    with "1.IH" False j have "length (show_nat (n div 10)) \<le> j" by simp
    with False j show ?thesis by (simp add: show_nat.simps [of n])
  qed
qed

lemma digit_not_space: "isdigit c \<Longrightarrow> \<not> isspace c"
  by (auto simp: isdigit_def isspace_def code_def)

section \<open>strtol and strtoul\<close>

abbreviation (input) LONG_MAX :: int where "LONG_MAX \<equiv> 9223372036854775807"
abbreviation (input) LONG_MIN :: int where "LONG_MIN \<equiv> -9223372036854775808"
abbreviation (input) ULONG_MAX :: int where "ULONG_MAX \<equiv> 18446744073709551615"
abbreviation (input) INT_MAX :: int where "INT_MAX \<equiv> 2147483647"

text \<open>
  The result: the value, whether \<^verbatim>\<open>errno\<close> was set to \<^verbatim>\<open>ERANGE\<close>, whether any digit was
  converted (otherwise \<^verbatim>\<open>end == text\<close>), and the text \<^verbatim>\<open>end\<close> points to.
\<close>

record strto =
  st_value :: int
  st_range :: bool
  st_conv :: bool
  st_end :: string

definition split_sign :: "string \<Rightarrow> bool \<times> string" where
  "split_sign s = (case s of
      [] \<Rightarrow> (False, s)
    | c # r \<Rightarrow> if c = CHR ''-'' then (True, r) else if c = CHR ''+'' then (False, r) else (False, s))"

definition strtol :: "string \<Rightarrow> strto" where
  "strtol s =
     (let (neg, body) = split_sign (dropWhile isspace s);
          ds = takeWhile isdigit body;
          v = (if neg then - int (dec_value ds) else int (dec_value ds))
      in if ds = [] then \<lparr>st_value = 0, st_range = False, st_conv = False, st_end = s\<rparr>
         else \<lparr>st_value = max LONG_MIN (min LONG_MAX v),
               st_range = (v < LONG_MIN \<or> LONG_MAX < v),
               st_conv = True,
               st_end = dropWhile isdigit body\<rparr>)"

definition strtoul :: "string \<Rightarrow> strto" where
  "strtoul s =
     (let (neg, body) = split_sign (dropWhile isspace s);
          ds = takeWhile isdigit body;
          m = int (dec_value ds)
      in if ds = [] then \<lparr>st_value = 0, st_range = False, st_conv = False, st_end = s\<rparr>
         else if ULONG_MAX < m
         then \<lparr>st_value = ULONG_MAX, st_range = True, st_conv = True, st_end = dropWhile isdigit body\<rparr>
         else \<lparr>st_value = (if neg then (- m) mod (ULONG_MAX + 1) else m),
               st_range = False, st_conv = True, st_end = dropWhile isdigit body\<rparr>)"

lemma takeWhile_show_nat [simp]: "takeWhile isdigit (show_nat n) = show_nat n"
  by (rule takeWhile_all) (auto dest: show_nat_digits)

lemma dropWhile_show_nat [simp]: "dropWhile isdigit (show_nat n) = []"
  by (simp add: dropWhile_eq_Nil_conv) (auto dest: show_nat_digits)

lemma hd_show_nat: "isdigit (hd (show_nat n))"
  by (rule show_nat_digits [of _ n]) simp

lemma isdigit_sign: "isdigit c \<Longrightarrow> c \<noteq> CHR ''-'' \<and> c \<noteq> CHR ''+''"
  by (auto simp: isdigit_def code_def)

lemma split_sign_show_nat: "split_sign (show_nat n) = (False, show_nat n)"
proof -
  obtain c r where "show_nat n = c # r" by (cases "show_nat n") auto
  moreover have "isdigit c" using hd_show_nat [of n] calculation by simp
  ultimately show ?thesis by (auto simp: split_sign_def dest: isdigit_sign)
qed

lemma dropWhile_space_show_nat: "dropWhile isspace (show_nat n) = show_nat n"
  by (rule dropWhile_idle) (use hd_show_nat digit_not_space in blast)

lemma strtol_show_int:
  assumes "LONG_MIN \<le> i" and "i \<le> LONG_MAX"
  shows "strtol (show_int i) = \<lparr>st_value = i, st_range = False, st_conv = True, st_end = []\<rparr>"
proof (cases "i < 0")
  case True
  with assms show ?thesis
    by (simp add: strtol_def show_int_def split_sign_def isspace_def dec_value_show_nat)
next
  case False
  with assms show ?thesis
    by (simp add: strtol_def show_int_def dropWhile_space_show_nat split_sign_show_nat dec_value_show_nat)
qed

section \<open>Wait statuses\<close>

text \<open>
  The macros of \<^verbatim>\<open><sys/wait.h>\<close> (glibc): \<open>st mod 128\<close> is \<^verbatim>\<open>st & 0x7f\<close>,
  \<open>st div 256 mod 256\<close> is \<^verbatim>\<open>(st & 0xff00) >> 8\<close>. \<^verbatim>\<open>WIFSIGNALED\<close> holds for the signal
  numbers 1 to 126.
\<close>

definition WTERMSIG :: "int \<Rightarrow> int" where "WTERMSIG st = st mod 128"
definition WEXITSTATUS :: "int \<Rightarrow> int" where "WEXITSTATUS st = st div 256 mod 256"
definition WSTOPSIG :: "int \<Rightarrow> int" where "WSTOPSIG st = WEXITSTATUS st"
definition WIFEXITED :: "int \<Rightarrow> bool" where "WIFEXITED st \<longleftrightarrow> WTERMSIG st = 0"
definition WIFSIGNALED :: "int \<Rightarrow> bool" where "WIFSIGNALED st \<longleftrightarrow> 1 \<le> WTERMSIG st \<and> WTERMSIG st \<le> 126"
definition WIFSTOPPED :: "int \<Rightarrow> bool" where "WIFSTOPPED st \<longleftrightarrow> st mod 256 = 127"
definition WIFCONTINUED :: "int \<Rightarrow> bool" where "WIFCONTINUED st \<longleftrightarrow> st = 65535"

lemmas wait_defs =
  WTERMSIG_def WEXITSTATUS_def WSTOPSIG_def WIFEXITED_def WIFSIGNALED_def WIFSTOPPED_def WIFCONTINUED_def

lemma mod_256_128: "(st :: int) mod 128 = st mod 256 mod 128"
  by (simp add: mod_mod_cancel)

lemma wait_status_exclusive:
  "\<not> (WIFEXITED st \<and> WIFSIGNALED st)" "\<not> (WIFEXITED st \<and> WIFSTOPPED st)"
  "\<not> (WIFSIGNALED st \<and> WIFSTOPPED st)" "WIFCONTINUED st \<Longrightarrow> \<not> WIFEXITED st \<and> \<not> WIFSIGNALED st \<and> \<not> WIFSTOPPED st"
  by (auto simp: wait_defs mod_256_128 [of st])

lemma exit_status_range: "0 \<le> WEXITSTATUS st" "WEXITSTATUS st \<le> 255"
  by (simp_all add: WEXITSTATUS_def)

end
