(* ===== verification/World.thy ===== *)
theory World
  imports CLib
begin

text \<open>
  The world the shell runs in: the system calls and the stdio calls it makes, the answers it gets,
  its heap, its output, its log (\<^verbatim>\<open>common/log.c\<close>), its error codes (\<^verbatim>\<open>common/error.c\<close>) and
  the static variables of its modules.

  The kernel is not part of the program. It is an arbitrary \<^emph>\<open>script\<close>: a list of answers, one per
  call, in the order the calls are made. Nothing is assumed of the answers unless a theorem says
  so, so every theorem holds for any kernel, any timing and any failure. A computation is a
  function of the world into \<open>option\<close>: \<open>None\<close> says that the script ended, i.e. that the program
  is still waiting for the answer to its next call. Every call is recorded with its answer in
  \<open>w_trace\<close>, so theorems can speak of which calls were made and in what order.

  Heap allocation succeeds unless the list \<open>w_allocs\<close> says otherwise, and \<open>w_live\<close> counts the
  blocks that are allocated and not yet freed.
\<close>

section \<open>Error codes and log levels\<close>

datatype MiniShellError =
    MiniShell_OK | MiniShell_ERR_UNKNOWN | MiniShell_ERR_MEMORY | MiniShell_ERR_FORK
  | MiniShell_ERR_PIPE | MiniShell_ERR_EXEC | MiniShell_ERR_OPEN | MiniShell_ERR_PARSE
  | MiniShell_ERR_JOB | MiniShell_ERR_DUP2

text \<open>The value of the enumerator as a C \<open>int\<close>.\<close>

fun err_code :: "MiniShellError \<Rightarrow> int" where
  "err_code MiniShell_OK = 0"
| "err_code MiniShell_ERR_UNKNOWN = -1"
| "err_code MiniShell_ERR_MEMORY = -2"
| "err_code MiniShell_ERR_FORK = -3"
| "err_code MiniShell_ERR_PIPE = -4"
| "err_code MiniShell_ERR_EXEC = -5"
| "err_code MiniShell_ERR_OPEN = -6"
| "err_code MiniShell_ERR_PARSE = -7"
| "err_code MiniShell_ERR_JOB = -8"
| "err_code MiniShell_ERR_DUP2 = -9"

abbreviation (input) OK :: int where "OK \<equiv> err_code MiniShell_OK"
abbreviation (input) ERR_UNKNOWN :: int where "ERR_UNKNOWN \<equiv> err_code MiniShell_ERR_UNKNOWN"
abbreviation (input) ERR_MEMORY :: int where "ERR_MEMORY \<equiv> err_code MiniShell_ERR_MEMORY"
abbreviation (input) ERR_FORK :: int where "ERR_FORK \<equiv> err_code MiniShell_ERR_FORK"
abbreviation (input) ERR_PIPE :: int where "ERR_PIPE \<equiv> err_code MiniShell_ERR_PIPE"
abbreviation (input) ERR_OPEN :: int where "ERR_OPEN \<equiv> err_code MiniShell_ERR_OPEN"
abbreviation (input) ERR_PARSE :: int where "ERR_PARSE \<equiv> err_code MiniShell_ERR_PARSE"
abbreviation (input) ERR_JOB :: int where "ERR_JOB \<equiv> err_code MiniShell_ERR_JOB"
abbreviation (input) ERR_DUP2 :: int where "ERR_DUP2 \<equiv> err_code MiniShell_ERR_DUP2"

definition minishell_error_string :: "int \<Rightarrow> string" where
  "minishell_error_string e =
     (if e = 0 then ''success''
      else if e = -1 then ''unknown error''
      else if e = -2 then ''memory allocation failed''
      else if e = -3 then ''fork failed''
      else if e = -4 then ''pipe operation failed''
      else if e = -5 then ''command execution failed''
      else if e = -6 then ''file open failed''
      else if e = -7 then ''parse failed''
      else if e = -8 then ''job operation failed''
      else if e = -9 then ''dup2 failed''
      else ''unidentified error'')"

datatype Loglevel = LOG_DEBUG | LOG_INFO | LOG_ERR

fun level_code :: "Loglevel \<Rightarrow> nat" where
  "level_code LOG_DEBUG = 0"
| "level_code LOG_INFO = 1"
| "level_code LOG_ERR = 2"

section \<open>System calls and answers\<close>

datatype errno =
    E_NONE | EINTR | EAGAIN | EBADF | ECHILD | ESRCH | EACCES | ENOENT | EINVAL | EIO
  | ENAMETOOLONG | EOVERFLOW | E_OTHER nat

datatype signal =
    SIGINT | SIGCHLD | SIGQUIT | SIGTSTP | SIGTTIN | SIGTTOU | SIGPIPE | SIGCONT | SIGTERM | SIGKILL

datatype disposition = SIG_DFL | SIG_IGN | SIG_HANDLER
datatype sigmask_how = SIG_BLOCK | SIG_SETMASK | SIG_RESTORE \<comment> \<open>the last: set the mask the preceding block saved\<close>
datatype open_flag = O_RDONLY | O_WRONLY | O_RDWR | O_CREAT | O_APPEND | O_TRUNC | O_CLOEXEC
datatype wait_flag = WNOHANG | WUNTRACED | WCONTINUED

type_synonym double = rat
type_synonym termios = nat \<comment> \<open>a terminal mode setting, opaque\<close>

datatype syscall =
    Sys_fork
  | Sys_waitpid int "wait_flag list"
  | Sys_kill int signal
  | Sys_setpgid int int
  | Sys_getpid
  | Sys_getpgrp
  | Sys_execvp string "string list"
  | Sys_exit int
  | Sys_pipe
  | Sys_open string "open_flag list"
  | Sys_close int
  | Sys_dup2 int int
  | Sys_dupfd_cloexec int int
  | Sys_getfd int
  | Sys_setfd_cloexec int
  | Sys_getfl int
  | Sys_setfl_nonblock int
  | Sys_read int nat
  | Sys_write int string
  | Sys_select "int list"
  | Sys_isatty int
  | Sys_tcgetpgrp int
  | Sys_tcsetpgrp int int
  | Sys_tcgetattr int
  | Sys_tcsetattr int termios
  | Sys_sigaction signal disposition "signal list"
  | Sys_sigprocmask sigmask_how "signal list"
  | Sys_nanosleep
  | Sys_chdir string
  | Sys_getcwd
  | Sys_getenv string
  | Sys_access string
  | Sys_readlink string
  | Sys_fflush
  | Sys_ferror
  | Sys_clearerr
  | Sys_fopen string
  | Sys_fclose int
  | Sys_opendir string
  | Sys_closedir int
  | Sys_fscanf nat
  | Sys_uname
  | Sys_gethostname nat
  | Sys_sysconf

text \<open>
  One answer: the returned value, \<^verbatim>\<open>errno\<close> where the call failed, and the out-parameters the
  calls have: a wait status, bytes read (or the whole text of a file opened with
  \<^verbatim>\<open>fopen\<close>), descriptors (the ends of a pipe, the ready set of \<^verbatim>\<open>select\<close>), names (the
  entries of a directory, the release and the machine of \<^verbatim>\<open>uname\<close>), terminal modes, the numbers
  that \<^verbatim>\<open>fscanf("%lf")\<close> converted (a \<^verbatim>\<open>double\<close> is the rational number it stands for;
  rounding is not modelled). \<open>a_sigs\<close> lists the signals whose handler ran while the
  call was in progress.
\<close>

record answer =
  a_ret :: int
  a_err :: errno
  a_status :: int
  a_bytes :: string
  a_fds :: "nat list"
  a_names :: "string list"
  a_modes :: termios
  a_doubles :: "double list"
  a_sigs :: "signal list"

definition ok :: "int \<Rightarrow> answer" where
  "ok n = \<lparr>a_ret = n, a_err = E_NONE, a_status = 0, a_bytes = [], a_fds = [], a_names = [],
           a_modes = 0, a_doubles = [], a_sigs = []\<rparr>"

definition fail :: "errno \<Rightarrow> answer" where
  "fail e = (ok (-1))\<lparr>a_err := e\<rparr>"

type_synonym trace = "(syscall \<times> answer) list"

section \<open>The world\<close>

text \<open>
  The last group of fields are the static variables of the sources: \<^verbatim>\<open>current_level\<close> (log.c),
  \<^verbatim>\<open>event_pipe\<close> (event.c), \<^verbatim>\<open>pending_events\<close> (sig.c), \<^verbatim>\<open>shell_pgid\<close>,
  \<^verbatim>\<open>terminal_fd\<close>, \<^verbatim>\<open>terminal_initialized\<close>, \<^verbatim>\<open>shell_modes_valid\<close> and
  \<^verbatim>\<open>shell_modes\<close> (terminal.c).
\<close>

record world =
  w_script :: "answer list"
  w_trace :: trace
  w_allocs :: "bool list"
  w_live :: int
  w_out :: "string list"
  w_err :: "string list"
  w_level :: Loglevel
  w_event_r :: int
  w_event_w :: int
  w_pending :: int
  w_shell_pgid :: int
  w_terminal_fd :: int
  w_term_init :: int
  w_modes_valid :: int
  w_modes :: termios

definition init_world :: "answer list \<Rightarrow> world" where
  "init_world as = \<lparr>w_script = as, w_trace = [], w_allocs = [], w_live = 0, w_out = [], w_err = [],
     w_level = LOG_DEBUG, w_event_r = -1, w_event_w = -1, w_pending = 0, w_shell_pgid = -1,
     w_terminal_fd = -1, w_term_init = 0, w_modes_valid = 0, w_modes = 0\<rparr>"

section \<open>Making a call\<close>

unbundle bit_operations_syntax

abbreviation (input) SIGNAL_EVENT_NONE :: int where "SIGNAL_EVENT_NONE \<equiv> 0"
abbreviation (input) SIGNAL_EVENT_CHILD :: int where "SIGNAL_EVENT_CHILD \<equiv> 1"
abbreviation (input) SIGNAL_EVENT_INTERRUPT :: int where "SIGNAL_EVENT_INTERRUPT \<equiv> 2"

text \<open>What the handler does to \<^verbatim>\<open>pending_events\<close>.\<close>

definition note_signal :: "int \<Rightarrow> signal \<Rightarrow> int" where
  "note_signal pending sig =
     (if sig = SIGCHLD then pending OR SIGNAL_EVENT_CHILD
      else if sig = SIGINT then pending OR SIGNAL_EVENT_INTERRUPT
      else pending)"

definition sys :: "syscall \<Rightarrow> world \<Rightarrow> (answer \<times> world) option" where
  "sys c w =
     (case w_script w of
        [] \<Rightarrow> None
      | a # as \<Rightarrow>
          Some (a, w\<lparr>w_script := as, w_trace := w_trace w @ [(c, a)],
                     w_pending := foldl note_signal (w_pending w) (a_sigs a)\<rparr>))"

text \<open>A call whose answer the code ignores.\<close>

definition sysv :: "syscall \<Rightarrow> world \<Rightarrow> world option" where
  "sysv c w = map_option snd (sys c w)"

text \<open>The two descriptors \<^verbatim>\<open>pipe\<close> stores; an answer that lacks one is read as descriptor 0.\<close>

definition pipe_ends :: "answer \<Rightarrow> int \<times> int" where
  "pipe_ends a = (case a_fds a of r # e # _ \<Rightarrow> (int r, int e) | _ \<Rightarrow> (0, 0))"

lemma pipe_ends_nonneg [simp]: "0 \<le> fst (pipe_ends a)" "0 \<le> snd (pipe_ends a)"
  by (simp_all add: pipe_ends_def split: list.splits)

lemma sys_script_less: "sys c w = Some (a, w') \<Longrightarrow> length (w_script w') < length (w_script w)"
  by (auto simp: sys_def split: list.splits)

lemma sys_script_le [script_le]: "sys c w = Some (a, w') \<Longrightarrow> length (w_script w') < length (w_script w)"
  by (rule sys_script_less)

lemma sysv_script_le [script_le]: "sysv c w = Some w' \<Longrightarrow> length (w_script w') < length (w_script w)"
  by (auto simp: sysv_def dest: sys_script_less)

lemma sys_total: "w_script w \<noteq> [] \<Longrightarrow> \<exists>a w'. sys c w = Some (a, w')"
  by (auto simp: sys_def split: list.splits)

text \<open>
  A call in a loop that repeats it as long as it is interrupted: the first answer that is no
  \<^verbatim>\<open>EINTR\<close> failure. All the \<^verbatim>\<open>if (errno == EINTR) continue;\<close> loops of the sources
  that repeat one call are instances.
\<close>

function sys_retry :: "syscall \<Rightarrow> world \<Rightarrow> (answer \<times> world) option" where
  "sys_retry c w =
     (case sys c w of
        None \<Rightarrow> None
      | Some (a, w) \<Rightarrow> if a_ret a < 0 \<and> a_err a = EINTR then sys_retry c w else Some (a, w))"
  by pat_completeness auto
termination
  by (relation "measure (\<lambda>(c, w). length (w_script w))") (auto dest: sys_script_less)

declare sys_retry.simps [simp del]

text \<open>It returns as soon as the script holds an answer that is not an interruption.\<close>

lemma sys_retry_returns:
  "\<exists>a\<in>set (w_script w). \<not> (a_ret a < 0 \<and> a_err a = EINTR) \<Longrightarrow> sys_retry c w \<noteq> None"
proof (induction c w rule: sys_retry.induct)
  case (1 c w)
  from "1.prems" obtain a as where s: "w_script w = a # as" by (cases "w_script w") auto
  then obtain v where v: "sys c w = Some (a, v)" "w_script v = as" by (auto simp: sys_def)
  show ?case
  proof (cases "a_ret a < 0 \<and> a_err a = EINTR")
    case True
    with "1.prems" s have "\<exists>b\<in>set (w_script v). \<not> (a_ret b < 0 \<and> a_err b = EINTR)" by (auto simp: v(2))
    from "1.IH" [OF v(1) refl True this] True v(1) show ?thesis by (simp add: sys_retry.simps [of c w])
  next
    case False
    with v(1) show ?thesis by (auto simp: sys_retry.simps [of c w])
  qed
qed

section \<open>Heap and output\<close>

definition malloc :: "world \<Rightarrow> bool \<times> world" where
  "malloc w =
     (case w_allocs w of
        [] \<Rightarrow> (True, w\<lparr>w_live := w_live w + 1\<rparr>)
      | b # bs \<Rightarrow> (b, w\<lparr>w_allocs := bs, w_live := (if b then w_live w + 1 else w_live w)\<rparr>))"

definition free_blocks :: "int \<Rightarrow> world \<Rightarrow> world" where
  "free_blocks n w = w\<lparr>w_live := w_live w - n\<rparr>"

definition printf :: "string \<Rightarrow> world \<Rightarrow> world" where
  "printf s w = w\<lparr>w_out := w_out w @ [s]\<rparr>"

definition eprintf :: "string \<Rightarrow> world \<Rightarrow> world" where
  "eprintf s w = w\<lparr>w_err := w_err w @ [s]\<rparr>"

text \<open>
  \<^verbatim>\<open>log_write\<close>: a message below the current level is dropped, the others go to stderr behind
  their level. The text recorded is the format; its expansion (mostly \<^verbatim>\<open>strerror\<close>) is not
  modelled.
\<close>

definition log_init :: "world \<Rightarrow> world" where
  "log_init w = w\<lparr>w_level := LOG_DEBUG\<rparr>"

definition log_setlevel :: "Loglevel \<Rightarrow> world \<Rightarrow> world" where
  "log_setlevel l w = w\<lparr>w_level := l\<rparr>"

definition log_write :: "Loglevel \<Rightarrow> string \<Rightarrow> world \<Rightarrow> world" where
  "log_write level format w =
     (if level_code level < level_code (w_level w) then w
      else eprintf ((case level of
                       LOG_DEBUG \<Rightarrow> ''[DEBUG] '' | LOG_INFO \<Rightarrow> ''[INFO] '' | LOG_ERR \<Rightarrow> ''[ERROR] '')
                    @ format @ [LF]) w)"

definition log_debug :: "string \<Rightarrow> world \<Rightarrow> world" where "log_debug = log_write LOG_DEBUG"
definition log_error :: "string \<Rightarrow> world \<Rightarrow> world" where "log_error = log_write LOG_ERR"
definition log_info :: "string \<Rightarrow> world \<Rightarrow> world" where "log_info = log_write LOG_INFO"

lemmas out_defs =
  printf_def eprintf_def log_write_def log_debug_def log_error_def log_info_def

lemma log_error_shown:
  "w_err (log_error m w) = w_err w @ [''[ERROR] '' @ m @ [LF]]"
  by (cases "w_level w") (simp_all add: out_defs)

section \<open>Frames\<close>

text \<open>
  The part of the world that output and logging leave alone. The lemmas are simp rules, so that
  proofs about traces, heaps and statics see through every message.
\<close>

lemma printf_sel [simp]:
  "w_script (printf s w) = w_script w" "w_trace (printf s w) = w_trace w"
  "w_allocs (printf s w) = w_allocs w" "w_live (printf s w) = w_live w"
  "w_err (printf s w) = w_err w" "w_level (printf s w) = w_level w"
  "w_event_r (printf s w) = w_event_r w" "w_event_w (printf s w) = w_event_w w"
  "w_pending (printf s w) = w_pending w" "w_shell_pgid (printf s w) = w_shell_pgid w"
  "w_terminal_fd (printf s w) = w_terminal_fd w" "w_term_init (printf s w) = w_term_init w"
  "w_modes_valid (printf s w) = w_modes_valid w" "w_modes (printf s w) = w_modes w"
  by (simp_all add: printf_def)

lemma eprintf_sel [simp]:
  "w_script (eprintf s w) = w_script w" "w_trace (eprintf s w) = w_trace w"
  "w_allocs (eprintf s w) = w_allocs w" "w_live (eprintf s w) = w_live w"
  "w_out (eprintf s w) = w_out w" "w_level (eprintf s w) = w_level w"
  "w_event_r (eprintf s w) = w_event_r w" "w_event_w (eprintf s w) = w_event_w w"
  "w_pending (eprintf s w) = w_pending w" "w_shell_pgid (eprintf s w) = w_shell_pgid w"
  "w_terminal_fd (eprintf s w) = w_terminal_fd w" "w_term_init (eprintf s w) = w_term_init w"
  "w_modes_valid (eprintf s w) = w_modes_valid w" "w_modes (eprintf s w) = w_modes w"
  by (simp_all add: eprintf_def)

lemma log_write_sel [simp]:
  "w_script (log_write l s w) = w_script w" "w_trace (log_write l s w) = w_trace w"
  "w_allocs (log_write l s w) = w_allocs w" "w_live (log_write l s w) = w_live w"
  "w_out (log_write l s w) = w_out w" "w_level (log_write l s w) = w_level w"
  "w_event_r (log_write l s w) = w_event_r w" "w_event_w (log_write l s w) = w_event_w w"
  "w_pending (log_write l s w) = w_pending w" "w_shell_pgid (log_write l s w) = w_shell_pgid w"
  "w_terminal_fd (log_write l s w) = w_terminal_fd w" "w_term_init (log_write l s w) = w_term_init w"
  "w_modes_valid (log_write l s w) = w_modes_valid w" "w_modes (log_write l s w) = w_modes w"
  by (simp_all add: log_write_def)

lemma log_error_sel [simp]:
  "w_script (log_error s w) = w_script w" "w_trace (log_error s w) = w_trace w"
  "w_allocs (log_error s w) = w_allocs w" "w_live (log_error s w) = w_live w"
  "w_out (log_error s w) = w_out w" "w_level (log_error s w) = w_level w"
  "w_event_r (log_error s w) = w_event_r w" "w_event_w (log_error s w) = w_event_w w"
  "w_pending (log_error s w) = w_pending w" "w_shell_pgid (log_error s w) = w_shell_pgid w"
  "w_terminal_fd (log_error s w) = w_terminal_fd w" "w_term_init (log_error s w) = w_term_init w"
  "w_modes_valid (log_error s w) = w_modes_valid w" "w_modes (log_error s w) = w_modes w"
  by (simp_all add: log_error_def)

lemma log_info_sel [simp]:
  "w_script (log_info s w) = w_script w" "w_trace (log_info s w) = w_trace w"
  "w_allocs (log_info s w) = w_allocs w" "w_live (log_info s w) = w_live w"
  "w_out (log_info s w) = w_out w" "w_level (log_info s w) = w_level w"
  "w_event_r (log_info s w) = w_event_r w" "w_event_w (log_info s w) = w_event_w w"
  "w_pending (log_info s w) = w_pending w" "w_shell_pgid (log_info s w) = w_shell_pgid w"
  "w_terminal_fd (log_info s w) = w_terminal_fd w" "w_term_init (log_info s w) = w_term_init w"
  "w_modes_valid (log_info s w) = w_modes_valid w" "w_modes (log_info s w) = w_modes w"
  by (simp_all add: log_info_def)

lemma malloc_live: "malloc w = (b, w') \<Longrightarrow> w_live w' = w_live w + (if b then 1 else 0)"
  by (auto simp: malloc_def split: list.splits if_splits)

lemma malloc_script: "malloc w = (b, w') \<Longrightarrow> w_script w' = w_script w \<and> w_trace w' = w_trace w"
  by (auto simp: malloc_def split: list.splits)

lemma free_blocks_sel [simp]:
  "w_script (free_blocks n w) = w_script w" "w_trace (free_blocks n w) = w_trace w"
  "w_allocs (free_blocks n w) = w_allocs w" "w_live (free_blocks n w) = w_live w - n"
  by (simp_all add: free_blocks_def)

section \<open>The balance of open descriptors\<close>

text \<open>
  \<open>fd_bal w fd\<close>: how many more times the calls of the trace have opened \<open>fd\<close> than closed it. A
  code path that leaves it unchanged for every \<open>fd\<close> neither leaks a descriptor nor closes one
  twice. A stream of \<^verbatim>\<open>fopen\<close> or \<^verbatim>\<open>opendir\<close> is the descriptor below it, which is the value
  of the answer, negative for \<^verbatim>\<open>NULL\<close>. \<^verbatim>\<open>close\<close>, \<^verbatim>\<open>fclose\<close> and \<^verbatim>\<open>closedir\<close> release the
  descriptor whatever they return, as on Linux. \<^verbatim>\<open>dup2\<close> is not counted: its target is always one of
  the three standard descriptors.
\<close>

definition fd_delta :: "syscall \<Rightarrow> answer \<Rightarrow> int \<Rightarrow> int" where
  "fd_delta c a fd =
     (case c of
        Sys_pipe \<Rightarrow>
          (if 0 \<le> a_ret a
           then of_bool (fd = fst (pipe_ends a)) + of_bool (fd = snd (pipe_ends a)) else 0)
      | Sys_open _ _ \<Rightarrow> (if 0 \<le> a_ret a then of_bool (fd = a_ret a) else 0)
      | Sys_dupfd_cloexec _ _ \<Rightarrow> (if 0 \<le> a_ret a then of_bool (fd = a_ret a) else 0)
      | Sys_close k \<Rightarrow> - of_bool (fd = k)
      | Sys_fopen _ \<Rightarrow> (if 0 \<le> a_ret a then of_bool (fd = a_ret a) else 0)
      | Sys_fclose k \<Rightarrow> - of_bool (fd = k)
      | Sys_opendir _ \<Rightarrow> (if 0 \<le> a_ret a then of_bool (fd = a_ret a) else 0)
      | Sys_closedir k \<Rightarrow> - of_bool (fd = k)
      | _ \<Rightarrow> 0)"

definition trace_bal :: "trace \<Rightarrow> int \<Rightarrow> int" where
  "trace_bal t fd = sum_list (map (\<lambda>(c, a). fd_delta c a fd) t)"

abbreviation (input) fd_bal :: "world \<Rightarrow> int \<Rightarrow> int" where
  "fd_bal w fd \<equiv> trace_bal (w_trace w) fd"

lemma trace_bal_append [simp]: "trace_bal (s @ t) fd = trace_bal s fd + trace_bal t fd"
  by (simp add: trace_bal_def)

lemma trace_bal_Cons [simp]: "trace_bal ((c, a) # t) fd = fd_delta c a fd + trace_bal t fd"
  by (simp add: trace_bal_def)

lemma trace_bal_Nil [simp]: "trace_bal [] fd = 0"
  by (simp add: trace_bal_def)

lemma sys_fd: "sys c w = Some (a, w') \<Longrightarrow> fd_bal w' fd = fd_bal w fd + fd_delta c a fd"
  by (auto simp: sys_def split: list.splits)

lemma sys_live: "sys c w = Some (a, w') \<Longrightarrow> w_live w' = w_live w"
  by (auto simp: sys_def split: list.splits)

lemma sys_trace: "sys c w = Some (a, w') \<Longrightarrow> w_trace w' = w_trace w @ [(c, a)]"
  by (auto simp: sys_def split: list.splits)

text \<open>
  \<open>quiet w w'\<close>: what most operations are from outside: they use answers, keep the heap count, and
  neither open nor close a descriptor on balance. \<open>eff\<close> collects one effect lemma per operation.
\<close>

definition quiet :: "world \<Rightarrow> world \<Rightarrow> bool" where
  "quiet w w' \<longleftrightarrow>
     length (w_script w') \<le> length (w_script w) \<and> w_live w' = w_live w \<and> fd_bal w' = fd_bal w"

lemma sys_eff [eff]:
  "sys c w = Some (a, w') \<Longrightarrow>
     length (w_script w') < length (w_script w) \<and> w_live w' = w_live w \<and>
     fd_bal w' = (\<lambda>fd. fd_bal w fd + fd_delta c a fd)"
  by (auto simp: fun_eq_iff sys_live sys_fd dest: sys_script_less)

lemma sys_retry_final:
  "sys_retry c w = Some (a, w') \<Longrightarrow>
     (\<exists>v. sys c v = Some (a, w') \<and> length (w_script v) \<le> length (w_script w) \<and> w_live v = w_live w \<and>
        ((\<forall>b. a_ret b < 0 \<longrightarrow> fd_delta c b = (\<lambda>_. 0)) \<longrightarrow> fd_bal v = fd_bal w)) \<and>
     \<not> (a_ret a < 0 \<and> a_err a = EINTR)"
proof (induction c w rule: sys_retry.induct)
  case (1 c w)
  from "1.prems" obtain b v where v: "sys c w = Some (b, v)"
    by (subst (asm) sys_retry.simps) (auto split: option.splits)
  show ?case
  proof (cases "a_ret b < 0 \<and> a_err b = EINTR")
    case True
    with "1.prems" v have "sys_retry c v = Some (a, w')" by (simp add: sys_retry.simps [of c w])
    from "1.IH" [OF v refl True this] sys_eff [OF v] True show ?thesis by force
  next
    case False
    with "1.prems" v show ?thesis by (intro conjI exI [of _ w]) (auto simp: sys_retry.simps [of c w])
  qed
qed

text \<open>For calls that open and close nothing, whatever they answer.\<close>

lemma sys_retry_eff [eff]:
  "sys_retry c w = Some (a, w') \<Longrightarrow> \<forall>b. fd_delta c b = (\<lambda>_. 0) \<Longrightarrow>
     length (w_script w') < length (w_script w) \<and> w_live w' = w_live w \<and> fd_bal w' = fd_bal w \<and>
     \<not> (a_ret a < 0 \<and> a_err a = EINTR)"
  by (drule sys_retry_final) (auto dest!: sys_eff)

lemma quiet_refl [simp]: "quiet w w"
  by (simp add: quiet_def)

lemma quiet_trans [trans]: "quiet u v \<Longrightarrow> quiet v w \<Longrightarrow> quiet u w"
  by (auto simp: quiet_def)

lemma quiet_out [simp]:
  "quiet w (printf s v) = quiet w v" "quiet w (eprintf s v) = quiet w v"
  "quiet w (log_error s v) = quiet w v" "quiet w (log_info s v) = quiet w v"
  by (simp_all add: quiet_def)

lemma quiet_statics [simp]:
  "quiet w (v\<lparr>w_event_r := r\<rparr>) = quiet w v" "quiet w (v\<lparr>w_event_w := r\<rparr>) = quiet w v"
  "quiet w (v\<lparr>w_pending := p\<rparr>) = quiet w v" "quiet w (v\<lparr>w_shell_pgid := r\<rparr>) = quiet w v"
  "quiet w (v\<lparr>w_terminal_fd := r\<rparr>) = quiet w v" "quiet w (v\<lparr>w_term_init := b\<rparr>) = quiet w v"
  "quiet w (v\<lparr>w_modes_valid := b\<rparr>) = quiet w v" "quiet w (v\<lparr>w_modes := m\<rparr>) = quiet w v"
  "quiet w (v\<lparr>w_level := l\<rparr>) = quiet w v"
  by (simp_all add: quiet_def)

text \<open>The calls that concern no descriptor, and the ones that do.\<close>

lemma fd_delta_simps [simp]:
  "fd_delta Sys_fork a = (\<lambda>_. 0)" "fd_delta (Sys_waitpid p f) a = (\<lambda>_. 0)"
  "fd_delta (Sys_kill p s) a = (\<lambda>_. 0)" "fd_delta (Sys_setpgid p g) a = (\<lambda>_. 0)"
  "fd_delta Sys_getpid a = (\<lambda>_. 0)" "fd_delta Sys_getpgrp a = (\<lambda>_. 0)"
  "fd_delta (Sys_execvp e v) a = (\<lambda>_. 0)" "fd_delta (Sys_exit n) a = (\<lambda>_. 0)"
  "fd_delta (Sys_dup2 p q) a = (\<lambda>_. 0)"
  "fd_delta (Sys_getfd p) a = (\<lambda>_. 0)" "fd_delta (Sys_setfd_cloexec p) a = (\<lambda>_. 0)"
  "fd_delta (Sys_getfl p) a = (\<lambda>_. 0)" "fd_delta (Sys_setfl_nonblock p) a = (\<lambda>_. 0)"
  "fd_delta (Sys_read p k) a = (\<lambda>_. 0)" "fd_delta (Sys_write p e) a = (\<lambda>_. 0)"
  "fd_delta (Sys_select j) a = (\<lambda>_. 0)" "fd_delta (Sys_isatty p) a = (\<lambda>_. 0)"
  "fd_delta (Sys_tcgetpgrp p) a = (\<lambda>_. 0)" "fd_delta (Sys_tcsetpgrp p g) a = (\<lambda>_. 0)"
  "fd_delta (Sys_tcgetattr p) a = (\<lambda>_. 0)" "fd_delta (Sys_tcsetattr p m) a = (\<lambda>_. 0)"
  "fd_delta (Sys_sigaction s d z) a = (\<lambda>_. 0)" "fd_delta (Sys_sigprocmask h z) a = (\<lambda>_. 0)"
  "fd_delta Sys_nanosleep a = (\<lambda>_. 0)" "fd_delta (Sys_chdir e) a = (\<lambda>_. 0)"
  "fd_delta Sys_getcwd a = (\<lambda>_. 0)" "fd_delta (Sys_getenv e) a = (\<lambda>_. 0)"
  "fd_delta (Sys_access e) a = (\<lambda>_. 0)" "fd_delta (Sys_readlink e) a = (\<lambda>_. 0)"
  "fd_delta Sys_fflush a = (\<lambda>_. 0)" "fd_delta Sys_ferror a = (\<lambda>_. 0)"
  "fd_delta Sys_clearerr a = (\<lambda>_. 0)" "fd_delta (Sys_fscanf n) a = (\<lambda>_. 0)"
  "fd_delta Sys_uname a = (\<lambda>_. 0)" "fd_delta (Sys_gethostname n) a = (\<lambda>_. 0)"
  "fd_delta Sys_sysconf a = (\<lambda>_. 0)"
  by (simp_all add: fd_delta_def fun_eq_iff)

lemma fd_delta_fds [simp]:
  "fd_delta Sys_pipe a =
     (\<lambda>fd. if 0 \<le> a_ret a
           then of_bool (fd = fst (pipe_ends a)) + of_bool (fd = snd (pipe_ends a)) else 0)"
  "fd_delta (Sys_open e l) a = (\<lambda>fd. if 0 \<le> a_ret a then of_bool (fd = a_ret a) else 0)"
  "fd_delta (Sys_dupfd_cloexec p q) a = (\<lambda>fd. if 0 \<le> a_ret a then of_bool (fd = a_ret a) else 0)"
  "fd_delta (Sys_close k) a = (\<lambda>fd. - of_bool (fd = k))"
  "fd_delta (Sys_fopen e) a = (\<lambda>fd. if 0 \<le> a_ret a then of_bool (fd = a_ret a) else 0)"
  "fd_delta (Sys_fclose k) a = (\<lambda>fd. - of_bool (fd = k))"
  "fd_delta (Sys_opendir e) a = (\<lambda>fd. if 0 \<le> a_ret a then of_bool (fd = a_ret a) else 0)"
  "fd_delta (Sys_closedir k) a = (\<lambda>fd. - of_bool (fd = k))"
  by (simp_all add: fd_delta_def fun_eq_iff)

section \<open>Statics\<close>

text \<open>The static variables a call leaves alone (all but \<^verbatim>\<open>pending_events\<close> and the log level).\<close>

definition same_statics :: "world \<Rightarrow> world \<Rightarrow> bool" where
  "same_statics w w' \<longleftrightarrow>
     w_event_r w' = w_event_r w \<and> w_event_w w' = w_event_w w \<and>
     w_terminal_fd w' = w_terminal_fd w \<and> w_term_init w' = w_term_init w \<and>
     w_shell_pgid w' = w_shell_pgid w \<and> w_modes_valid w' = w_modes_valid w \<and> w_modes w' = w_modes w"

lemma same_statics_refl [simp]: "same_statics w w"
  by (simp add: same_statics_def)

lemma same_statics_trans [trans]: "same_statics u v \<Longrightarrow> same_statics v w \<Longrightarrow> same_statics u w"
  by (simp add: same_statics_def)

lemma same_statics_out [simp]:
  "same_statics w (printf s v) = same_statics w v" "same_statics w (eprintf s v) = same_statics w v"
  "same_statics w (log_error s v) = same_statics w v" "same_statics w (log_info s v) = same_statics w v"
  "same_statics w (v\<lparr>w_pending := p\<rparr>) = same_statics w v"
  "same_statics w (free_blocks n v) = same_statics w v"
  by (simp_all add: same_statics_def free_blocks_def)

lemma sys_same: "sys c w = Some (a, w') \<Longrightarrow> same_statics w w'"
  by (auto simp: sys_def same_statics_def split: list.splits)

text \<open>
  \<open>called c a w w'\<close>: what one call leaves behind. \<open>calm\<close>: an operation that is quiet and keeps the
  statics.
\<close>

definition called :: "syscall \<Rightarrow> answer \<Rightarrow> world \<Rightarrow> world \<Rightarrow> bool" where
  "called c a w w' \<longleftrightarrow>
     length (w_script w') < length (w_script w) \<and> w_live w' = w_live w \<and>
     w_trace w' = w_trace w @ [(c, a)] \<and> same_statics w w'"

definition calm :: "world \<Rightarrow> world \<Rightarrow> bool" where
  "calm w w' \<longleftrightarrow> quiet w w' \<and> same_statics w w'"

lemma calm_refl [simp]: "calm w w"
  by (simp add: calm_def)

lemma calm_trans [trans]: "calm u v \<Longrightarrow> calm v w \<Longrightarrow> calm u w"
  by (auto simp: calm_def intro: quiet_trans same_statics_trans)

lemma calm_out [simp]:
  "calm w (printf s v) = calm w v" "calm w (eprintf s v) = calm w v"
  "calm w (log_error s v) = calm w v" "calm w (log_info s v) = calm w v"
  by (simp_all add: calm_def)

lemmas effects = quiet_def calm_def called_def same_statics_def fun_eq_iff

lemma sys_called: "sys c w = Some (a, w') \<Longrightarrow> called c a w w'"
  by (simp add: called_def sys_live sys_trace sys_same sys_script_less)

lemma sysv_called: "sysv c w = Some w' \<Longrightarrow> \<exists>a. called c a w w'"
  by (auto simp: sysv_def dest: sys_called)

lemma ensures_sys [vcg]: "(\<And>a w'. called c a w w' \<Longrightarrow> Q (a, w')) \<Longrightarrow> ensures (sys c w) Q"
  by (rule ensures_use2 [OF sys_called])

lemma ensures_sysv [vcg]: "(\<And>a w'. called c a w w' \<Longrightarrow> Q w') \<Longrightarrow> ensures (sysv c w) Q"
  by (auto simp: ensures_def dest!: sysv_called)

lemmas script_induct = measure_induct_rule [of "\<lambda>w. length (w_script w)", case_names less]

lemma sys_retry_calm:
  assumes "\<forall>b. fd_delta c b = (\<lambda>_. 0)"
  shows "ensures (sys_retry c w)
           (\<lambda>(a, w'). calm w w' \<and> length (w_script w') < length (w_script w) \<and> \<not> (a_ret a < 0 \<and> a_err a = EINTR))"
proof (induction w rule: script_induct)
  case (less w)
  show ?case
    by (subst sys_retry.simps, intro vcg ensures_mono [OF less]) (use assms in \<open>auto simp: effects\<close>)
qed

lemma ensures_sys_retry [vcg]:
  "(\<And>a w'. calm w w' \<Longrightarrow> length (w_script w') < length (w_script w) \<Longrightarrow>
      \<not> (a_ret a < 0 \<and> a_err a = EINTR) \<Longrightarrow> Q (a, w')) \<Longrightarrow>
     (\<forall>b. fd_delta c b = (\<lambda>_. 0)) \<Longrightarrow> ensures (sys_retry c w) Q"
  by (rule ensures_mono2 [OF sys_retry_calm]) auto

text \<open>\<open>calls_only P w w'\<close>: every call made on the way from \<open>w\<close> to \<open>w'\<close> satisfies \<open>P\<close>.\<close>

definition calls_only :: "(syscall \<Rightarrow> bool) \<Rightarrow> world \<Rightarrow> world \<Rightarrow> bool" where
  "calls_only P w w' \<longleftrightarrow> (\<exists>t. w_trace w' = w_trace w @ t \<and> (\<forall>x\<in>set t. P (fst x)))"

lemma calls_only_refl [simp]: "calls_only P w w"
  by (simp add: calls_only_def)

lemma calls_only_trans: "calls_only P u v \<Longrightarrow> calls_only P v w \<Longrightarrow> calls_only P u w"
  by (fastforce simp: calls_only_def)

lemma calls_only_called: "called c a w w' \<Longrightarrow> P c \<Longrightarrow> calls_only P w w'"
  by (simp add: calls_only_def called_def)

lemma calls_only_out [simp]:
  "calls_only P u (log_error s w) = calls_only P u w" "calls_only P u (log_info s w) = calls_only P u w"
  "calls_only P u (printf s w) = calls_only P u w" "calls_only P u (eprintf s w) = calls_only P u w"
  "calls_only P u (free_blocks n w) = calls_only P u w"
  by (simp_all add: calls_only_def)

lemma calls_only_mono: "calls_only P w w' \<Longrightarrow> (\<And>c. P c \<Longrightarrow> P' c) \<Longrightarrow> calls_only P' w w'"
  by (auto simp: calls_only_def)

lemma sys_calls:
  "P c \<Longrightarrow> (\<And>a w'. calls_only P w w' \<Longrightarrow> Q (a, w')) \<Longrightarrow> ensures (sys c w) Q"
  by (rule ensures_sys) (auto intro: calls_only_called)

lemma sysv_calls:
  "P c \<Longrightarrow> (\<And>w'. calls_only P w w' \<Longrightarrow> Q w') \<Longrightarrow> ensures (sysv c w) Q"
  by (rule ensures_sysv) (auto intro: calls_only_called)

lemma sys_retry_calls_only: "P c \<Longrightarrow> ensures (sys_retry c w) (\<lambda>(a, w'). calls_only P w w')"
proof (induction w rule: script_induct)
  case (less w)
  show ?case
    by (subst sys_retry.simps, intro vcg ensures_mono2 [OF less.IH])
      (use less.prems in \<open>auto simp: called_def intro: calls_only_called calls_only_trans [OF calls_only_called]\<close>)
qed

lemma sys_retry_calls:
  "P c \<Longrightarrow> (\<And>a w'. calls_only P w w' \<Longrightarrow> Q (a, w')) \<Longrightarrow> ensures (sys_retry c w) Q"
  by (rule ensures_mono2 [OF sys_retry_calls_only])

text \<open>A retried call is made at least once.\<close>

lemma sys_retry_made:
  "ensures (sys_retry c w) (\<lambda>(a, w'). \<exists>t. w_trace w' = w_trace w @ t \<and> (c, a) \<in> set t)"
proof (induction w rule: script_induct)
  case (less w)
  show ?case
    by (subst sys_retry.simps, intro vcg ensures_mono2 [OF less]) (auto simp: called_def)
qed

section \<open>Moves\<close>

text \<open>
  The same effects as equations: \<open>view w\<close> is the heap count, the balance of descriptors and the
  statics of a world, and \<open>moves l d w w'\<close> says that an operation changed the first by \<open>l\<close>, the
  second by \<open>d\<close> and kept the rest. Equations of views compose by rewriting, so the proofs about long
  bodies stay small.
\<close>

type_synonym view = "int \<times> (int \<Rightarrow> int) \<times> int list \<times> termios"

definition view :: "world \<Rightarrow> view" where
  "view w = (w_live w, trace_bal (w_trace w),
     [w_event_r w, w_event_w w, w_terminal_fd w, w_term_init w, w_shell_pgid w, w_modes_valid w], w_modes w)"

definition vmove :: "int \<Rightarrow> (int \<Rightarrow> int) \<Rightarrow> view \<Rightarrow> view" where
  "vmove l d v = (case v of (live, bal, rest) \<Rightarrow> (live + l, \<lambda>fd. bal fd + d fd, rest))"

definition moves :: "int \<Rightarrow> (int \<Rightarrow> int) \<Rightarrow> world \<Rightarrow> world \<Rightarrow> bool" where
  "moves l d w w' \<longleftrightarrow> length (w_script w') \<le> length (w_script w) \<and> view w' = vmove l d (view w)"

lemma vmove_0 [simp]: "vmove 0 (\<lambda>_. 0) v = v"
  by (simp add: vmove_def case_prod_beta)

lemma vmove_vmove [simp]: "vmove l d (vmove k e v) = vmove (k + l) (\<lambda>fd. e fd + d fd) v"
  by (simp add: vmove_def case_prod_beta add.assoc)

lemma vmove_eq [simp]: "vmove l d v = vmove k e v \<longleftrightarrow> l = k \<and> (\<forall>fd. d fd = e fd)"
  by (auto simp: vmove_def case_prod_beta fun_eq_iff)

lemma vmove_eq_self [simp]: "vmove l d v = v \<longleftrightarrow> l = 0 \<and> (\<forall>fd. d fd = 0)"
  by (cases v) (auto simp: vmove_def fun_eq_iff)

lemma vmove_eq_self2 [simp]: "v = vmove l d v \<longleftrightarrow> l = 0 \<and> (\<forall>fd. d fd = 0)"
  by (metis vmove_eq_self)

lemma moves_iff:
  "moves l d w w' \<longleftrightarrow> length (w_script w') \<le> length (w_script w) \<and> w_live w' = w_live w + l \<and>
     (\<forall>fd. fd_bal w' fd = fd_bal w fd + d fd) \<and> same_statics w w'"
  by (auto simp: moves_def view_def vmove_def same_statics_def fun_eq_iff)

lemma calm_moves: "calm w w' = moves 0 (\<lambda>_. 0) w w'"
  by (auto simp: moves_iff calm_def quiet_def fun_eq_iff)

lemma called_moves: "called c a w w' \<Longrightarrow> moves 0 (fd_delta c a) w w'"
  by (auto simp: moves_iff called_def)

lemma moves_live: "moves l d w w' \<Longrightarrow> w_live w' = w_live w + l"
  by (simp add: moves_iff)

lemma moves_fd: "moves l d w w' \<Longrightarrow> fd_bal w' fd = fd_bal w fd + d fd"
  by (simp add: moves_iff)

lemma moves_trans: "moves l d u v \<Longrightarrow> moves k e v w \<Longrightarrow> moves (l + k) (\<lambda>fd. d fd + e fd) u w"
  by (simp add: moves_def)

lemma view_out [simp]:
  "view (printf s w) = view w" "view (eprintf s w) = view w" "view (log_error s w) = view w"
  "view (log_info s w) = view w" "view (free_blocks n w) = vmove (- n) (\<lambda>_. 0) (view w)"
  by (simp_all add: view_def vmove_def free_blocks_def)

lemma w_live_view: "w_live w = fst (view w)"
  by (simp add: view_def)

lemma fst_vmove [simp]: "fst (vmove l d v) = fst v + l"
  by (simp add: vmove_def case_prod_beta)

lemmas move_simps = calm_moves moves_def
lemmas move_dests = called_moves

text \<open>A stream that is opened and closed again leaves the descriptors as they were.\<close>

lemma opened_moves:
  "called (Sys_fopen f) a w v \<Longrightarrow> \<not> a_ret a < 0 \<Longrightarrow> moves 0 (\<lambda>fd. of_bool (fd = a_ret a)) w v"
  "called (Sys_opendir f) a w v \<Longrightarrow> \<not> a_ret a < 0 \<Longrightarrow> moves 0 (\<lambda>fd. of_bool (fd = a_ret a)) w v"
  by (auto dest!: called_moves)

lemma closed_moves:
  "called (Sys_fclose k) b u w' \<Longrightarrow> moves 0 (\<lambda>fd. - of_bool (fd = k)) u w'"
  "called (Sys_closedir k) b u w' \<Longrightarrow> moves 0 (\<lambda>fd. - of_bool (fd = k)) u w'"
  by (drule called_moves, simp)+

lemma stream_failed:
  "called (Sys_fopen f) a w v \<Longrightarrow> a_ret a < 0 \<Longrightarrow> calm w v"
  "called (Sys_opendir f) a w v \<Longrightarrow> a_ret a < 0 \<Longrightarrow> calm w v"
  by (auto simp: calm_moves dest!: called_moves)

lemma stream_moves:
  assumes "moves 0 (\<lambda>fd. of_bool (fd = k)) w v" and "moves l d v u" and "moves 0 (\<lambda>fd. - of_bool (fd = k)) u w'"
  shows "moves l d w w'"
proof -
  from moves_trans [OF moves_trans [OF assms(1,2)] assms(3)] show ?thesis by (simp add: moves_iff)
qed

lemma stream_calm:
  "called (Sys_fopen f) a w v \<Longrightarrow> \<not> a_ret a < 0 \<Longrightarrow> calm v u \<Longrightarrow> called (Sys_fclose (a_ret a)) b u w' \<Longrightarrow> calm w w'"
  "called (Sys_opendir f) a w v \<Longrightarrow> \<not> a_ret a < 0 \<Longrightarrow> calm v u \<Longrightarrow> called (Sys_closedir (a_ret a)) b u w' \<Longrightarrow> calm w w'"
  unfolding calm_moves by (blast intro: stream_moves opened_moves closed_moves)+

end
