(* ===== verification/Command.thy ===== *)
theory Command
  imports World
begin

text \<open>
  \<^verbatim>\<open>include/command.h\<close> and \<^verbatim>\<open>src/command.c\<close>. A command chain, linked by \<^verbatim>\<open>next\<close>, is
  the list of its nodes. \<^verbatim>\<open>argv\<close> is the list of its \<^verbatim>\<open>argc\<close> strings; the slots behind it
  are \<^verbatim>\<open>NULL\<close>. A file name that is \<^verbatim>\<open>NULL\<close> is \<open>None\<close>.
\<close>

abbreviation (input) MAX_ARGS :: nat where "MAX_ARGS \<equiv> 64"

record Redirection =
  input_file :: "string option"
  output_file :: "string option"
  append :: bool

record Command =
  argv :: "string list"
  background :: bool
  redirect :: Redirection

definition argc :: "Command \<Rightarrow> nat" where
  "argc c = length (argv c)"

definition argv0 :: "Command \<Rightarrow> string option" where
  "argv0 c = (case argv c of [] \<Rightarrow> None | a # _ \<Rightarrow> Some a)"

definition command_init :: Command where
  "command_init =
     \<lparr>argv = [], background = False,
      redirect = \<lparr>input_file = None, output_file = None, append = False\<rparr>\<rparr>"

text \<open>
  The blocks one node owns: the node, its arguments and its file names. \<^verbatim>\<open>free(NULL)\<close> frees
  nothing.
\<close>

definition opt_block :: "'a option \<Rightarrow> int" where
  "opt_block x = (if x = None then 0 else 1)"

definition command_blocks :: "Command \<Rightarrow> int" where
  "command_blocks c =
     int (argc c) + opt_block (output_file (redirect c)) + opt_block (input_file (redirect c)) + 1"

definition chain_blocks :: "Command list \<Rightarrow> int" where
  "chain_blocks cs = sum_list (map command_blocks cs)"

fun command_free :: "Command list \<Rightarrow> world \<Rightarrow> world" where
  "command_free [] w = w"
| "command_free (c # next) w =
     (let w = free_blocks (int (argc c)) w;
          w = free_blocks (opt_block (output_file (redirect c))) w;
          w = free_blocks (opt_block (input_file (redirect c))) w;
          w = free_blocks 1 w
      in command_free next w)"

text \<open>\<^verbatim>\<open>new_command\<close> (parser.c): \<open>None\<close> when the allocation fails.\<close>

definition new_command :: "world \<Rightarrow> Command option \<times> world" where
  "new_command w =
     (let (got, w) = malloc w in if got then (Some command_init, w) else (None, w))"

lemma chain_blocks_simps [simp]:
  "chain_blocks [] = 0"
  "chain_blocks (c # cs) = command_blocks c + chain_blocks cs"
  "chain_blocks (cs @ ds) = chain_blocks cs + chain_blocks ds"
  by (simp_all add: chain_blocks_def)

lemma command_blocks_init [simp]: "command_blocks command_init = 1"
  by (simp add: command_blocks_def command_init_def argc_def opt_block_def)

lemma free_blocks_frame [simp]:
  "w_out (free_blocks n w) = w_out w" "w_err (free_blocks n w) = w_err w"
  "w_level (free_blocks n w) = w_level w"
  "w_event_r (free_blocks n w) = w_event_r w" "w_event_w (free_blocks n w) = w_event_w w"
  "w_pending (free_blocks n w) = w_pending w" "w_shell_pgid (free_blocks n w) = w_shell_pgid w"
  "w_terminal_fd (free_blocks n w) = w_terminal_fd w" "w_term_init (free_blocks n w) = w_term_init w"
  "w_modes_valid (free_blocks n w) = w_modes_valid w" "w_modes (free_blocks n w) = w_modes w"
  by (simp_all add: free_blocks_def)

text \<open>Freeing a chain gives back exactly the blocks it owns and touches nothing else.\<close>

lemma command_free_blocks: "command_free cs w = free_blocks (chain_blocks cs) w"
proof (induction cs arbitrary: w)
  case Nil
  then show ?case by (simp add: free_blocks_def)
next
  case (Cons c cs)
  then show ?case
    by (simp add: free_blocks_def command_blocks_def Let_def algebra_simps)
qed

lemma command_free_live: "w_live (command_free cs w) = w_live w - chain_blocks cs"
  by (simp add: command_free_blocks)

end
