(* ===== verification/Parser.thy ===== *)
theory Parser
  imports Command
begin

text \<open>
  \<^verbatim>\<open>src/parser.c\<close>: the tokenizer and the builder of command chains.

  A \<^verbatim>\<open>TokenList\<close> is the list of its \<^verbatim>\<open>count\<close> tokens, the token's buffer the text in it. The
  scanning pointer \<open>p\<close> is the rest of the line from it; the line is a C string, so it ends at its
  first NUL. The part of the shell context the parser uses is \<^verbatim>\<open>last_exit_status\<close>: \<open>None\<close> stands
  for a null context. Allocations may fail; \<open>None\<close> is the null chain.
\<close>

section \<open>Tokens\<close>

abbreviation (input) MAX_TOKEN :: nat where "MAX_TOKEN \<equiv> 128"
abbreviation (input) TOKEN_SIZE :: nat where "TOKEN_SIZE \<equiv> 256"

datatype TokenType =
    TOKEN_WORD | TOKEN_REDIRECT_OUT | TOKEN_REDIRECT_APPEND | TOKEN_REDIRECT_IN | TOKEN_PIPE
  | TOKEN_BACKGROUND

record Token =
  t_text :: string
  t_type :: TokenType

type_synonym TokenList = "Token list"

abbreviation (input) TOKENIZE_OK :: int where "TOKENIZE_OK \<equiv> 0"
abbreviation (input) TOKENIZE_TOO_MANY :: int where "TOKENIZE_TOO_MANY \<equiv> -1"
abbreviation (input) TOKENIZE_TOO_LONG :: int where "TOKENIZE_TOO_LONG \<equiv> -2"

definition token_push :: "TokenList \<Rightarrow> TokenType \<Rightarrow> string \<Rightarrow> int \<times> TokenList" where
  "token_push list type text =
     (if MAX_TOKEN \<le> length list then (TOKENIZE_TOO_MANY, list)
      else if TOKEN_SIZE \<le> length text then (TOKENIZE_TOO_LONG, list)
      else (TOKENIZE_OK, list @ [\<lparr>t_text = text, t_type = type\<rparr>]))"

definition is_special :: "char \<Rightarrow> bool" where
  "is_special c \<longleftrightarrow> c = CHR ''>'' \<or> c = CHR ''<'' \<or> c = CHR ''|'' \<or> c = CHR ''&''"

abbreviation (input) word_char :: "char \<Rightarrow> bool" where
  "word_char c \<equiv> \<not> isspace c \<and> \<not> is_special c"

lemma special_not_space: "is_special c \<Longrightarrow> \<not> isspace c"
  by (auto simp: is_special_def isspace_def)

section \<open>The tokenizer\<close>

text \<open>
  What one round of the loop reads at a position that is neither the end nor white space: the type
  of the token and its text. The operators are tried in the code's order; \<open>>>\<close> before \<open>>\<close>.
\<close>

definition next_token :: "string \<Rightarrow> TokenType \<times> string" where
  "next_token p =
     (if hd p = CHR ''>'' then
        (if tl p \<noteq> [] \<and> hd (tl p) = CHR ''>'' then (TOKEN_REDIRECT_APPEND, take 2 p)
         else (TOKEN_REDIRECT_OUT, take 1 p))
      else if hd p = CHR ''<'' then (TOKEN_REDIRECT_IN, take 1 p)
      else if hd p = CHR ''|'' then (TOKEN_PIPE, take 1 p)
      else if hd p = CHR ''&'' then (TOKEN_BACKGROUND, take 1 p)
      else (TOKEN_WORD, takeWhile word_char p))"

lemma next_token_nonempty:
  "p \<noteq> [] \<Longrightarrow> \<not> isspace (hd p) \<Longrightarrow> snd (next_token p) \<noteq> []"
  by (cases p) (auto simp: next_token_def is_special_def)

lemma next_token_prefix: "take (length (snd (next_token p))) p = snd (next_token p)"
  by (cases p) (auto simp: next_token_def take_takeWhile min_def)

lemma dropWhile_space_hd: "dropWhile isspace p \<noteq> [] \<Longrightarrow> \<not> isspace (hd (dropWhile isspace p))"
  by (rule hd_dropWhile)

function tokenize_from :: "string \<Rightarrow> TokenList \<Rightarrow> int \<times> TokenList" where
  "tokenize_from p list =
     (let p = dropWhile isspace p in
      if p = [] then (TOKENIZE_OK, list)
      else
        let (type, text) = next_token p;
            (result, list) = token_push list type text
        in if result \<noteq> TOKENIZE_OK then (result, list)
           else tokenize_from (drop (length text) p) list)"
  by pat_completeness auto
termination
proof (relation "measure (\<lambda>(p, list). length p)")
  fix p q :: string and list list' :: TokenList and ty tx and x y
  assume q: "q = dropWhile isspace p" "q \<noteq> []"
    and x: "x = next_token q" "(ty, tx) = x"
  have "tx \<noteq> []" using next_token_nonempty [of q] q x dropWhile_space_hd [of p] by (metis snd_conv)
  then have "0 < length tx" by simp
  moreover have "0 < length q" using q by blast
  moreover have "length q \<le> length p" using q length_dropWhile_le by blast
  ultimately show "((drop (length tx) q, list'), p, list) \<in> measure (\<lambda>(p, list). length p)"
    by (simp del: length_greater_0_conv)
qed simp

declare tokenize_from.simps [simp del]

definition tokenize :: "string \<Rightarrow> int \<times> TokenList" where
  "tokenize line = tokenize_from (cstr line) []"

section \<open>Building a chain\<close>

text \<open>
  The state of the loop in \<^verbatim>\<open>build_command\<close>: the nodes before \<open>current\<close>, and \<open>current\<close>, which
  is the last node of the chain. \<open>chain\<close> is the list that \<^verbatim>\<open>head\<close> points to.
\<close>

definition is_word :: "TokenList \<Rightarrow> bool" where
  "is_word rest = (case rest of [] \<Rightarrow> False | t # _ \<Rightarrow> t_type t = TOKEN_WORD)"

definition head_background :: "Command list \<Rightarrow> bool" where
  "head_background chain = (case chain of [] \<Rightarrow> False | c # _ \<Rightarrow> background c)"

definition set_head_background :: "Command list \<Rightarrow> Command list" where
  "set_head_background chain =
     (case chain of [] \<Rightarrow> [] | c # cs \<Rightarrow> c\<lparr>background := True\<rparr> # cs)"

definition syntax_fail ::
  "int option \<Rightarrow> Command list \<Rightarrow> string \<Rightarrow> world \<Rightarrow> Command list option \<times> int option \<times> world" where
  "syntax_fail ctx head message w =
     (let w = eprintf (''minishell: syntax error: '' @ message @ [LF]) w
      in (None, map_option (\<lambda>_. 2) ctx, command_free head w))"

definition memory_fail ::
  "int option \<Rightarrow> Command list \<Rightarrow> world \<Rightarrow> Command list option \<times> int option \<times> world" where
  "memory_fail ctx head w =
     (let w = eprintf (''minishell: memory allocation failed'' @ [LF]) w
      in (None, map_option (\<lambda>_. 1) ctx, command_free head w))"

definition tokenize_fail ::
  "int option \<Rightarrow> int \<Rightarrow> world \<Rightarrow> Command list option \<times> int option \<times> world" where
  "tokenize_fail ctx result w =
     (let w = eprintf (if result = TOKENIZE_TOO_LONG
                       then ''minishell: syntax error: token is too long'' @ [LF]
                       else ''minishell: syntax error: too many tokens'' @ [LF]) w
      in (None, map_option (\<lambda>_. 2) ctx, w))"

text \<open>\<^verbatim>\<open>$?\<close> stands for the last exit status, as \<^verbatim>\<open>snprintf("%d")\<close> prints it.\<close>

definition word_value :: "int option \<Rightarrow> string \<Rightarrow> string" where
  "word_value ctx text =
     (if text = ''$?'' then show_int (case ctx of None \<Rightarrow> 0 | Some s \<Rightarrow> s) else text)"

definition add_arg :: "string \<Rightarrow> Command \<Rightarrow> Command" where
  "add_arg a c = c\<lparr>argv := argv c @ [a]\<rparr>"

definition set_input :: "string \<Rightarrow> Command \<Rightarrow> Command" where
  "set_input f c = c\<lparr>redirect := (redirect c)\<lparr>input_file := Some f\<rparr>\<rparr>"

definition set_output :: "string \<Rightarrow> bool \<Rightarrow> Command \<Rightarrow> Command" where
  "set_output f app c = c\<lparr>redirect := (redirect c)\<lparr>output_file := Some f, append := app\<rparr>\<rparr>"

text \<open>The last loop: every node has a command word.\<close>

definition finish_chain ::
  "int option \<Rightarrow> Command list \<Rightarrow> world \<Rightarrow> Command list option \<times> int option \<times> world" where
  "finish_chain ctx head w =
     (if \<exists>c\<in>set head. argc c = 0 then syntax_fail ctx head (''missing command near '' @ quoted ''|'') w
      else (Some head, ctx, w))"

fun build_tokens ::
  "int option \<Rightarrow> TokenList \<Rightarrow> Command list \<Rightarrow> Command \<Rightarrow> world
     \<Rightarrow> Command list option \<times> int option \<times> world" where
  "build_tokens ctx [] before current w = finish_chain ctx (before @ [current]) w"
| "build_tokens ctx (t # rest) before current w =
     (let head = before @ [current] in
      case t_type t of
        TOKEN_WORD \<Rightarrow>
          if MAX_ARGS - 1 \<le> argc current then syntax_fail ctx head ''too many arguments'' w
          else
            let (got, w) = malloc w in
            if \<not> got then memory_fail ctx head w
            else build_tokens ctx rest before (add_arg (word_value ctx (t_text t)) current) w
      | TOKEN_REDIRECT_IN \<Rightarrow>
          if \<not> is_word rest then syntax_fail ctx head (''expected filename after '' @ quoted ''<'') w
          else if input_file (redirect current) \<noteq> None
          then syntax_fail ctx head ''duplicate input redirection'' w
          else
            let (got, w) = malloc w in
            if \<not> got then memory_fail ctx head w
            else build_tokens ctx (tl rest) before (set_input (t_text (hd rest)) current) w
      | TOKEN_REDIRECT_OUT \<Rightarrow>
          if \<not> is_word rest then syntax_fail ctx head (''expected filename after '' @ quoted ''>'') w
          else if output_file (redirect current) \<noteq> None
          then syntax_fail ctx head ''duplicate output redirection'' w
          else
            let (got, w) = malloc w in
            if \<not> got then memory_fail ctx head w
            else build_tokens ctx (tl rest) before (set_output (t_text (hd rest)) False current) w
      | TOKEN_REDIRECT_APPEND \<Rightarrow>
          if \<not> is_word rest then syntax_fail ctx head (''expected filename after '' @ quoted ''>>'') w
          else if output_file (redirect current) \<noteq> None
          then syntax_fail ctx head ''duplicate output redirection'' w
          else
            let (got, w) = malloc w in
            if \<not> got then memory_fail ctx head w
            else build_tokens ctx (tl rest) before (set_output (t_text (hd rest)) True current) w
      | TOKEN_BACKGROUND \<Rightarrow>
          if rest \<noteq> [] then syntax_fail ctx head (quoted ''&'' @ '' must be the last token'') w
          else if head_background head then syntax_fail ctx head ''duplicate background operator'' w
          else
            let head = set_head_background head
            in build_tokens ctx rest (butlast head) (last head) w
      | TOKEN_PIPE \<Rightarrow>
          if argc current = 0 then syntax_fail ctx head (''missing command near '' @ quoted ''|'') w
          else if \<not> is_word rest then syntax_fail ctx head (''expected command after '' @ quoted ''|'') w
          else
            (case new_command w of
               (None, w) \<Rightarrow> memory_fail ctx head w
             | (Some next, w) \<Rightarrow> build_tokens ctx rest head next w))"

definition build_command ::
  "TokenList \<Rightarrow> int option \<Rightarrow> world \<Rightarrow> Command list option \<times> int option \<times> world" where
  "build_command list ctx w =
     (case new_command w of
        (None, w) \<Rightarrow> memory_fail ctx [] w
      | (Some head, w) \<Rightarrow> build_tokens ctx list [] head w)"

definition parse_line ::
  "string \<Rightarrow> int option \<Rightarrow> world \<Rightarrow> Command list option \<times> int option \<times> world" where
  "parse_line line ctx w =
     (let (result, list) = tokenize line in
      if result \<noteq> TOKENIZE_OK then tokenize_fail ctx result w
      else if list = [] then (None, ctx, w)
      else build_command list ctx w)"

section \<open>Lemmas: the tokenizer\<close>

text \<open>
  The scanner of \<open>tokenize_from\<close> without the two limits, building its list from the front.
\<close>

function lex :: "string \<Rightarrow> TokenList" where
  "lex p =
     (let p = dropWhile isspace p in
      if p = [] then []
      else
        let (type, text) = next_token p
        in \<lparr>t_text = text, t_type = type\<rparr> # lex (drop (length text) p))"
  by pat_completeness auto
termination
proof (relation "measure length")
  fix p q :: string and ty tx and x
  assume q: "q = dropWhile isspace p" "q \<noteq> []"
    and x: "x = next_token q" "(ty, tx) = x"
  have "tx \<noteq> []" using next_token_nonempty [of q] q x dropWhile_space_hd [of p] by (metis snd_conv)
  then have "0 < length tx" by simp
  moreover have "0 < length q" using q by blast
  moreover have "length q \<le> length p" using q length_dropWhile_le by blast
  ultimately show "(drop (length tx) q, p) \<in> measure length"
    by (simp del: length_greater_0_conv)
qed simp

declare lex.simps [simp del]

text \<open>The limits, applied to a token list from the left.\<close>

fun push_all :: "TokenList \<Rightarrow> TokenList \<Rightarrow> int \<times> TokenList" where
  "push_all list [] = (TOKENIZE_OK, list)"
| "push_all list (t # ts) =
     (let (result, list) = token_push list (t_type t) (t_text t)
      in if result \<noteq> TOKENIZE_OK then (result, list) else push_all list ts)"

lemma tokenize_from_lex: "tokenize_from p list = push_all list (lex p)"
proof (induction p list rule: tokenize_from.induct)
  case (1 p list)
  show ?case
    by (subst tokenize_from.simps, subst lex.simps)
      (auto simp: Let_def 1 split: prod.splits)
qed

definition token_ok :: "Token \<Rightarrow> bool" where
  "token_ok t \<longleftrightarrow>
     (case t_type t of
        TOKEN_WORD \<Rightarrow> t_text t \<noteq> [] \<and> list_all word_char (t_text t)
      | TOKEN_REDIRECT_OUT \<Rightarrow> t_text t = ''>''
      | TOKEN_REDIRECT_APPEND \<Rightarrow> t_text t = ''>>''
      | TOKEN_REDIRECT_IN \<Rightarrow> t_text t = ''<''
      | TOKEN_PIPE \<Rightarrow> t_text t = ''|''
      | TOKEN_BACKGROUND \<Rightarrow> t_text t = ''&'')"

lemma take2: "p \<noteq> [] \<Longrightarrow> tl p \<noteq> [] \<Longrightarrow> take 2 p = [hd p, hd (tl p)]"
  by (cases p; cases "tl p") (auto simp: numeral_2_eq_2)

lemma take1: "p \<noteq> [] \<Longrightarrow> take (Suc 0) p = [hd p]"
  by (cases p) auto

lemma next_token_ok:
  assumes "p \<noteq> []" and "\<not> isspace (hd p)" and "next_token p = (ty, tx)"
  shows "token_ok \<lparr>t_text = tx, t_type = ty\<rparr>"
  using assms next_token_nonempty [of p]
  by (auto simp: next_token_def token_ok_def take2 take1 list_all_iff
      dest: set_takeWhileD split: if_splits)

lemma lex_tokens_ok: "list_all token_ok (lex p)"
proof (induction p rule: lex.induct)
  case (1 p)
  show ?case
    by (subst lex.simps)
      (auto simp: Let_def 1 dropWhile_space_hd simp del: dropWhile_eq_Nil_conv
        split: prod.splits intro: next_token_ok)
qed

lemma push_all_sound:
  "push_all list ts = (r, list') \<Longrightarrow> \<exists>us vs. list' = list @ us \<and> ts = us @ vs \<and> (r = TOKENIZE_OK \<longrightarrow> vs = [])"
proof (induction list ts rule: push_all.induct)
  case (1 list)
  then show ?case by simp
next
  case (2 list t ts)
  then show ?case
    by (fastforce simp: token_push_def split: if_splits)
qed

lemma push_all_bounds:
  "push_all list ts = (r, list') \<Longrightarrow> length list \<le> MAX_TOKEN \<Longrightarrow>
     list_all (\<lambda>t. length (t_text t) < TOKEN_SIZE) list \<Longrightarrow>
     length list' \<le> MAX_TOKEN \<and> list_all (\<lambda>t. length (t_text t) < TOKEN_SIZE) list'"
proof (induction list ts rule: push_all.induct)
  case (1 list)
  then show ?case by simp
next
  case (2 list t ts)
  then show ?case
    by (fastforce simp: token_push_def split: if_splits)
qed

lemma push_all_OK_iff:
  "fst (push_all list ts) = TOKENIZE_OK \<longleftrightarrow>
     (ts = [] \<or> length list + length ts \<le> MAX_TOKEN) \<and> list_all (\<lambda>t. length (t_text t) < TOKEN_SIZE) ts"
  by (induction list ts rule: push_all.induct) (auto simp: token_push_def)

lemma push_all_result: "fst (push_all list ts) \<in> {TOKENIZE_OK, TOKENIZE_TOO_MANY, TOKENIZE_TOO_LONG}"
  by (induction list ts rule: push_all.induct) (auto simp: token_push_def)

lemma lex_concat: "concat (map t_text (lex p)) = filter (\<lambda>c. \<not> isspace c) p"
proof (induction p rule: lex.induct)
  case (1 p)
  let ?q = "dropWhile isspace p"
  have drop_space: "filter (\<lambda>c. \<not> isspace c) ?q = filter (\<lambda>c. \<not> isspace c) p"
    by (induction p) auto
  show ?case
  proof (cases "?q = []")
    case True
    then show ?thesis using drop_space by (subst lex.simps) simp
  next
    case False
    obtain ty tx where n: "next_token ?q = (ty, tx)" by (cases "next_token ?q")
    have ok: "token_ok \<lparr>t_text = tx, t_type = ty\<rparr>"
      using next_token_ok [OF False dropWhile_space_hd [OF False] n] .
    have keep: "filter (\<lambda>c. \<not> isspace c) tx = tx"
      using ok by (auto simp: token_ok_def list_all_iff isspace_def filter_id_conv split: TokenType.splits)
    have "?q = tx @ drop (length tx) ?q"
      using next_token_prefix [of ?q] n by (metis append_take_drop_id snd_conv)
    then have "filter (\<lambda>c. \<not> isspace c) ?q = tx @ filter (\<lambda>c. \<not> isspace c) (drop (length tx) ?q)"
      using keep by (metis filter_append)
    then show ?thesis
      using "1.IH" [OF refl False n [symmetric] refl] False n drop_space
      by (subst lex.simps) (simp add: Let_def del: dropWhile_eq_Nil_conv)
  qed
qed

section \<open>Lemmas: the builder\<close>

text \<open>Messages and freeing, seen as effects on the heap count.\<close>

lemma fail_live [simp]:
  "syntax_fail ctx head m w = (r, ctx', w') \<Longrightarrow> w_live w' = w_live w - chain_blocks head"
  "memory_fail ctx head w = (r, ctx', w') \<Longrightarrow> w_live w' = w_live w - chain_blocks head"
  by (auto simp: syntax_fail_def memory_fail_def command_free_blocks)

lemma fail_None:
  "syntax_fail ctx head m w = (r, ctx', w') \<Longrightarrow> r = None \<and> ctx' = map_option (\<lambda>_. 2) ctx"
  "memory_fail ctx head w = (r, ctx', w') \<Longrightarrow> r = None \<and> ctx' = map_option (\<lambda>_. 1) ctx"
  by (auto simp: syntax_fail_def memory_fail_def)

lemma new_command_live:
  "new_command w = (r, w') \<Longrightarrow> w_live w' = w_live w + (case r of None \<Rightarrow> 0 | Some c \<Rightarrow> command_blocks c)"
  by (auto simp: new_command_def dest!: malloc_live split: prod.splits if_splits)

lemma new_command_init: "new_command w = (Some c, w') \<Longrightarrow> c = command_init"
  by (auto simp: new_command_def split: prod.splits if_splits)

lemma blocks_add [simp]:
  "command_blocks (add_arg a c) = command_blocks c + 1"
  "input_file (redirect c) = None \<Longrightarrow> command_blocks (set_input f c) = command_blocks c + 1"
  "output_file (redirect c) = None \<Longrightarrow> command_blocks (set_output f b c) = command_blocks c + 1"
  by (simp_all add: command_blocks_def add_arg_def set_input_def set_output_def argc_def opt_block_def)

lemma argc_add [simp]:
  "argc (add_arg a c) = Suc (argc c)" "argc (set_input f c) = argc c"
  "argc (set_output f b c) = argc c" "argc command_init = 0"
  by (simp_all add: add_arg_def set_input_def set_output_def argc_def command_init_def)

lemma background_add [simp]:
  "background (add_arg a c) = background c" "background (set_input f c) = background c"
  "background (set_output f b c) = background c" "\<not> background command_init"
  by (simp_all add: add_arg_def set_input_def set_output_def command_init_def)

lemma set_head_background_Nil [simp]: "set_head_background cs = [] \<longleftrightarrow> cs = []"
  by (simp add: set_head_background_def split: list.splits)

lemma set_head_background_blocks [simp]: "chain_blocks (set_head_background cs) = chain_blocks cs"
  by (cases cs) (simp_all add: set_head_background_def command_blocks_def argc_def)

lemma set_head_background_argc [simp]: "map argc (set_head_background cs) = map argc cs"
  by (cases cs) (simp_all add: set_head_background_def argc_def)

lemma set_head_background_tl [simp]: "tl (set_head_background cs) = tl cs"
  by (cases cs) (simp_all add: set_head_background_def)

lemma chain_butlast_last: "cs \<noteq> [] \<Longrightarrow> butlast cs @ [last cs] = cs"
  by (rule append_butlast_last_id)

lemma chain_blocks_butlast_last:
  "cs \<noteq> [] \<Longrightarrow> chain_blocks (butlast cs) + command_blocks (last cs) = chain_blocks cs"
  by (metis append_butlast_last_id chain_blocks_simps(1,2,3) add.right_neutral)

lemma build_tokens_live:
  "build_tokens ctx ts before current w = (r, ctx', w') \<Longrightarrow>
     w_live w' = w_live w - chain_blocks before - command_blocks current
                 + (case r of None \<Rightarrow> 0 | Some cs \<Rightarrow> chain_blocks cs)"
proof (induction ctx ts before current w arbitrary: r ctx' w' rule: build_tokens.induct)
  case (1 ctx before current w)
  then show ?case
    by (auto simp: finish_chain_def split: if_splits dest: fail_None fail_live)
next
  case (2 ctx t rest before current w)
  show ?case
  proof (cases "t_type t")
    case TOKEN_BACKGROUND
    have "chain_blocks (butlast (set_head_background (before @ [current])))
        + command_blocks (last (set_head_background (before @ [current])))
        = chain_blocks before + command_blocks current"
      by (subst chain_blocks_butlast_last) simp_all
    with 2 TOKEN_BACKGROUND show ?thesis
      by (auto simp: Let_def split: if_splits dest: fail_None fail_live)
  qed (use 2 in \<open>auto simp: Let_def split: if_splits prod.splits option.splits
        dest: fail_None fail_live malloc_live new_command_live new_command_init\<close>)
qed

text \<open>
  What every successful build keeps: the argument bound, the number of nodes paid for by tokens, and
  the background flag on the head node only.
\<close>

definition arg_total :: "Command list \<Rightarrow> nat" where
  "arg_total cs = sum_list (map argc cs)"

lemma arg_total_simps [simp]:
  "arg_total [] = 0" "arg_total (c # cs) = argc c + arg_total cs"
  "arg_total (cs @ ds) = arg_total cs + arg_total ds"
  by (simp_all add: arg_total_def)

lemma arg_total_head [simp]: "arg_total (set_head_background cs) = arg_total cs"
  by (simp add: arg_total_def)

lemma length_arg_total: "\<forall>c\<in>set cs. 0 < argc c \<Longrightarrow> length cs \<le> arg_total cs"
  by (induction cs) (simp_all add: Suc_le_eq add_less_le_mono)

lemma finish_chain_Some:
  "finish_chain ctx cs w = (Some ds, ctx', w') \<longleftrightarrow>
     ds = cs \<and> ctx' = ctx \<and> w' = w \<and> (\<forall>c\<in>set cs. 0 < argc c)"
  by (auto simp: finish_chain_def syntax_fail_def)

definition chain_inv :: "nat \<Rightarrow> Command list \<Rightarrow> bool" where
  "chain_inv budget cs \<longleftrightarrow>
     arg_total cs + length cs \<le> budget \<and> list_all (\<lambda>c. argc c < MAX_ARGS) cs \<and>
     list_all (\<lambda>c. \<not> background c) (tl cs)"

lemma chain_inv_mono: "chain_inv n cs \<Longrightarrow> n \<le> m \<Longrightarrow> chain_inv m cs"
  by (simp add: chain_inv_def)

lemma chain_inv_background:
  "chain_inv n cs \<Longrightarrow> cs \<noteq> [] \<Longrightarrow>
     chain_inv n (butlast (set_head_background cs) @ [last (set_head_background cs)])"
proof -
  assume inv: "chain_inv n cs" and ne: "cs \<noteq> []"
  then obtain c ds where cs: "cs = c # ds" by (cases cs) auto
  have "butlast (set_head_background cs) @ [last (set_head_background cs)] = set_head_background cs"
    using ne by (intro append_butlast_last_id) simp
  then show ?thesis using inv
    by (simp add: chain_inv_def cs set_head_background_def argc_def)
qed

lemma tl_snoc_all:
  "list_all P (tl (xs @ [x])) \<Longrightarrow> (xs \<noteq> [] \<longrightarrow> P x \<longrightarrow> P y) \<Longrightarrow> list_all P (tl (xs @ [y]))"
  by (cases xs) auto

lemma chain_inv_step:
  assumes "chain_inv n (before @ [c])" and "argc d \<le> argc c + k" and "argc d < MAX_ARGS"
    and "background d = background c"
  shows "chain_inv (n + k) (before @ [d])"
  using assms by (auto simp: chain_inv_def elim: tl_snoc_all)

lemma chain_inv_new: "chain_inv n cs \<Longrightarrow> cs \<noteq> [] \<Longrightarrow> chain_inv (Suc n) (cs @ [command_init])"
  by (cases cs) (auto simp: chain_inv_def)

text \<open>One successful round of the loop: the case of the switch, its guards, and the rest of the run.\<close>

lemma build_Cons_Some:
  assumes "build_tokens ctx (t # rest) before current w = (Some cs, ctx', w')"
  obtains
    (arg) v where "t_type t = TOKEN_WORD" "argc current < MAX_ARGS - 1" "malloc w = (True, v)"
      "build_tokens ctx rest before (add_arg (word_value ctx (t_text t)) current) v = (Some cs, ctx', w')"
  | (infile) v where "t_type t = TOKEN_REDIRECT_IN" "is_word rest" "input_file (redirect current) = None"
      "malloc w = (True, v)"
      "build_tokens ctx (tl rest) before (set_input (t_text (hd rest)) current) v = (Some cs, ctx', w')"
  | (outfile) app v where "t_type t = (if app then TOKEN_REDIRECT_APPEND else TOKEN_REDIRECT_OUT)"
      "is_word rest" "output_file (redirect current) = None" "malloc w = (True, v)"
      "build_tokens ctx (tl rest) before (set_output (t_text (hd rest)) app current) v = (Some cs, ctx', w')"
  | (bg) "t_type t = TOKEN_BACKGROUND" "rest = []" "\<not> head_background (before @ [current])"
      "build_tokens ctx rest (butlast (set_head_background (before @ [current])))
         (last (set_head_background (before @ [current]))) w = (Some cs, ctx', w')"
  | (pipe) v where "t_type t = TOKEN_PIPE" "0 < argc current" "is_word rest"
      "new_command w = (Some command_init, v)"
      "build_tokens ctx rest (before @ [current]) command_init v = (Some cs, ctx', w')"
proof (cases "t_type t")
  case TOKEN_REDIRECT_OUT
  with assms show ?thesis
    by (auto simp: Let_def split: if_splits prod.splits dest: fail_None intro: outfile [of False])
next
  case TOKEN_REDIRECT_APPEND
  with assms show ?thesis
    by (auto simp: Let_def split: if_splits prod.splits dest: fail_None intro: outfile [of True])
qed (use assms in \<open>auto simp: Let_def split: if_splits prod.splits option.splits
      dest: fail_None new_command_init intro: arg infile bg pipe\<close>)

lemma malloc_err: "malloc w = (b, v) \<Longrightarrow> w_err v = w_err w"
  by (auto simp: malloc_def split: list.splits)

lemma new_command_err: "new_command w = (r, v) \<Longrightarrow> w_err v = w_err w"
  by (auto simp: new_command_def dest: malloc_err split: if_splits prod.splits)

lemma is_word_length: "is_word ts \<Longrightarrow> length (tl ts) < length ts"
  by (cases ts) (auto simp: is_word_def)

lemma build_tokens_inv:
  "build_tokens ctx ts before current w = (Some cs, ctx', w') \<Longrightarrow> chain_inv n (before @ [current]) \<Longrightarrow>
     chain_inv (n + length ts) cs \<and> cs \<noteq> [] \<and> (\<forall>c\<in>set cs. 0 < argc c) \<and> ctx' = ctx \<and> w_err w' = w_err w"
proof (induction ts arbitrary: before current w n rule: length_induct)
  case (1 ts)
  note IH = "1.IH" [rule_format] and inv = "1.prems"(2)
  show ?case
  proof (cases ts)
    case Nil
    with "1.prems" show ?thesis by (auto simp: finish_chain_Some)
  next
    case (Cons t rest)
    have small: "argc current < MAX_ARGS" using inv by (simp add: chain_inv_def)
    from "1.prems"(1) [unfolded Cons] show ?thesis
    proof (cases rule: build_Cons_Some)
      case (arg v)
      have "chain_inv (n + 1) (before @ [add_arg (word_value ctx (t_text t)) current])"
        by (rule chain_inv_step [OF inv]) (use arg in auto)
      from IH [OF _ arg(4) this] arg show ?thesis by (auto simp: Cons malloc_err)
    next
      case (infile v)
      have "chain_inv (n + 0) (before @ [set_input (t_text (hd rest)) current])"
        by (rule chain_inv_step [OF inv]) (use small in auto)
      from IH [OF _ infile(5) this] infile is_word_length [of rest] show ?thesis
        by (auto simp: Cons malloc_err elim!: chain_inv_mono)
    next
      case (outfile app v)
      have "chain_inv (n + 0) (before @ [set_output (t_text (hd rest)) app current])"
        by (rule chain_inv_step [OF inv]) (use small in auto)
      from IH [OF _ outfile(5) this] outfile is_word_length [of rest] show ?thesis
        by (auto simp: Cons malloc_err elim!: chain_inv_mono)
    next
      case bg
      from IH [OF _ bg(4) chain_inv_background [OF inv]] show ?thesis
        by (auto simp: Cons elim!: chain_inv_mono)
    next
      case (pipe v)
      from IH [OF _ pipe(5) chain_inv_new [OF inv]] pipe show ?thesis
        by (auto simp: Cons new_command_err)
    qed
  qed
qed

text \<open>
  A failing build leaves a status of 2 (a syntax error) or 1 (no memory) in the context and writes
  one message.
\<close>

definition reported :: "int option \<Rightarrow> world \<Rightarrow> int option \<Rightarrow> world \<Rightarrow> bool" where
  "reported ctx w ctx' w' \<longleftrightarrow>
     (ctx' = map_option (\<lambda>_. 2) ctx \<or> ctx' = map_option (\<lambda>_. 1) ctx \<and> False \<in> set (w_allocs w)) \<and>
     (\<exists>m. w_err w' = w_err w @ [''minishell: '' @ m])"

lemma command_free_err [simp]: "w_err (command_free cs w) = w_err w"
  by (simp add: command_free_blocks)

lemma w_err_eprintf [simp]: "w_err (eprintf m w) = w_err w @ [m]"
  by (simp add: eprintf_def)

lemma syntax_fail_reported: "syntax_fail ctx head m w = (r, ctx', w') \<Longrightarrow> reported ctx w ctx' w'"
  by (auto simp: syntax_fail_def reported_def Let_def)

lemma memory_fail_reported:
  "memory_fail ctx head v = (r, ctx', w') \<Longrightarrow> w_err v = w_err w \<Longrightarrow> False \<in> set (w_allocs w) \<Longrightarrow>
     reported ctx w ctx' w'"
  by (auto simp: memory_fail_def reported_def Let_def)

lemma malloc_allocs:
  "malloc w = (b, v) \<Longrightarrow> w_err v = w_err w \<and> set (w_allocs v) \<subseteq> set (w_allocs w) \<and> (\<not> b \<longrightarrow> False \<in> set (w_allocs w))"
  by (auto simp: malloc_def split: list.splits)

lemma new_command_allocs:
  "new_command w = (r, v) \<Longrightarrow>
     w_err v = w_err w \<and> set (w_allocs v) \<subseteq> set (w_allocs w) \<and> (r = None \<longrightarrow> False \<in> set (w_allocs w))"
  by (auto simp: new_command_def dest: malloc_allocs split: prod.splits if_splits)

lemma reported_later:
  "reported ctx v ctx' w' \<Longrightarrow> w_err v = w_err w \<Longrightarrow> set (w_allocs v) \<subseteq> set (w_allocs w) \<Longrightarrow>
     reported ctx w ctx' w'"
  by (auto simp: reported_def)

lemma build_tokens_fail:
  "build_tokens ctx ts before current w = (None, ctx', w') \<Longrightarrow> reported ctx w ctx' w'"
proof (induction ctx ts before current w arbitrary: ctx' w' rule: build_tokens.induct)
  case (1 ctx before current w)
  then show ?case by (auto simp: finish_chain_def split: if_splits dest: syntax_fail_reported)
next
  case (2 ctx t rest before current w)
  show ?case
    by (cases "t_type t";
        use 2 in \<open>auto simp: Let_def split: if_splits prod.splits option.splits
         dest!: malloc_allocs new_command_allocs
         intro: syntax_fail_reported memory_fail_reported;
         blast intro: reported_later syntax_fail_reported memory_fail_reported\<close>)
qed

lemma build_command_None: "build_command list ctx w = (None, ctx', w') \<Longrightarrow> reported ctx w ctx' w'"
  by (auto simp: build_command_def split: prod.splits option.splits
      dest!: new_command_allocs build_tokens_fail intro: memory_fail_reported reported_later)

lemma tokenize_fail_reported: "tokenize_fail ctx res w = (r, ctx', w') \<Longrightarrow> r = None \<and> reported ctx w ctx' w'"
  by (auto simp: tokenize_fail_def reported_def Let_def)

lemma build_command_live:
  "build_command list ctx w = (r, ctx', w') \<Longrightarrow>
     w_live w' = w_live w + (case r of None \<Rightarrow> 0 | Some cs \<Rightarrow> chain_blocks cs)"
  by (auto simp: build_command_def split: prod.splits option.splits
      dest!: new_command_live build_tokens_live dest: fail_None fail_live)

lemma build_command_inv:
  assumes "build_command list ctx w = (Some cs, ctx', w')"
  shows "chain_inv (1 + length list) cs \<and> cs \<noteq> [] \<and> (\<forall>c\<in>set cs. 0 < argc c) \<and> ctx' = ctx \<and> w_err w' = w_err w"
proof -
  from assms obtain v where new: "new_command w = (Some command_init, v)"
    and run: "build_tokens ctx list [] command_init v = (Some cs, ctx', w')"
    by (auto simp: build_command_def split: prod.splits option.splits
        dest: new_command_init fail_None)
  have "chain_inv 1 ([] @ [command_init])" by (simp add: chain_inv_def)
  from build_tokens_inv [OF run this] new show ?thesis by (auto simp: new_command_err)
qed

lemma tokenize_lex: "tokenize line = push_all [] (lex (cstr line))"
  by (simp add: tokenize_def tokenize_from_lex)

lemma lex_blank: "lex p = [] \<longleftrightarrow> list_all isspace p"
proof -
  have "lex p = [] \<longleftrightarrow> dropWhile isspace p = []"
    by (subst lex.simps) (auto simp: Let_def split: prod.splits)
  then show ?thesis by (simp add: dropWhile_eq_Nil_conv list_all_iff)
qed

section \<open>Properties\<close>

text \<open>C29: whatever the line, the tokenizer fills at most MAX_TOKEN tokens, each of which fits
  its TOKEN_SIZE buffer with the terminating NUL, and every token is well formed: a word is a
  non-empty run of characters that are neither white space nor operators, an operator token is the
  operator.\<close>

theorem tokenize_bounds:
  "case tokenize line of (result, list) \<Rightarrow>
     length list \<le> MAX_TOKEN \<and> list_all (\<lambda>t. length (t_text t) < TOKEN_SIZE \<and> token_ok t) list"
proof -
  obtain result list where t: "tokenize line = (result, list)" by (cases "tokenize line")
  from t have p: "push_all [] (lex (cstr line)) = (result, list)" by (simp add: tokenize_lex)
  from push_all_sound [OF p] lex_tokens_ok [of "cstr line"] have "list_all token_ok list"
    by auto
  with push_all_bounds [OF p] show ?thesis by (auto simp: t list_all_iff)
qed

text \<open>A line that tokenizes is covered by its tokens: their texts, one after the other, are the
  line (up to its NUL) without its white space; nothing is dropped, duplicated or reordered.\<close>

theorem tokenize_lossless:
  assumes "tokenize line = (TOKENIZE_OK, list)"
  shows "concat (map t_text list) = filter (\<lambda>c. \<not> isspace c) (cstr line)"
proof -
  from assms have p: "push_all [] (lex (cstr line)) = (TOKENIZE_OK, list)" by (simp add: tokenize_lex)
  from push_all_sound [OF p] have "list = lex (cstr line)" by auto
  then show ?thesis by (simp add: lex_concat)
qed

theorem tokenize_lossless_witness:
  "tokenize ''ls>x'' = (TOKENIZE_OK,
     [\<lparr>t_text = ''ls'', t_type = TOKEN_WORD\<rparr>, \<lparr>t_text = ''>'', t_type = TOKEN_REDIRECT_OUT\<rparr>,
      \<lparr>t_text = ''x'', t_type = TOKEN_WORD\<rparr>]) \<and>
   filter (\<lambda>c. \<not> isspace c) (cstr ''ls>x'') = ''ls>x''"
proof -
  have t: "tokenize ''ls>x'' = (TOKENIZE_OK,
     [\<lparr>t_text = ''ls'', t_type = TOKEN_WORD\<rparr>, \<lparr>t_text = ''>'', t_type = TOKEN_REDIRECT_OUT\<rparr>,
      \<lparr>t_text = ''x'', t_type = TOKEN_WORD\<rparr>])"
    by code_simp
  from tokenize_lossless [OF t] show ?thesis by (simp add: t)
qed

section \<open>A reference lexer\<close>

text \<open>
  What the tokens of a line are, said without the scanner of the code: white space separates, the
  operators are the entries of a table, of which the longest that fits is taken, and a word is a
  maximal run of other characters. It is built from the back of the line, one character at a time.
\<close>

definition operator_table :: "(string \<times> TokenType) list" where
  "operator_table =
     [(''>'', TOKEN_REDIRECT_OUT), (''>>'', TOKEN_REDIRECT_APPEND), (''<'', TOKEN_REDIRECT_IN),
      (''|'', TOKEN_PIPE), (''&'', TOKEN_BACKGROUND)]"

definition token_of :: "string \<Rightarrow> Token" where
  "token_of text = \<lparr>t_text = text,
     t_type = (case map_of operator_table text of Some ty \<Rightarrow> ty | None \<Rightarrow> TOKEN_WORD)\<rparr>"

definition is_operator :: "string \<Rightarrow> bool" where
  "is_operator text \<longleftrightarrow> map_of operator_table text \<noteq> None"

definition ends_word :: "string \<Rightarrow> bool" where
  "ends_word p \<longleftrightarrow> p = [] \<or> isspace (hd p) \<or> is_operator [hd p]"

fun reference_tokens :: "string \<Rightarrow> TokenList" where
  "reference_tokens [] = []"
| "reference_tokens (c # p) =
     (if isspace c then reference_tokens p
      else if p \<noteq> [] \<and> is_operator [c, hd p]
      then token_of [c, hd p] # reference_tokens (tl p)
      else if is_operator [c] then token_of [c] # reference_tokens p
      else if ends_word p then token_of [c] # reference_tokens p
      else (case reference_tokens p of [] \<Rightarrow> [] | t # ts \<Rightarrow> token_of (c # t_text t) # ts))"

lemma operators:
  "is_operator [c] \<longleftrightarrow> is_special c"
  "is_operator [c, d] \<longleftrightarrow> c = CHR ''>'' \<and> d = CHR ''>''"
  by (auto simp: is_operator_def operator_table_def is_special_def)

lemma token_of_word: "x \<noteq> [] \<Longrightarrow> \<not> is_special (hd x) \<Longrightarrow> token_of x = \<lparr>t_text = x, t_type = TOKEN_WORD\<rparr>"
  by (auto simp: token_of_def operator_table_def is_special_def)

lemma token_of_operator:
  "token_of ''>'' = \<lparr>t_text = ''>'', t_type = TOKEN_REDIRECT_OUT\<rparr>"
  "token_of ''>>'' = \<lparr>t_text = ''>>'', t_type = TOKEN_REDIRECT_APPEND\<rparr>"
  "token_of ''<'' = \<lparr>t_text = ''<'', t_type = TOKEN_REDIRECT_IN\<rparr>"
  "token_of ''|'' = \<lparr>t_text = ''|'', t_type = TOKEN_PIPE\<rparr>"
  "token_of ''&'' = \<lparr>t_text = ''&'', t_type = TOKEN_BACKGROUND\<rparr>"
  by (simp_all add: token_of_def operator_table_def)

lemma lex_Nil [simp]: "lex [] = []"
  by (subst lex.simps) simp

lemma lex_space_Cons: "isspace c \<Longrightarrow> lex (c # p) = lex p"
  by (subst lex.simps, subst (2) lex.simps) (simp add: Let_def)

lemma lex_at:
  "p \<noteq> [] \<Longrightarrow> \<not> isspace (hd p) \<Longrightarrow> next_token p = (ty, tx) \<Longrightarrow>
     lex p = \<lparr>t_text = tx, t_type = ty\<rparr> # lex (drop (length tx) p)"
  by (subst lex.simps) (simp add: Let_def dropWhile_idle)

lemma lex_word:
  assumes "word_char c"
  shows "lex (c # p) = token_of (c # takeWhile word_char p) # lex (dropWhile word_char p)"
proof -
  have "next_token (c # p) = (TOKEN_WORD, c # takeWhile word_char p)"
    using assms by (auto simp: next_token_def is_special_def)
  from lex_at [OF _ _ this] assms show ?thesis
    by (simp add: token_of_word dropWhile_eq_drop)
qed

text \<open>The scanner finds the tokens of the reference.\<close>

lemma lex_reference: "lex p = reference_tokens p"
proof (induction p rule: reference_tokens.induct)
  case 1
  then show ?case by simp
next
  case (2 c p)
  consider (space) "isspace c" | (append) "c = CHR ''>''" "p \<noteq> []" "hd p = CHR ''>''"
    | (op) "\<not> isspace c" "is_special c" "\<not> (c = CHR ''>'' \<and> p \<noteq> [] \<and> hd p = CHR ''>'')"
    | (last) "word_char c" "ends_word p" | (inside) "word_char c" "\<not> ends_word p"
    by blast
  then show ?case
  proof cases
    case space
    with 2 show ?thesis by (simp add: lex_space_Cons)
  next
    case append
    then have "next_token (c # p) = (TOKEN_REDIRECT_APPEND, ''>>'')"
      by (cases p) (auto simp: next_token_def)
    from lex_at [OF _ _ this] append 2(2) show ?thesis
      by (cases p) (simp_all add: isspace_def token_of_operator operators)
  next
    case op
    then have "next_token (c # p) = (t_type (token_of [c]), [c])"
      by (auto simp: next_token_def is_special_def token_of_operator)
    from lex_at [OF _ _ this] op 2(3) show ?thesis
      by (auto simp: operators token_of_def)
  next
    case last
    then have "takeWhile word_char p = []" "dropWhile word_char p = p"
      by (cases p; auto simp: ends_word_def operators)+
    with last 2(4) show ?thesis by (auto simp: lex_word operators is_special_def)
  next
    case inside
    then obtain d q where p: "p = d # q" "word_char d" by (cases p) (auto simp: ends_word_def operators)
    have "t_text (token_of x) = x" for x by (simp add: token_of_def)
    with p inside have "lex (c # p) = (case lex p of [] \<Rightarrow> [] | t # ts \<Rightarrow> token_of (c # t_text t) # ts)"
      by (simp add: lex_word)
    moreover have "lex p = reference_tokens p"
      using 2(5) inside p by (simp add: operators is_special_def del: reference_tokens.simps)
    moreover have "reference_tokens (c # p) =
        (case reference_tokens p of [] \<Rightarrow> [] | t # ts \<Rightarrow> token_of (c # t_text t) # ts)"
      using inside by (subst reference_tokens.simps) (auto simp: operators is_special_def)
    ultimately show ?thesis by simp
  qed
qed

text \<open>The limits applied to a list of tokens, exactly.\<close>

lemma push_all_limits:
  assumes "length list \<le> MAX_TOKEN"
  shows "push_all list ts =
    (let room = take (MAX_TOKEN - length list) ts; fits = takeWhile (\<lambda>t. length (t_text t) < TOKEN_SIZE) room
     in (if fits = ts then TOKENIZE_OK
         else if length fits < length room then TOKENIZE_TOO_LONG else TOKENIZE_TOO_MANY, list @ fits))"
  using assms
proof (induction ts arbitrary: list)
  case (Cons t ts)
  show ?case
  proof (cases "length list < MAX_TOKEN \<and> length (t_text t) < TOKEN_SIZE")
    case True
    then obtain k where k: "MAX_TOKEN - length list = Suc k" "MAX_TOKEN - Suc (length list) = k"
      by (cases "MAX_TOKEN - length list") auto
    from Cons.IH [of "list @ [\<lparr>t_text = t_text t, t_type = t_type t\<rparr>]"] True k show ?thesis
      by (simp add: token_push_def Let_def)
  next
    case False
    with Cons.prems show ?thesis
      by (cases "MAX_TOKEN - length list") (auto simp: token_push_def Let_def)
  qed
qed (simp add: Let_def)

text \<open>C27: the tokenizer equals the reference lexer with the limits: it takes the
  reference's tokens up to the first that does not fit its buffer, and at most MAX_TOKEN of them.
  When that is all of them it succeeds; when a token among the first MAX_TOKEN is too long it reports
  that one, and otherwise that there are too many.\<close>

theorem tokenize_reference:
  "tokenize line =
    (let tokens = reference_tokens (cstr line);
         room = take MAX_TOKEN tokens;
         fits = takeWhile (\<lambda>t. length (t_text t) < TOKEN_SIZE) room
     in (if fits = tokens then TOKENIZE_OK
         else if length fits < length room then TOKENIZE_TOO_LONG
         else TOKENIZE_TOO_MANY,
         fits))"
  using push_all_limits [of "[]" "lex (cstr line)"] by (simp add: tokenize_lex lex_reference Let_def)

lemma parse_line_live:
  assumes "parse_line line ctx w = (r, ctx', w')"
  shows "w_live w' = w_live w + (case r of None \<Rightarrow> 0 | Some cs \<Rightarrow> chain_blocks cs)"
  using assms
  by (auto simp: parse_line_def tokenize_fail_def Let_def split: prod.splits if_splits
      dest!: build_command_live)

text \<open>C28: parsing neither leaks nor double-frees: on every path, syntax errors and failed
  allocations included, the count of live heap blocks grows by exactly the blocks of the returned
  chain, and by nothing when there is none.\<close>

theorem parse_line_heap:
  assumes "parse_line line ctx w = (r, ctx', w')"
  shows "w_live w' = w_live w + (case r of None \<Rightarrow> 0 | Some cs \<Rightarrow> chain_blocks cs)"
  using assms by (rule parse_line_live)

theorem parse_line_heap_witness:
  "case parse_line ''a b | c >'' (Some 0) (init_world []) of (r, ctx', w') \<Rightarrow>
     r = None \<and> ctx' = Some 2 \<and> w_live w' = w_live (init_world [])"
proof -
  obtain r ctx' w' where p: "parse_line ''a b | c >'' (Some 0) (init_world []) = (r, ctx', w')"
    by (cases "parse_line ''a b | c >'' (Some 0) (init_world [])")
  have "fst (parse_line ''a b | c >'' (Some 0) (init_world [])) = None"
    "fst (snd (parse_line ''a b | c >'' (Some 0) (init_world []))) = Some 2" by code_simp+
  then have "r = None" "ctx' = Some 2" by (simp_all add: p)
  with parse_line_heap [OF p] show ?thesis by (simp add: p)
qed

text \<open>A parsed chain respects the limits the later code relies on: between 1 and 64 nodes, so a
  pipeline never overflows the executor's table of MAX_PIPELINE = 64 pids; each node has a command
  word and at most 63 arguments, so the NULL after them stays inside argv; and only the head node
  carries the background flag.\<close>

theorem parse_line_bounds:
  assumes "parse_line line ctx w = (Some cs, ctx', w')"
  shows "1 \<le> length cs \<and> length cs \<le> 64 \<and>
     list_all (\<lambda>c. 1 \<le> argc c \<and> argc c \<le> MAX_ARGS - 1) cs \<and>
     list_all (\<lambda>c. \<not> background c) (tl cs) \<and> ctx' = ctx"
proof -
  obtain result list where t: "tokenize line = (result, list)" by (cases "tokenize line")
  with assms have b: "build_command list ctx w = (Some cs, ctx', w')"
    by (auto simp: parse_line_def tokenize_fail_def Let_def split: if_splits)
  from push_all_bounds [OF t [unfolded tokenize_lex]] have len: "length list \<le> MAX_TOKEN" by simp
  note inv = build_command_inv [OF b]
  have "length cs \<le> arg_total cs" using inv by (intro length_arg_total) simp
  with inv len show ?thesis
    by (cases cs) (auto simp: chain_inv_def list_all_iff Suc_le_eq)
qed

theorem parse_line_bounds_witness:
  "\<exists>cs ctx' w'. parse_line ''a b|c&'' (Some 0) (init_world []) = (Some cs, ctx', w') \<and>
     map argc cs = [2, 1] \<and> length cs \<le> 64 \<and> list_all (\<lambda>c. \<not> background c) (tl cs)"
proof -
  obtain r ctx' w' where p: "parse_line ''a b|c&'' (Some 0) (init_world []) = (r, ctx', w')"
    by (cases "parse_line ''a b|c&'' (Some 0) (init_world [])")
  have "map_option (map argc) (fst (parse_line ''a b|c&'' (Some 0) (init_world []))) = Some [2, 1]"
    by code_simp
  then obtain cs where "r = Some cs" "map argc cs = [2, 1]" by (auto simp: p)
  with parse_line_bounds [of "''a b|c&''" "Some 0" "init_world []" cs ctx' w'] p show ?thesis
    by auto
qed

text \<open>C30: the three outcomes of parsing are told apart: a chain leaves the exit status and stderr
  alone; a blank line returns no chain and changes nothing at all; every other line reports one
  message and sets the status to 2, or to 1 when an allocation failed.\<close>

theorem parse_line_outcomes:
  "case parse_line line (Some s) w of (r, ctx', w') \<Rightarrow>
     (if r \<noteq> None then ctx' = Some s \<and> w_err w' = w_err w
      else if list_all isspace (cstr line) then ctx' = Some s \<and> w' = w
      else (ctx' = Some 2 \<or> ctx' = Some 1 \<and> False \<in> set (w_allocs w)) \<and>
           (\<exists>m. w_err w' = w_err w @ [''minishell: '' @ m]))"
proof -
  obtain r ctx' w' where p: "parse_line line (Some s) w = (r, ctx', w')"
    by (cases "parse_line line (Some s) w")
  obtain result list where t: "push_all [] (lex (cstr line)) = (result, list)"
    by (cases "push_all [] (lex (cstr line))")
  show ?thesis
  proof (cases "list_all isspace (cstr line)")
    case True
    then have "lex (cstr line) = []" by (simp add: lex_blank)
    with p True show ?thesis by (simp add: parse_line_def tokenize_lex)
  next
    case False
    then have "lex (cstr line) \<noteq> []" by (simp add: lex_blank)
    with push_all_sound [OF t] have "result = TOKENIZE_OK \<Longrightarrow> list \<noteq> []" by auto
    with p t False show ?thesis
      by (cases r) (auto simp: parse_line_def tokenize_lex Let_def reported_def split: if_splits
          dest!: build_command_None build_command_inv tokenize_fail_reported)
  qed
qed

end
