(* ===== verification/Parser_Roundtrip.thy ===== *)
theory Parser_Roundtrip
  imports Parser
begin

text \<open>
  Printing: the token list and the line a command chain comes from, and the round trips through the
  tokenizer and the builder.
\<close>

section \<open>Printing tokens\<close>

definition render :: "TokenList \<Rightarrow> string" where
  "render ts = concat (map (\<lambda>t. t_text t @ [SPACE]) ts)"

lemma render_simps [simp]:
  "render [] = []" "render (t # ts) = t_text t @ SPACE # render ts"
  by (simp_all add: render_def)

lemma lex_space: "lex (SPACE # p) = lex p"
  by (subst lex.simps, subst (2) lex.simps) (simp add: isspace_def Let_def)

lemma next_token_render:
  assumes "token_ok t"
  shows "next_token (t_text t @ SPACE # p) = (t_type t, t_text t)"
proof (cases "t_type t")
  case TOKEN_WORD
  with assms obtain c r where t: "t_text t = c # r" "list_all word_char (c # r)"
    by (cases "t_text t") (auto simp: token_ok_def)
  then have "takeWhile word_char ((c # r) @ SPACE # p) = c # r"
    by (intro takeWhile_sep) (auto simp: list_all_iff isspace_def)
  with t TOKEN_WORD show ?thesis
    by (auto simp: next_token_def is_special_def)
qed (use assms in \<open>auto simp: token_ok_def next_token_def\<close>)

lemma token_ok_hd: "token_ok t \<Longrightarrow> t_text t \<noteq> [] \<and> \<not> isspace (hd (t_text t))"
  by (cases "t_text t") (auto simp: token_ok_def isspace_def split: TokenType.splits)

lemma lex_render: "list_all token_ok ts \<Longrightarrow> lex (render ts) = ts"
proof (induction ts)
  case Nil
  then show ?case by (subst lex.simps) simp
next
  case (Cons t ts)
  then have t: "token_ok t" and IH: "lex (render ts) = ts" by auto
  note h = token_ok_hd [OF t]
  from h have "lex (render (t # ts)) = \<lparr>t_text = t_text t, t_type = t_type t\<rparr> # lex (SPACE # render ts)"
    using lex_at [OF _ _ next_token_render [OF t, of "render ts"]] by simp
  with IH show ?case by (simp add: lex_space)
qed

lemma push_all_OK:
  "list_all (\<lambda>t. length (t_text t) < TOKEN_SIZE) ts \<Longrightarrow> length list + length ts \<le> MAX_TOKEN \<Longrightarrow>
     push_all list ts = (TOKENIZE_OK, list @ ts)"
proof (induction ts arbitrary: list)
  case Nil
  then show ?case by simp
next
  case (Cons t ts)
  then show ?case by (simp add: token_push_def)
qed

section \<open>Printing commands\<close>

definition word :: "string \<Rightarrow> Token" where "word a = \<lparr>t_text = a, t_type = TOKEN_WORD\<rparr>"

definition op_token :: "TokenType \<Rightarrow> Token" where
  "op_token ty =
     \<lparr>t_text = (case ty of TOKEN_WORD \<Rightarrow> [] | TOKEN_REDIRECT_OUT \<Rightarrow> ''>'' | TOKEN_REDIRECT_APPEND \<Rightarrow> ''>>''
                  | TOKEN_REDIRECT_IN \<Rightarrow> ''<'' | TOKEN_PIPE \<Rightarrow> ''|'' | TOKEN_BACKGROUND \<Rightarrow> ''&''),
      t_type = ty\<rparr>"

definition redirect_tokens :: "Redirection \<Rightarrow> TokenList" where
  "redirect_tokens r =
     (case input_file r of None \<Rightarrow> [] | Some f \<Rightarrow> [op_token TOKEN_REDIRECT_IN, word f]) @
     (case output_file r of None \<Rightarrow> []
      | Some f \<Rightarrow> [op_token (if append r then TOKEN_REDIRECT_APPEND else TOKEN_REDIRECT_OUT), word f])"

definition command_tokens :: "Command \<Rightarrow> TokenList" where
  "command_tokens c = map word (argv c) @ redirect_tokens (redirect c)"

fun pipe_tokens :: "Command list \<Rightarrow> TokenList" where
  "pipe_tokens [] = []"
| "pipe_tokens (c # cs) = op_token TOKEN_PIPE # command_tokens c @ pipe_tokens cs"

definition chain_tokens :: "Command list \<Rightarrow> TokenList" where
  "chain_tokens cs = tl (pipe_tokens cs) @ (if head_background cs then [op_token TOKEN_BACKGROUND] else [])"

text \<open>The words that stand for themselves, and the chains the printer is for.\<close>

definition word_ok :: "string \<Rightarrow> bool" where
  "word_ok a \<longleftrightarrow> a \<noteq> [] \<and> list_all (\<lambda>c. word_char c \<and> c \<noteq> NUL) a \<and> length a < TOKEN_SIZE"

definition opt_all :: "('a \<Rightarrow> bool) \<Rightarrow> 'a option \<Rightarrow> bool" where
  "opt_all P x = (case x of None \<Rightarrow> True | Some y \<Rightarrow> P y)"

lemma opt_all_simps [simp]: "opt_all P None" "opt_all P (Some y) = P y"
  by (simp_all add: opt_all_def)

definition command_ok :: "Command \<Rightarrow> bool" where
  "command_ok c \<longleftrightarrow>
     argv c \<noteq> [] \<and> argc c < MAX_ARGS \<and> list_all (\<lambda>a. word_ok a \<and> a \<noteq> ''$?'') (argv c) \<and>
     opt_all word_ok (input_file (redirect c)) \<and> opt_all word_ok (output_file (redirect c)) \<and>
     (output_file (redirect c) = None \<longrightarrow> \<not> append (redirect c))"

definition chain_ok :: "Command list \<Rightarrow> bool" where
  "chain_ok cs \<longleftrightarrow>
     cs \<noteq> [] \<and> list_all command_ok cs \<and> list_all (\<lambda>c. \<not> background c) (tl cs) \<and>
     length (chain_tokens cs) \<le> MAX_TOKEN"

section \<open>The builder reads back what the printer wrote\<close>

abbreviation grow :: "int \<Rightarrow> world \<Rightarrow> world" where
  "grow n w \<equiv> w\<lparr>w_live := w_live w + n\<rparr>"

lemma malloc_plenty: "w_allocs w = [] \<Longrightarrow> malloc w = (True, grow 1 w)"
  by (simp add: malloc_def)

lemma new_command_plenty: "w_allocs w = [] \<Longrightarrow> new_command w = (Some command_init, grow 1 w)"
  by (simp add: new_command_def malloc_plenty)

lemma build_words:
  "w_allocs w = [] \<Longrightarrow> list_all (\<lambda>a. a \<noteq> ''$?'') as \<Longrightarrow> argc current + length as < MAX_ARGS \<Longrightarrow>
     build_tokens ctx (map word as @ rest) before current w =
     build_tokens ctx rest before (current\<lparr>argv := argv current @ as\<rparr>) (grow (int (length as)) w)"
proof (induction as arbitrary: current w)
  case Nil
  then show ?case by simp
next
  case (Cons a as)
  then show ?case
    by (simp add: word_def malloc_plenty word_value_def add_arg_def argc_def add_ac)
qed

lemma is_word_word [simp]: "is_word (word a # ts)"
  by (simp add: is_word_def word_def)

lemma build_redirect:
  assumes "w_allocs w = []" and "input_file (redirect current) = None"
    and "output_file (redirect current) = None" and "\<not> append (redirect current)"
    and "output_file r = None \<Longrightarrow> \<not> append r"
  shows "build_tokens ctx (redirect_tokens r @ rest) before current w =
     build_tokens ctx rest before (current\<lparr>redirect := r\<rparr>)
       (grow (opt_block (output_file r) + opt_block (input_file r)) w)"
proof -
  obtain i out app where r: "r = \<lparr>input_file = i, output_file = out, append = app\<rparr>" by (cases r)
  obtain q where q: "redirect current = q" by simp
  have "q = \<lparr>input_file = None, output_file = None, append = False\<rparr>"
    using assms(2,3,4) q by (cases q) simp
  moreover from this have eq: "current\<lparr>redirect := \<lparr>input_file = None, output_file = None, append = False\<rparr>\<rparr> = current"
    using q by (cases current) simp
  ultimately show ?thesis using q assms(1,5)
    by (cases i; cases out)
      (auto simp: eq r redirect_tokens_def op_token_def malloc_plenty set_input_def set_output_def
        word_def is_word_def opt_block_def add_ac)
qed

lemma build_one:
  assumes "w_allocs w = []" and "command_ok c"
  shows "build_tokens ctx (command_tokens c @ rest) before command_init w =
     build_tokens ctx rest before (c\<lparr>background := False\<rparr>) (grow (command_blocks c - 1) w)"
proof -
  have "list_all (\<lambda>a. a \<noteq> ''$?'') (argv c)" using assms(2) by (auto simp: command_ok_def list_all_iff)
  moreover have eq: "\<lparr>argv = argv c, background = False, redirect = redirect c\<rparr> = c\<lparr>background := False\<rparr>"
    by (cases c) simp
  ultimately show ?thesis
    using assms
    by (simp add: eq command_tokens_def build_words command_ok_def build_redirect command_init_def
        argc_def command_blocks_def add_ac)
qed

lemma command_tokens_is_word: "command_ok c \<Longrightarrow> is_word (command_tokens c @ ts)"
  by (cases "argv c") (auto simp: command_tokens_def command_ok_def)

lemma build_pipes:
  "w_allocs w = [] \<Longrightarrow> list_all command_ok cs \<Longrightarrow> list_all (\<lambda>c. \<not> background c) cs \<Longrightarrow> 0 < argc current \<Longrightarrow>
     \<exists>before' current'. before' @ [current'] = before @ current # cs \<and>
     build_tokens ctx (pipe_tokens cs @ rest) before current w =
     build_tokens ctx rest before' current' (grow (chain_blocks cs) w)"
proof (induction cs arbitrary: before current w)
  case Nil
  then show ?case by auto
next
  case (Cons c cs)
  let ?w = "grow (command_blocks c) w"
  have c: "c\<lparr>background := False\<rparr> = c" using Cons.prems(3) by (cases c) simp
  have "build_tokens ctx (pipe_tokens (c # cs) @ rest) before current w =
    build_tokens ctx (pipe_tokens cs @ rest) (before @ [current]) c ?w"
    using Cons.prems command_tokens_is_word [of c "pipe_tokens cs @ rest"]
    by (simp add: op_token_def new_command_plenty build_one c)
  moreover obtain b' c' where "b' @ [c'] = (before @ [current]) @ c # cs"
    "build_tokens ctx (pipe_tokens cs @ rest) (before @ [current]) c ?w =
     build_tokens ctx rest b' c' (grow (chain_blocks cs) ?w)"
    using Cons.IH [of ?w c "before @ [current]"] Cons.prems
    by (auto simp: command_ok_def argc_def)
  ultimately show ?case by (intro exI [of _ b'] exI [of _ c']) (simp add: add_ac)
qed

lemma finish_ok: "\<forall>c\<in>set cs. 0 < argc c \<Longrightarrow> finish_chain ctx cs w = (Some cs, ctx, w)"
  by (auto simp: finish_chain_def)

lemma build_command_print:
  assumes "chain_ok cs" and "w_allocs w = []"
  shows "build_command (chain_tokens cs) ctx w = (Some cs, ctx, grow (chain_blocks cs) w)"
proof -
  obtain c ds where cs: "cs = c # ds" using assms(1) by (cases cs) (auto simp: chain_ok_def)
  let ?c = "c\<lparr>background := False\<rparr>"
  let ?bg = "if background c then [op_token TOKEN_BACKGROUND] else []"
  have ok: "command_ok c" "list_all command_ok ds" "list_all (\<lambda>c. \<not> background c) ds"
    using assms(1) by (auto simp: chain_ok_def cs)
  have argc: "\<forall>d\<in>set (c # ds). 0 < argc d"
    using ok by (auto simp: command_ok_def argc_def list_all_iff)
  have tokens: "chain_tokens cs = command_tokens c @ pipe_tokens ds @ ?bg"
    by (simp add: chain_tokens_def cs head_background_def)
  obtain b' c' where bc: "b' @ [c'] = [] @ ?c # ds"
    and run: "build_tokens ctx (pipe_tokens ds @ ?bg) [] ?c (grow (command_blocks c) w) =
      build_tokens ctx ?bg b' c' (grow (chain_blocks ds) (grow (command_blocks c) w))"
    using build_pipes [of "grow (command_blocks c) w" ds ?c "[]" ctx ?bg] ok assms(2) argc
    by (auto simp: argc_def)
  have last: "build_tokens ctx ?bg b' c' v = (Some cs, ctx, v)" for v
  proof (cases "background c")
    case True
    have "set_head_background (b' @ [c']) = cs" using bc True
      by (cases c) (simp add: set_head_background_def cs)
    moreover have "\<not> head_background (b' @ [c'])" using bc by (simp add: head_background_def)
    ultimately show ?thesis using True argc
      by (simp add: op_token_def cs finish_ok)
  next
    case False
    then have "?c = c" by (cases c) simp
    with bc False argc show ?thesis by (simp add: finish_ok cs)
  qed
  show ?thesis
    using ok assms(2) run last by (simp add: build_command_def new_command_plenty tokens [unfolded cs] build_one cs add_ac)
qed

lemma word_token_ok: "word_ok a \<Longrightarrow> token_ok (word a) \<and> length (t_text (word a)) < TOKEN_SIZE \<and> NUL \<notin> set (t_text (word a))"
  by (auto simp: word_ok_def token_ok_def word_def list_all_iff)

definition plain_token :: "Token \<Rightarrow> bool" where
  "plain_token t \<longleftrightarrow> token_ok t \<and> length (t_text t) < TOKEN_SIZE \<and> NUL \<notin> set (t_text t)"

lemma plain_word [simp]: "word_ok a \<Longrightarrow> plain_token (word a)"
  using word_token_ok by (simp add: plain_token_def)

lemma plain_op [simp]: "ty \<noteq> TOKEN_WORD \<Longrightarrow> plain_token (op_token ty)"
  by (cases ty) (auto simp: plain_token_def op_token_def token_ok_def)

lemma plain_command:
  assumes "command_ok c"
  shows "list_all plain_token (command_tokens c)"
proof -
  from assms have "list_all plain_token (map word (argv c))"
    by (simp add: command_ok_def list_all_iff)
  moreover from assms have "list_all plain_token (redirect_tokens (redirect c))"
    unfolding command_ok_def redirect_tokens_def
    by (cases "input_file (redirect c)"; cases "output_file (redirect c)") simp_all
  ultimately show ?thesis by (simp add: command_tokens_def)
qed

lemma plain_pipe: "list_all command_ok cs \<Longrightarrow> list_all plain_token (pipe_tokens cs)"
  by (induction cs) (auto simp: plain_command)

lemma plain_chain: "chain_ok cs \<Longrightarrow> list_all plain_token (chain_tokens cs)"
  using plain_pipe [of cs]
  by (cases "pipe_tokens cs") (auto simp: chain_ok_def chain_tokens_def)

lemma render_no_NUL: "list_all plain_token ts \<Longrightarrow> NUL \<notin> set (render ts)"
  by (induction ts) (auto simp: plain_token_def)

lemma parse_printed:
  assumes "chain_ok cs" and "w_allocs w = []"
  shows "parse_line (render (chain_tokens cs)) ctx w = (Some cs, ctx, w\<lparr>w_live := w_live w + chain_blocks cs\<rparr>)"
proof -
  note plain = plain_chain [OF assms(1)]
  have "cstr (render (chain_tokens cs)) = render (chain_tokens cs)"
    by (rule cstr_id [OF render_no_NUL [OF plain]])
  moreover have "lex (render (chain_tokens cs)) = chain_tokens cs"
    using plain by (intro lex_render) (auto simp: plain_token_def list_all_iff)
  moreover have "push_all [] (chain_tokens cs) = (TOKENIZE_OK, chain_tokens cs)"
    using plain assms(1) by (subst push_all_OK) (auto simp: plain_token_def list_all_iff chain_ok_def)
  ultimately have "tokenize (render (chain_tokens cs)) = (TOKENIZE_OK, chain_tokens cs)"
    by (simp add: tokenize_lex)
  moreover have "chain_tokens cs \<noteq> []"
  proof -
    obtain c ds where "cs = c # ds" "command_ok c" using assms(1) by (cases cs) (auto simp: chain_ok_def)
    then show ?thesis by (cases "argv c") (auto simp: chain_tokens_def command_tokens_def command_ok_def)
  qed
  ultimately show ?thesis
    by (simp add: parse_line_def build_command_print [OF assms])
qed

section \<open>Properties\<close>

text \<open>C12: printing and parsing are inverse: the line printed for a well-formed chain (words that are
  not the status variable, argument and token limits respected, the background flag on the head)
  parses to exactly that chain, whatever the exit status, and the parser has allocated exactly the
  chain's blocks.\<close>

theorem parse_print:
  assumes "chain_ok cs" and "w_allocs w = []"
  shows "parse_line (render (chain_tokens cs)) ctx w = (Some cs, ctx, w\<lparr>w_live := w_live w + chain_blocks cs\<rparr>)"
  by (rule parse_printed [OF assms])

theorem parse_print_witness:
  "parse_line ''cat < in | sort -u >> out & '' (Some 0) (init_world []) =
     (Some [\<lparr>argv = [''cat''], background = True,
             redirect = \<lparr>input_file = Some ''in'', output_file = None, append = False\<rparr>\<rparr>,
            \<lparr>argv = [''sort'', ''-u''], background = False,
             redirect = \<lparr>input_file = None, output_file = Some ''out'', append = True\<rparr>\<rparr>],
      Some 0, (init_world [])\<lparr>w_live := 7\<rparr>)"
proof -
  let ?cs = "[\<lparr>argv = [''cat''], background = True,
             redirect = \<lparr>input_file = Some ''in'', output_file = None, append = False\<rparr>\<rparr>,
            \<lparr>argv = [''sort'', ''-u''], background = False,
             redirect = \<lparr>input_file = None, output_file = Some ''out'', append = True\<rparr>\<rparr>]"
  have "chain_ok ?cs" by code_simp
  moreover have "render (chain_tokens ?cs) = ''cat < in | sort -u >> out & ''" by code_simp
  moreover have "chain_blocks ?cs = 7" by code_simp
  moreover have "w_allocs (init_world []) = []" "w_live (init_world []) = 0" by (simp_all add: init_world_def)
  ultimately show ?thesis using parse_print [of ?cs "init_world []" "Some 0"] by simp
qed

end
