(* ===== verification/Config.thy ===== *)
theory Config
  imports Command
begin

text \<open>
  \<^verbatim>\<open>config/config.c\<close>: the shell's configuration, the parser of one line and the transactional
  loader. A stdio stream is the text of the file (the bytes of the answer to \<^verbatim>\<open>fopen\<close>);
  \<open>fgets\<close> splits a piece off it. \<^verbatim>\<open>ferror\<close> and \<^verbatim>\<open>fclose\<close> are calls with answers of their
  own.
\<close>

section \<open>Line input\<close>

text \<open>
  \<open>fgets n data\<close>: the bytes stored (at most \<open>n - 1\<close>, up to and including a newline), the rest of
  the stream, and whether the end-of-file indicator is now set, which needs a read past the end.
\<close>

definition fgets :: "nat \<Rightarrow> string \<Rightarrow> (string \<times> string \<times> bool) option" where
  "fgets n data =
     (if data = [] then None
      else
        let window = take (n - 1) data;
            body = takeWhile (\<lambda>c. c \<noteq> LF) window;
            k = (if length body < length window then Suc (length body) else length body)
        in Some (take k data, drop k data, length data < n - 1 \<and> k = length data \<and> LF \<notin> set data))"

lemma fgets_shorter: "fgets n data = Some (line, rest, e) \<Longrightarrow> 2 \<le> n \<Longrightarrow> length rest < length data"
  by (cases data; cases "n - 1") (auto simp: fgets_def Let_def split: if_splits)

lemma fgets_length:
  assumes "fgets n data = Some (line, rest, e)"
  shows "length line \<le> n - 1"
proof -
  let ?window = "take (n - 1) data"
  have "length (takeWhile (\<lambda>c. c \<noteq> LF) ?window) \<le> length ?window" by (rule length_takeWhile_le)
  with assms show ?thesis by (auto simp: fgets_def Let_def split: if_splits)
qed

text \<open>A short line followed by its newline is read as it is.\<close>

lemma fgets_line:
  assumes "LF \<notin> set l" and "length l + 1 < n"
  shows "fgets n (l @ LF # rest) = Some (l @ [LF], rest, False)"
proof -
  obtain d where n: "n - 1 = length l + Suc d" using assms(2) by (auto simp: less_iff_Suc_add)
  have "take (n - 1) (l @ LF # rest) = l @ LF # take d rest" unfolding n by simp
  moreover have "takeWhile (\<lambda>c. c \<noteq> LF) (l @ LF # take d rest) = l"
    by (rule takeWhile_sep) (use assms(1) in auto)
  ultimately show ?thesis by (simp add: fgets_def)
qed

section \<open>The configuration\<close>

record MiniShellConfig =
  prompts :: string
  max_job :: int
  debug :: bool

definition PROMPTS_SIZE :: nat where "PROMPTS_SIZE = 64"

definition config_init :: MiniShellConfig where
  "config_init =
     \<lparr>prompts = copy_bounded PROMPTS_SIZE ''MiniShell'', max_job = 64, debug = False\<rparr>"

definition trim_space :: "string \<Rightarrow> string" where
  "trim_space s = rev (dropWhile isspace (rev (dropWhile isspace s)))"

definition config_parse_line :: "string \<Rightarrow> MiniShellConfig \<Rightarrow> int \<times> MiniShellConfig" where
  "config_parse_line line configs =
     (let text = trim_space (cstr line) in
      if text = [] \<or> hd text = CHR ''#'' then (OK, configs)
      else if CHR ''='' \<notin> set text then (ERR_PARSE, configs)
      else
        let key = trim_space (takeWhile (\<lambda>c. c \<noteq> CHR ''='') text);
            value = trim_space (tl (dropWhile (\<lambda>c. c \<noteq> CHR ''='') text))
        in
        if key = [] then (ERR_PARSE, configs)
        else if key = ''prompts'' then
          (if value = [] \<or> PROMPTS_SIZE \<le> length value then (ERR_PARSE, configs)
           else (OK, configs\<lparr>prompts := value\<rparr>))
        else if key = ''max_job'' then
          (let n = strtol value in
           if st_range n \<or> \<not> st_conv n \<or> st_end n \<noteq> [] \<or> st_value n \<le> 0 \<or> INT_MAX < st_value n
           then (ERR_PARSE, configs)
           else (OK, configs\<lparr>max_job := st_value n\<rparr>))
        else if key = ''debug'' then
          (if value = ''0'' then (OK, configs\<lparr>debug := False\<rparr>)
           else if value = ''1'' then (OK, configs\<lparr>debug := True\<rparr>)
           else (ERR_PARSE, configs))
        else (ERR_PARSE, configs))"

abbreviation (input) LINE_SIZE :: nat where "LINE_SIZE \<equiv> 256"

function config_lines ::
  "int \<Rightarrow> string \<Rightarrow> MiniShellConfig \<Rightarrow> world \<Rightarrow> int \<times> MiniShellConfig \<times> world" where
  "config_lines line_number data temporary w =
     (case fgets LINE_SIZE data of
        None \<Rightarrow> (OK, temporary, w)
      | Some (line, rest, eof) \<Rightarrow>
          let line_number = line_number + 1; line = cstr line in
          if line \<noteq> [] \<and> last line \<noteq> LF \<and> \<not> eof
          then (ERR_PARSE, temporary,
                eprintf (''config: line '' @ show_int line_number @ '' is too long'' @ [LF]) w)
          else
            let (result, temporary) = config_parse_line line temporary in
            if result \<noteq> OK
            then (result, temporary,
                  eprintf (''config: invalid line '' @ show_int line_number @ [LF]) w)
            else config_lines line_number rest temporary w)"
  by pat_completeness auto
termination
  by (relation "measure (\<lambda>(n, data, t, w). length data)") (auto dest: fgets_shorter)

declare config_lines.simps [simp del]

text \<open>The checks after the loop: a read error and a failing close turn success into failure.\<close>

definition stream_check :: "string \<Rightarrow> int \<Rightarrow> world \<Rightarrow> (int \<times> world) option" where
  "stream_check filename result w =
     (if result = OK
      then do {
        (e, w) \<leftarrow> sys Sys_ferror w;
        if a_ret e \<noteq> 0
        then Some (ERR_OPEN, eprintf (''config: read '' @ filename @ '' failed'' @ [LF]) w)
        else Some (result, w) }
      else Some (result, w))"

definition stream_close :: "int \<Rightarrow> string \<Rightarrow> int \<Rightarrow> world \<Rightarrow> (int \<times> world) option" where
  "stream_close fp filename result w = do {
     (c, w) \<leftarrow> sys (Sys_fclose fp) w;
     if a_ret c \<noteq> 0 \<and> result = OK
     then Some (ERR_OPEN, eprintf (''config: close '' @ filename @ '' failed'' @ [LF]) w)
     else Some (result, w) }"

definition config_load ::
  "MiniShellConfig \<Rightarrow> string \<Rightarrow> world \<Rightarrow> (int \<times> MiniShellConfig \<times> world) option" where
  "config_load configs filename w = do {
     (fp, w) \<leftarrow> sys (Sys_fopen filename) w;
     if a_ret fp < 0
     then Some (ERR_OPEN, configs, eprintf (''config: open '' @ filename @ '' failed'' @ [LF]) w)
     else do {
       let (result, temporary, w) = config_lines 0 (a_bytes fp) config_init w;
       (result, w) \<leftarrow> stream_check filename result w;
       (result, w) \<leftarrow> stream_close (a_ret fp) filename result w;
       Some (result, (if result = OK then temporary else configs), w) } }"

section \<open>Lemmas\<close>

definition config_ok :: "MiniShellConfig \<Rightarrow> bool" where
  "config_ok c \<longleftrightarrow>
     prompts c \<noteq> [] \<and> length (prompts c) < PROMPTS_SIZE \<and> 0 < max_job c \<and> max_job c \<le> INT_MAX"

lemma config_init_ok [simp]: "config_ok config_init"
  by (simp add: config_ok_def config_init_def copy_bounded_def cstr_def PROMPTS_SIZE_def)

lemma config_parse_line_ok:
  "config_parse_line line c = (r, c') \<Longrightarrow> config_ok c \<Longrightarrow> config_ok c'"
  by (auto simp: config_parse_line_def config_ok_def Let_def split: if_splits)

lemma config_parse_line_error:
  "config_parse_line line c = (r, c') \<Longrightarrow> r \<noteq> OK \<Longrightarrow> r = ERR_PARSE \<and> c' = c"
  by (auto simp: config_parse_line_def Let_def split: if_splits)

text \<open>One round of the line loop.\<close>

lemma config_lines_round:
  assumes "config_lines n data c w = (r, c', w')"
  obtains (finished) "r = OK" "c' = c" "w' = w"
  | (too_long) m where "r = ERR_PARSE" "c' = c" "w' = eprintf m w"
  | (bad) line m where "config_parse_line line c = (r, c')" "r \<noteq> OK" "w' = eprintf m w"
  | (more) line rest t where "length rest < length data" "config_parse_line line c = (OK, t)"
      "config_lines (n + 1) rest t w = (r, c', w')"
proof (cases "fgets LINE_SIZE data")
  case None
  with assms show ?thesis by (subst (asm) config_lines.simps) (simp add: finished)
next
  case (Some a)
  then obtain line rest eof where f: "fgets LINE_SIZE data = Some (line, rest, eof)" by (cases a) auto
  obtain r1 t where p: "config_parse_line (cstr line) c = (r1, t)" by fastforce
  have less: "length rest < length data" using fgets_shorter [OF f] by simp
  show ?thesis
  proof (cases "cstr line \<noteq> [] \<and> last (cstr line) \<noteq> LF \<and> \<not> eof")
    case True
    with assms f show ?thesis by (subst (asm) config_lines.simps) (auto intro: too_long)
  next
    case ok: False
    show ?thesis
    proof (cases "r1 = OK")
      case True
      with assms f ok p show ?thesis
        by (subst (asm) config_lines.simps) (intro more [OF less, of "cstr line" t], auto simp: Let_def)
    next
      case False
      with assms f ok p show ?thesis
        by (subst (asm) config_lines.simps) (intro bad [of "cstr line"], auto simp: Let_def)
    qed
  qed
qed

lemma config_lines_run:
  "config_lines n data c w = (r, c', w') \<Longrightarrow>
     (config_ok c \<longrightarrow> config_ok c') \<and> (r = OK \<or> r = ERR_PARSE) \<and>
     w_script w' = w_script w \<and> w_trace w' = w_trace w \<and> w_live w' = w_live w \<and> same_statics w w'"
proof (induction data arbitrary: n c rule: length_induct)
  case (1 data)
  from "1.prems" show ?case
  proof (cases rule: config_lines_round)
    case (bad line m)
    then show ?thesis by (auto dest: config_parse_line_ok config_parse_line_error)
  next
    case (more line rest t)
    from "1.IH" [rule_format, OF more(1,3)] more(2) show ?thesis
      by (auto dest: config_parse_line_ok)
  qed auto
qed

lemma stream_check_eff:
  "ensures (stream_check f r w)
     (\<lambda>(r', w'). calm w w' \<and> (r' = r \<or> r' = ERR_OPEN) \<and> (r \<noteq> OK \<longrightarrow> r' = r))"
  unfolding stream_check_def by (intro vcg) (auto simp: effects)

lemma stream_close_eff:
  "ensures (stream_close fp f r w) (\<lambda>(r', w').
     moves 0 (\<lambda>fd. - of_bool (fd = fp)) w w' \<and> (r' = r \<or> r' = ERR_OPEN) \<and> (r \<noteq> OK \<longrightarrow> r' = r))"
  unfolding stream_close_def by (intro vcg) (auto simp: move_simps dest!: called_moves)

text \<open>The loader is calm, and what it answers is a transaction.\<close>

lemma config_load_eff:
  "ensures (config_load c f w) (\<lambda>(r, c', w'). calm w w' \<and>
     (r = OK \<and> config_ok c' \<or> r \<in> {ERR_PARSE, ERR_OPEN} \<and> c' = c))"
  unfolding config_load_def
proof (intro vcg ensures_split ensures_mono2 [OF stream_check_eff] ensures_mono2 [OF stream_close_eff], goal_cases)
  case (1 fp v)
  then show ?case by (auto dest: stream_failed)
next
  case (2 fp v r1 y t v1 r2 v2 r3 w')
  then have "config_lines 0 (a_bytes fp) config_init v = (r1, t, v1)" by simp
  note run = config_lines_run [OF this]
  have "calm v v1" using run by (simp add: effects)
  with 2 have "moves 0 (\<lambda>_. 0) v v2" by (simp add: calm_moves moves_def)
  with 2 have "calm w w'" unfolding calm_moves by (blast intro: stream_moves opened_moves)
  with 2 run show ?case by auto
qed

section \<open>Properties\<close>

text \<open>C33: loading is a transaction: a configuration with all its bounds (prompt between 1 and
  63 characters, job limit between 1 and INT_MAX) either replaces the old one, or the old one is
  returned untouched and the result says so; whatever the file holds and whichever of open, read
  and close fails.\<close>

theorem config_load_atomic:
  assumes "config_load configs filename w = Some (result, configs', w')"
  shows "(result = OK \<and> config_ok configs') \<or> (result \<in> {ERR_PARSE, ERR_OPEN} \<and> configs' = configs)"
  using ensures_D3 [OF assms config_load_eff] by simp

theorem config_load_atomic_witness:
  "config_load config_init ''f'' (init_world [(ok 3)\<lparr>a_bytes := ''max_job=0''\<rparr>, ok 0]) =
     Some (ERR_PARSE, config_init, (init_world [])\<lparr>
       w_trace := [(Sys_fopen ''f'', (ok 3)\<lparr>a_bytes := ''max_job=0''\<rparr>), (Sys_fclose 3, ok 0)],
       w_err := [''config: invalid line 1'' @ [LF]]\<rparr>) \<and>
   (ERR_PARSE \<in> {ERR_PARSE, ERR_OPEN} \<and> config_init = config_init)"
proof -
  have run: "config_load config_init ''f'' (init_world [(ok 3)\<lparr>a_bytes := ''max_job=0''\<rparr>, ok 0]) =
     Some (ERR_PARSE, config_init, (init_world [])\<lparr>
       w_trace := [(Sys_fopen ''f'', (ok 3)\<lparr>a_bytes := ''max_job=0''\<rparr>), (Sys_fclose 3, ok 0)],
       w_err := [''config: invalid line 1'' @ [LF]]\<rparr>)"
    by code_simp
  from config_load_atomic [OF run] run show ?thesis by simp
qed

text \<open>The file a configuration is written as.\<close>

definition print_config :: "MiniShellConfig \<Rightarrow> string" where
  "print_config c =
     ''prompts='' @ prompts c @ [LF] @ ''max_job='' @ show_int (max_job c) @ [LF] @
     ''debug='' @ (if debug c then ''1'' else ''0'') @ [LF]"

definition plain_prompt :: "string \<Rightarrow> bool" where
  "plain_prompt p \<longleftrightarrow> p \<noteq> [] \<and> \<not> isspace (hd p) \<and> \<not> isspace (last p) \<and> NUL \<notin> set p \<and> LF \<notin> set p"

lemma trim_space_id: "s = [] \<or> \<not> isspace (hd s) \<and> \<not> isspace (last s) \<Longrightarrow> trim_space s = s"
  by (auto simp: trim_space_def dropWhile_idle hd_rev)

lemma trim_space_LF:
  assumes "s \<noteq> []" and "\<not> isspace (hd s)" and "\<not> isspace (last s)"
  shows "trim_space (s @ [LF]) = s"
proof -
  have "dropWhile isspace (s @ [LF]) = s @ [LF]" using assms by (intro dropWhile_idle) simp
  moreover have "dropWhile isspace (rev s) = rev s" using assms by (intro dropWhile_idle) (simp add: hd_rev)
  ultimately show ?thesis by (simp add: trim_space_def)
qed

lemma parse_assignment:
  assumes "NUL \<notin> set key" and "NUL \<notin> set v" and "CHR ''='' \<notin> set key"
    and "key \<noteq> []" and "\<not> isspace (hd key)" and "\<not> isspace (last key)" and "hd key \<noteq> CHR ''#''"
    and "v \<noteq> []" and "\<not> isspace (hd v)" and "\<not> isspace (last v)"
  shows "config_parse_line (key @ CHR ''='' # v @ [LF]) c =
    (if key = ''prompts'' then
       (if PROMPTS_SIZE \<le> length v then (ERR_PARSE, c) else (OK, c\<lparr>prompts := v\<rparr>))
     else if key = ''max_job'' then
       (let n = strtol v in
        if st_range n \<or> \<not> st_conv n \<or> st_end n \<noteq> [] \<or> st_value n \<le> 0 \<or> INT_MAX < st_value n
        then (ERR_PARSE, c) else (OK, c\<lparr>max_job := st_value n\<rparr>))
     else if key = ''debug'' then
       (if v = ''0'' then (OK, c\<lparr>debug := False\<rparr>) else if v = ''1'' then (OK, c\<lparr>debug := True\<rparr>)
        else (ERR_PARSE, c))
     else (ERR_PARSE, c))"
proof -
  let ?t = "key @ CHR ''='' # v"
  have "cstr (?t @ [LF]) = ?t @ [LF]" using assms by (intro cstr_id) auto
  moreover have "trim_space (?t @ [LF]) = ?t"
    using assms by (intro trim_space_LF) (auto simp: hd_append)
  ultimately have "trim_space (cstr (key @ CHR ''='' # v @ [LF])) = ?t" by simp
  moreover have "takeWhile (\<lambda>c. c \<noteq> CHR ''='') ?t = key" "dropWhile (\<lambda>c. c \<noteq> CHR ''='') ?t = CHR ''='' # v"
    using assms(3) by (auto intro!: takeWhile_sep dropWhile_sep)
  moreover have "trim_space key = key" "trim_space v = v" using assms by (auto intro: trim_space_id)
  ultimately show ?thesis using assms(4,7,8)
    by (simp add: config_parse_line_def Let_def hd_append)
qed

lemma config_lines_step:
  assumes "LF \<notin> set l" and "NUL \<notin> set l" and "length l + 1 < LINE_SIZE"
    and "config_parse_line (l @ [LF]) c = (OK, c')"
  shows "config_lines n (l @ LF # rest) c w = config_lines (n + 1) rest c' w"
proof -
  have "cstr (l @ [LF]) = l @ [LF]" using assms(2) by (intro cstr_id) auto
  with assms(4) show ?thesis
    by (subst config_lines.simps) (simp add: fgets_line [OF assms(1,3)])
qed

lemma show_int_clean:
  "0 \<le> i \<Longrightarrow> x \<in> set (show_int i) \<Longrightarrow> isdigit x"
  by (auto simp: show_int_def dest: show_nat_digits)

text \<open>C34: a configuration written as a file is read back as it was: the loader, given the file
  print_config writes and no I/O error, returns exactly the configuration.\<close>

theorem config_roundtrip:
  assumes "config_ok c" and "plain_prompt (prompts c)"
    and "config_load old f w = Some (r, c', w')"
    and "w_script w = fopen # ferror # fclose # rest"
    and "0 \<le> a_ret fopen" and "a_bytes fopen = print_config c"
    and "a_ret ferror = 0" and "a_ret fclose = 0"
  shows "r = OK \<and> c' = c"
proof -
  obtain p m d where c: "c = \<lparr>prompts = p, max_job = m, debug = d\<rparr>" by (cases c)
  let ?m = "show_int m" and ?d = "if d then ''1'' else ''0''"
  have m: "0 < m" "m \<le> INT_MAX" and p: "plain_prompt p" "length p < 64"
    using assms(1,2) by (auto simp: config_ok_def c PROMPTS_SIZE_def)
  have digits: "\<forall>x\<in>set ?m. isdigit x" using m show_int_clean [of m] by auto
  have ne: "?m \<noteq> []" using m by (simp add: show_int_def)
  have clean: "LF \<notin> set ?m" "NUL \<notin> set ?m" using digits by (auto simp: isdigit_def code_def)
  have ends: "\<not> isspace (hd ?m)" "\<not> isspace (last ?m)"
    using digits ne digit_not_space by auto
  have len: "length ?m \<le> 10"
    using m length_show_nat [of "nat m" 10] by (simp add: show_int_def)
  have conv: "strtol ?m = \<lparr>st_value = m, st_range = False, st_conv = True, st_end = []\<rparr>"
    using m by (intro strtol_show_int) auto
  have 1: "config_lines n (''prompts='' @ p @ [LF] @ s) x v = config_lines (n + 1) s (x\<lparr>prompts := p\<rparr>) v" for n s x v
    using p config_lines_step [of "''prompts='' @ p" x "x\<lparr>prompts := p\<rparr>" n s v]
      parse_assignment [of "''prompts''" p x]
    by (auto simp: plain_prompt_def isspace_def PROMPTS_SIZE_def)
  have 2: "config_lines n (''max_job='' @ ?m @ [LF] @ s) x v = config_lines (n + 1) s (x\<lparr>max_job := m\<rparr>) v" for n s x v
    using m conv clean ends ne len config_lines_step [of "''max_job='' @ ?m" x "x\<lparr>max_job := m\<rparr>" n s v]
      parse_assignment [of "''max_job''" ?m x]
    by (auto simp: isspace_def)
  have 3: "config_lines n (''debug='' @ ?d @ [LF]) x v = config_lines (n + 1) [] (x\<lparr>debug := d\<rparr>) v" for n x v
    using config_lines_step [of "''debug='' @ ?d" x "x\<lparr>debug := d\<rparr>" n "[]" v] parse_assignment [of "''debug''" ?d x]
    by (auto simp: isspace_def)
  have "config_lines 0 (print_config c) config_init v = (OK, c, v)" for v
    unfolding print_config_def c using 3
    by (simp add: 1 [simplified] 2 [simplified] 3 [simplified] config_lines.simps [of _ "[]"] fgets_def)
  with assms(3-8) show ?thesis
    by (auto simp: config_load_def stream_check_def stream_close_def bind_Some sys_def split: if_splits)
qed

theorem config_roundtrip_witness:
  "\<exists>r c' w'. config_load config_init ''f''
       (init_world [(ok 3)\<lparr>a_bytes := print_config \<lparr>prompts = ''a b'', max_job = 7, debug = True\<rparr>\<rparr>, ok 0, ok 0]) =
       Some (r, c', w') \<and> r = OK \<and> c' = \<lparr>prompts = ''a b'', max_job = 7, debug = True\<rparr>"
proof -
  let ?c = "\<lparr>prompts = ''a b'', max_job = 7, debug = True\<rparr>"
  let ?w = "init_world [(ok 3)\<lparr>a_bytes := print_config ?c\<rparr>, ok 0, ok 0]"
  have "\<not> Option.is_none (config_load config_init ''f'' ?w)" by code_simp
  then obtain r c' w' where run: "config_load config_init ''f'' ?w = Some (r, c', w')"
    by (cases "config_load config_init ''f'' ?w") auto
  have "config_ok ?c" "plain_prompt (prompts ?c)" by code_simp+
  from config_roundtrip [OF this run, of "(ok 3)\<lparr>a_bytes := print_config ?c\<rparr>" "ok 0" "ok 0" "[]"] run
  show ?thesis by (auto simp: init_world_def ok_def)
qed

end
