(* ===== verification/Event.thy ===== *)
theory Event
  imports World
begin

text \<open>
  \<^verbatim>\<open>src/event.c\<close>: the self-pipe that turns signals into input of the select loop. The static
  \<^verbatim>\<open>event_pipe[2]\<close> is the pair \<open>w_event_r\<close>, \<open>w_event_w\<close> of the world.
\<close>

definition event_set_flags :: "int \<Rightarrow> world \<Rightarrow> (int \<times> world) option" where
  "event_set_flags fd w = do {
     (flags, w) \<leftarrow> sys (Sys_getfl fd) w;
     if a_ret flags < 0 then Some (-1, w) else do {
       (r, w) \<leftarrow> sys (Sys_setfl_nonblock fd) w;
       if a_ret r < 0 then Some (-1, w) else do {
         (flags, w) \<leftarrow> sys (Sys_getfd fd) w;
         if a_ret flags < 0 then Some (-1, w) else do {
           (r, w) \<leftarrow> sys (Sys_setfd_cloexec fd) w;
           if a_ret r < 0 then Some (-1, w) else Some (0, w) } } } }"

definition event_shut :: "world \<Rightarrow> world option" where
  "event_shut w = do {
     w \<leftarrow> (if 0 \<le> w_event_w w then sysv (Sys_close (w_event_w w)) (w\<lparr>w_event_w := -1\<rparr>) else Some w);
     (if 0 \<le> w_event_r w then sysv (Sys_close (w_event_r w)) (w\<lparr>w_event_r := -1\<rparr>) else Some w) }"

text \<open>Setting up a fresh pipe, once none is left from before.\<close>

definition event_open :: "world \<Rightarrow> (int \<times> world) option" where
  "event_open w = do {
     (p, w) \<leftarrow> sys Sys_pipe w;
     if a_ret p < 0
     then Some (-1, (eprintf ''pipe'' w)\<lparr>w_event_r := -1, w_event_w := -1\<rparr>)
     else do {
       let w = w\<lparr>w_event_r := fst (pipe_ends p), w_event_w := snd (pipe_ends p)\<rparr>;
       (r, w) \<leftarrow> event_set_flags (w_event_r w) w;
       (r, w) \<leftarrow> (if r < 0 then Some (r, w) else event_set_flags (w_event_w w) w);
       if r < 0 then do {
         w \<leftarrow> event_shut (eprintf ''fcntl'' w);
         Some (-1, w) }
       else Some (0, w) } }"

definition event_init :: "world \<Rightarrow> (int \<times> world) option" where
  "event_init w =
     (if 0 \<le> w_event_r w \<and> 0 \<le> w_event_w w then Some (0, w)
      else do {
        w \<leftarrow> (if 0 \<le> w_event_r w \<or> 0 \<le> w_event_w w then event_shut w else Some w);
        event_open w })"

definition event_getfd :: "world \<Rightarrow> int" where
  "event_getfd w = w_event_r w"

definition event_notify :: "world \<Rightarrow> world option" where
  "event_notify w =
     (if w_event_w w < 0 then Some w
      else do {
        (a, w) \<leftarrow> sys_retry (Sys_write (w_event_w w) ''x'') w;
        Some w })"

function event_read :: "world \<Rightarrow> (int \<times> world) option" where
  "event_read w =
     (case sys (Sys_read (w_event_r w) 64) w of
        None \<Rightarrow> None
      | Some (a, w) \<Rightarrow>
          if 0 < a_ret a then event_read w
          else if a_ret a = 0 then Some (-1, w)
          else if a_err a = EINTR then event_read w
          else if a_err a = EAGAIN then Some (0, w)
          else Some (-1, w))"
  by pat_completeness auto
termination
  by (relation "measure (\<lambda>w. length (w_script w))") (auto dest: sys_script_less)

declare event_read.simps [simp del]

definition event_drain :: "world \<Rightarrow> (int \<times> world) option" where
  "event_drain w = (if w_event_r w < 0 then Some (-1, w) else event_read w)"

definition event_close_in_child :: "world \<Rightarrow> world option" where
  "event_close_in_child w = event_shut w"

section \<open>Effects\<close>

lemma event_set_flags_calm: "ensures (event_set_flags fd w) (\<lambda>(r, w'). calm w w' \<and> r \<in> {0, -1})"
  unfolding event_set_flags_def by (intro vcg) (auto simp: effects)

lemma event_read_calm: "ensures (event_read w) (\<lambda>(r, w'). calm w w' \<and> r \<in> {0, -1})"
proof (induction w rule: script_induct)
  case (less w)
  show ?case
    by (subst event_read.simps, intro vcg ensures_mono2 [OF less]) (auto simp: effects)
qed

lemmas event_calm1 [vcg] =
  ensures_mono2 [OF event_set_flags_calm] ensures_mono2 [OF event_read_calm]

lemma event_drain_calm: "ensures (event_drain w) (\<lambda>(r, w'). calm w w' \<and> r \<in> {0, -1})"
  unfolding event_drain_def by (intro vcg) auto

lemma event_notify_calm: "ensures (event_notify w) (\<lambda>w'. calm w w')"
  unfolding event_notify_def by (intro vcg) auto

text \<open>The descriptors the module owns.\<close>

definition event_owns :: "world \<Rightarrow> int \<Rightarrow> int" where
  "event_owns w fd = of_bool (0 \<le> fd \<and> fd = w_event_r w) + of_bool (0 \<le> fd \<and> fd = w_event_w w)"

definition event_none :: "world \<Rightarrow> bool" where
  "event_none w \<longleftrightarrow> w_event_r w < 0 \<and> w_event_w w < 0"

lemma event_owns_none: "event_none w \<Longrightarrow> event_owns w fd = 0"
  by (auto simp: event_owns_def event_none_def)

text \<open>The statics of the terminal are not its business.\<close>

definition same_terminal :: "world \<Rightarrow> world \<Rightarrow> bool" where
  "same_terminal w w' \<longleftrightarrow>
     w_terminal_fd w' = w_terminal_fd w \<and> w_term_init w' = w_term_init w \<and> w_shell_pgid w' = w_shell_pgid w \<and>
     w_modes_valid w' = w_modes_valid w \<and> w_modes w' = w_modes w"

lemma event_shut_eff:
  "ensures (event_shut w)
     (\<lambda>w'. length (w_script w') \<le> length (w_script w) \<and> w_live w' = w_live w \<and> event_none w' \<and>
       (\<forall>fd. fd_bal w' fd = fd_bal w fd - event_owns w fd) \<and> same_terminal w w')"
  unfolding event_shut_def event_owns_def event_none_def same_terminal_def
  by (intro vcg) (auto simp: effects)

lemmas event_calm2 [vcg] =
  ensures_mono2 [OF event_drain_calm] ensures_mono [OF event_notify_calm] ensures_mono [OF event_shut_eff]

lemma event_open_eff:
  assumes "event_none w" and "0 \<le> fd"
  shows "ensures (event_open w) (\<lambda>(r, w').
     length (w_script w') \<le> length (w_script w) \<and> w_live w' = w_live w \<and> r \<in> {0, -1} \<and>
     fd_bal w' fd - event_owns w' fd = fd_bal w fd \<and> (r \<noteq> 0 \<longrightarrow> event_none w') \<and> same_terminal w w')"
  unfolding event_open_def
  by (intro vcg) (use assms in \<open>auto simp: effects event_owns_def event_none_def same_terminal_def split: if_splits\<close>)

lemma event_init_eff:
  assumes "0 \<le> fd"
  shows "ensures (event_init w) (\<lambda>(r, w').
     length (w_script w') \<le> length (w_script w) \<and> w_live w' = w_live w \<and> r \<in> {0, -1} \<and>
     fd_bal w' fd - event_owns w' fd = fd_bal w fd - event_owns w fd \<and> (r \<noteq> 0 \<longrightarrow> event_none w') \<and>
     same_terminal w w')"
  unfolding event_init_def
  by (intro vcg ensures_mono2 [OF event_open_eff])
    (use assms in \<open>auto simp: event_none_def event_owns_none same_terminal_def\<close>)

section \<open>Properties\<close>

text \<open>Setting up the self-pipe accounts for every descriptor: on every path, a failing pipe or
  fcntl included, the descriptors opened and not closed are exactly those event_pipe now holds; a
  failing setup leaves none.\<close>

theorem event_init_owns:
  assumes "event_init w = Some (r, w')" and "0 \<le> fd"
  shows "fd_bal w' fd - event_owns w' fd = fd_bal w fd - event_owns w fd \<and>
     (r = 0 \<or> r = -1 \<and> w_event_r w' < 0 \<and> w_event_w w' < 0)"
  using ensures_D2 [OF assms(1) event_init_eff [OF assms(2)]] by (auto simp: event_none_def)

theorem event_init_owns_witness:
  "\<exists>r w'. event_init (init_world [(ok 0)\<lparr>a_fds := [3, 4]\<rparr>, fail EBADF, ok 0, ok 0]) = Some (r, w') \<and>
     fd_bal w' 3 - event_owns w' 3 = 0 \<and> r = -1"
proof -
  let ?w = "init_world [(ok 0)\<lparr>a_fds := [3, 4]\<rparr>, fail EBADF, ok 0, ok 0]"
  have "map_option fst (event_init ?w) = Some (-1)" by code_simp
  then obtain w' where run: "event_init ?w = Some (-1, w')" by auto
  from event_init_owns [OF run, of 3] run show ?thesis
    by (auto simp: init_world_def event_owns_def)
qed

end
