(* ===== verification/Sig.thy ===== *)
theory Sig
  imports Event
begin

text \<open>
  \<^verbatim>\<open>src/sig.c\<close>: the signal handler, the dispositions of the shell and of its children, and the
  atomic hand-over of the pending events. \<^verbatim>\<open>pending_events\<close> is \<open>w_pending\<close>; the mask that
  \<^verbatim>\<open>sigprocmask\<close> saves and restores is opaque.
\<close>

definition signal_handler :: "signal \<Rightarrow> world \<Rightarrow> world option" where
  "signal_handler sig w = event_notify (w\<lparr>w_pending := note_signal (w_pending w) sig\<rparr>)"

text \<open>The signals that are blocked while a handler runs: the \<^verbatim>\<open>sa_mask\<close> of both handlers.\<close>

definition handler_mask :: "signal list" where
  "handler_mask = [SIGINT, SIGCHLD]"

definition set_signal_action :: "signal \<Rightarrow> disposition \<Rightarrow> world \<Rightarrow> (int \<times> world) option" where
  "set_signal_action sig handler w = do {
     (a, w) \<leftarrow> sys (Sys_sigaction sig handler handler_mask) w;
     Some (a_ret a, w) }"

definition ignore_signal :: "signal \<Rightarrow> world \<Rightarrow> (int \<times> world) option" where
  "ignore_signal sig w = do {
     (a, w) \<leftarrow> sys (Sys_sigaction sig SIG_IGN []) w;
     Some (a_ret a, w) }"

definition signal_init :: "world \<Rightarrow> (int \<times> world) option" where
  "signal_init w = do {
     let w = w\<lparr>w_pending := SIGNAL_EVENT_NONE\<rparr>;
     (r, w) \<leftarrow> set_signal_action SIGINT SIG_HANDLER w;
     if r < 0 then Some (-1, w) else do {
     (r, w) \<leftarrow> set_signal_action SIGCHLD SIG_HANDLER w;
     if r < 0 then Some (-1, w) else do {
     (r, w) \<leftarrow> ignore_signal SIGQUIT w;
     if r < 0 then Some (-1, w) else do {
     (r, w) \<leftarrow> ignore_signal SIGTSTP w;
     if r < 0 then Some (-1, w) else do {
     (r, w) \<leftarrow> ignore_signal SIGTTIN w;
     if r < 0 then Some (-1, w) else do {
     (r, w) \<leftarrow> ignore_signal SIGTTOU w;
     if r < 0 then Some (-1, w) else do {
     (r, w) \<leftarrow> ignore_signal SIGPIPE w;
     if r < 0 then Some (-1, w) else Some (0, w) } } } } } } }"

definition signal_shutdown :: "world \<Rightarrow> world option" where
  "signal_shutdown w = do {
     (a, w) \<leftarrow> sys (Sys_sigprocmask SIG_BLOCK [SIGINT, SIGCHLD]) w;
     if a_ret a < 0 then Some w else do {
       (r, w) \<leftarrow> ignore_signal SIGINT w;
       (r, w) \<leftarrow> ignore_signal SIGCHLD w;
       sysv (Sys_sigprocmask SIG_RESTORE []) (w\<lparr>w_pending := SIGNAL_EVENT_NONE\<rparr>) } }"

definition signal_take_events :: "world \<Rightarrow> (int \<times> world) option" where
  "signal_take_events w = do {
     (a, w) \<leftarrow> sys (Sys_sigprocmask SIG_BLOCK [SIGINT, SIGCHLD]) w;
     if a_ret a < 0 then Some (SIGNAL_EVENT_NONE, w)
     else do {
       let events = w_pending w;
       w \<leftarrow> sysv (Sys_sigprocmask SIG_RESTORE []) (w\<lparr>w_pending := SIGNAL_EVENT_NONE\<rparr>);
       Some (events, w) } }"

definition signal_reset_child :: "world \<Rightarrow> world option" where
  "signal_reset_child w = do {
     w \<leftarrow> sysv (Sys_sigaction SIGINT SIG_DFL []) w;
     w \<leftarrow> sysv (Sys_sigaction SIGQUIT SIG_DFL []) w;
     w \<leftarrow> sysv (Sys_sigaction SIGTSTP SIG_DFL []) w;
     w \<leftarrow> sysv (Sys_sigaction SIGTTIN SIG_DFL []) w;
     w \<leftarrow> sysv (Sys_sigaction SIGTTOU SIG_DFL []) w;
     w \<leftarrow> sysv (Sys_sigaction SIGCHLD SIG_DFL []) w;
     w \<leftarrow> sysv (Sys_sigaction SIGPIPE SIG_DFL []) w;
     sysv (Sys_sigprocmask SIG_SETMASK []) w }"

section \<open>Effects\<close>

lemma set_signal_action_calm: "ensures (set_signal_action s h w) (\<lambda>(r, w'). calm w w')"
  unfolding set_signal_action_def by (intro vcg) (auto simp: effects)

lemma ignore_signal_calm: "ensures (ignore_signal s w) (\<lambda>(r, w'). calm w w')"
  unfolding ignore_signal_def by (intro vcg) (auto simp: effects)

lemmas sig_calm1 [vcg] =
  ensures_mono2 [OF set_signal_action_calm] ensures_mono2 [OF ignore_signal_calm]

lemma signal_init_calm: "ensures (signal_init w) (\<lambda>(r, w'). calm w w' \<and> r \<in> {0, -1})"
  unfolding signal_init_def by (intro vcg) (auto simp: effects)

lemma signal_shutdown_calm: "ensures (signal_shutdown w) (\<lambda>w'. calm w w')"
  unfolding signal_shutdown_def by (intro vcg) (auto simp: effects)

lemma signal_take_events_calm: "ensures (signal_take_events w) (\<lambda>(e, w'). calm w w')"
  unfolding signal_take_events_def by (intro vcg) (auto simp: effects)

lemma signal_reset_child_calm: "ensures (signal_reset_child w) (\<lambda>w'. calm w w')"
  unfolding signal_reset_child_def by (intro vcg) (auto simp: effects)

lemma signal_handler_calm: "ensures (signal_handler sig w) (\<lambda>w'. calm w w')"
  unfolding signal_handler_def by (intro vcg) (auto simp: effects)

lemmas sig_calm2 [vcg] =
  ensures_mono2 [OF signal_init_calm] ensures_mono [OF signal_shutdown_calm]
  ensures_mono2 [OF signal_take_events_calm] ensures_mono [OF signal_reset_child_calm]
  ensures_mono [OF signal_handler_calm]

end
