(* ===== verification/Terminal.thy ===== *)
theory Terminal
  imports Event
begin

text \<open>
  \<^verbatim>\<open>src/terminal.c\<close>: control of the terminal. Its statics are fields of the world:
  \<^verbatim>\<open>terminal_fd\<close>, \<^verbatim>\<open>shell_pgid\<close>, \<^verbatim>\<open>terminal_initialized\<close>,
  \<^verbatim>\<open>shell_modes_valid\<close> and \<^verbatim>\<open>shell_modes\<close>. Calls that are interrupted are retried.
\<close>

definition terminal_set_pgrp :: "int \<Rightarrow> world \<Rightarrow> (int \<times> world) option" where
  "terminal_set_pgrp pgid w = do {
     (a, w) \<leftarrow> sys_retry (Sys_tcsetpgrp (w_terminal_fd w) pgid) w;
     if a_ret a < 0 then Some (-1, w) else Some (0, w) }"

text \<open>The loop that waits until the shell's group is in the foreground; \<open>None\<close> as result is a failure.\<close>

function terminal_await_foreground :: "int \<Rightarrow> world \<Rightarrow> (int option \<times> world) option" where
  "terminal_await_foreground shell_group w =
     (case sys (Sys_tcgetpgrp (w_terminal_fd w)) w of
        None \<Rightarrow> None
      | Some (foreground, w) \<Rightarrow>
          if a_ret foreground < 0 then Some (None, w)
          else if a_ret foreground = shell_group then Some (Some shell_group, w)
          else
            (case sys (Sys_kill (- shell_group) SIGTTIN) w of
               None \<Rightarrow> None
             | Some (k, w) \<Rightarrow>
                 if a_ret k < 0
                 then (if a_err k = EINTR then terminal_await_foreground shell_group w
                       else Some (None, w))
                 else
                   (case sys Sys_getpgrp w of
                      None \<Rightarrow> None
                    | Some (g, w) \<Rightarrow> terminal_await_foreground (a_ret g) w)))"
  by pat_completeness auto
termination
  by (relation "measure (\<lambda>(g, w). length (w_script w))") (auto dest!: sys_script_less)

declare terminal_await_foreground.simps [simp del]

text \<open>The \<^verbatim>\<open>fail:\<close> label of \<^verbatim>\<open>terminal_init\<close>.\<close>

definition terminal_fail :: "world \<Rightarrow> (int \<times> world) option" where
  "terminal_fail w = do {
     w \<leftarrow> sysv (Sys_close (w_terminal_fd w)) w;
     Some (-1, w\<lparr>w_terminal_fd := -1, w_shell_pgid := -1, w_modes_valid := 0\<rparr>) }"

text \<open>\<^verbatim>\<open>terminal_init\<close> from the point where the shell's group owns the terminal.\<close>

definition terminal_claim :: "int \<Rightarrow> world \<Rightarrow> (int \<times> world) option" where
  "terminal_claim shell_group w = do {
     (a, w) \<leftarrow> sys (Sys_sigprocmask SIG_BLOCK [SIGTTOU]) w;
     if a_ret a < 0 then terminal_fail w else do {
       (pid, w) \<leftarrow> sys Sys_getpid w;
       (joined, w) \<leftarrow>
         (if shell_group \<noteq> a_ret pid
          then do {
            (s, w) \<leftarrow> sys (Sys_setpgid 0 0) w;
            if a_ret s < 0 \<and> a_err s \<noteq> EACCES then Some (None, w)
            else do { (g, w) \<leftarrow> sys Sys_getpgrp w; Some (Some (a_ret g), w) } }
          else Some (Some shell_group, w));
       case joined of
         None \<Rightarrow> do {
           w \<leftarrow> sysv (Sys_sigprocmask SIG_RESTORE []) w;
           terminal_fail w }
       | Some grp \<Rightarrow> do {
           let w = w\<lparr>w_shell_pgid := grp\<rparr>;
           (r, w) \<leftarrow> terminal_set_pgrp grp w;
           if r < 0 then do {
             w \<leftarrow> sysv (Sys_sigprocmask SIG_RESTORE []) w;
             terminal_fail w }
           else do {
             (m, w) \<leftarrow> sys (Sys_sigprocmask SIG_RESTORE []) w;
             if a_ret m < 0 then terminal_fail w else do {
               (t, w) \<leftarrow> sys (Sys_tcgetattr (w_terminal_fd w)) w;
               if a_ret t < 0 then terminal_fail w
               else Some (0, w\<lparr>w_modes := a_modes t, w_modes_valid := 1, w_term_init := 1\<rparr>) } } } } }"

definition terminal_init :: "world \<Rightarrow> (int \<times> world) option" where
  "terminal_init w = do {
     let w = w\<lparr>w_term_init := 0, w_terminal_fd := -1, w_shell_pgid := -1, w_modes_valid := 0\<rparr>;
     (tty, w) \<leftarrow> sys (Sys_isatty 0) w;
     if a_ret tty = 0 then Some (0, w) else do {
       (fd, w) \<leftarrow> sys (Sys_open ''/dev/tty'' [O_RDWR, O_CLOEXEC]) w;
       let w = w\<lparr>w_terminal_fd := a_ret fd\<rparr>;
       if a_ret fd < 0 then Some (-1, w) else do {
         (g, w) \<leftarrow> sys Sys_getpgrp w;
         (grp, w) \<leftarrow> terminal_await_foreground (a_ret g) w;
         case grp of
           None \<Rightarrow> terminal_fail w
         | Some shell_group \<Rightarrow> terminal_claim shell_group w } } }"

definition terminal_is_initialized :: "world \<Rightarrow> bool" where
  "terminal_is_initialized w \<longleftrightarrow> w_term_init w \<noteq> 0"

definition terminal_set_foreground :: "int \<Rightarrow> world \<Rightarrow> (int \<times> world) option" where
  "terminal_set_foreground pgid w =
     (if w_term_init w = 0 then Some (0, w)
      else if pgid \<le> 0 then Some (-1, w)
      else terminal_set_pgrp pgid w)"

text \<open>\<^verbatim>\<open>terminal_get_modes\<close> returns the value and what is then stored in \<^verbatim>\<open>*modes\<close>.\<close>

definition terminal_get_modes :: "termios \<Rightarrow> world \<Rightarrow> (int \<times> termios \<times> world) option" where
  "terminal_get_modes modes w =
     (if w_term_init w = 0 then Some (0, modes, w)
      else do {
        (a, w) \<leftarrow> sys_retry (Sys_tcgetattr (w_terminal_fd w)) w;
        if a_ret a < 0 then Some (-1, modes, w) else Some (0, a_modes a, w) })"

definition terminal_set_modes :: "termios \<Rightarrow> world \<Rightarrow> (int \<times> world) option" where
  "terminal_set_modes modes w =
     (if w_term_init w = 0 then Some (0, w)
      else do {
        (a, w) \<leftarrow> sys_retry (Sys_tcsetattr (w_terminal_fd w) modes) w;
        if a_ret a < 0 then Some (-1, w) else Some (0, w) })"

definition terminal_restore :: "world \<Rightarrow> (int \<times> world) option" where
  "terminal_restore w =
     (if w_term_init w = 0 then Some (0, w)
      else if w_shell_pgid w \<le> 0 then Some (-1, w)
      else do {
        (r, w) \<leftarrow> terminal_set_pgrp (w_shell_pgid w) w;
        if r < 0 then Some (-1, w)
        else if w_modes_valid w \<noteq> 0 then do {
          (r, w) \<leftarrow> terminal_set_modes (w_modes w) w;
          if r < 0 then Some (-1, w) else Some (0, w) }
        else Some (0, w) })"

definition terminal_shutdown :: "world \<Rightarrow> world option" where
  "terminal_shutdown w = do {
     w \<leftarrow>
       (if w_term_init w \<noteq> 0 then do {
          (r, w) \<leftarrow> terminal_restore w;
          Some (if r < 0 then log_error ''failed restore terminal during shutdown'' w else w) }
        else Some w);
     w \<leftarrow> (if 0 \<le> w_terminal_fd w then sysv (Sys_close (w_terminal_fd w)) w else Some w);
     Some (w\<lparr>w_terminal_fd := -1, w_shell_pgid := -1, w_modes_valid := 0, w_term_init := 0\<rparr>) }"

section \<open>Effects\<close>

lemma terminal_set_pgrp_calm: "ensures (terminal_set_pgrp g w) (\<lambda>(r, w'). calm w w' \<and> r \<in> {0, -1})"
  unfolding terminal_set_pgrp_def by (intro vcg) auto

lemma terminal_await_foreground_calm:
  "ensures (terminal_await_foreground g w) (\<lambda>(r, w'). calm w w')"
proof (induction w arbitrary: g rule: script_induct)
  case (less w)
  show ?case
    by (subst terminal_await_foreground.simps, intro vcg ensures_mono2 [OF less]) (auto simp: effects)
qed

lemmas terminal_calm1 [vcg] =
  ensures_mono2 [OF terminal_set_pgrp_calm] ensures_mono2 [OF terminal_await_foreground_calm]

lemma terminal_set_foreground_calm:
  "ensures (terminal_set_foreground g w) (\<lambda>(r, w'). calm w w' \<and> r \<in> {0, -1})"
  unfolding terminal_set_foreground_def by (intro vcg) auto

lemma terminal_get_modes_calm:
  "ensures (terminal_get_modes m w) (\<lambda>(r, m', w'). calm w w' \<and> r \<in> {0, -1})"
  unfolding terminal_get_modes_def by (intro vcg) auto

lemma terminal_set_modes_calm:
  "ensures (terminal_set_modes m w) (\<lambda>(r, w'). calm w w' \<and> r \<in> {0, -1})"
  unfolding terminal_set_modes_def by (intro vcg) auto

lemmas terminal_calm2 [vcg] =
  ensures_mono2 [OF terminal_set_foreground_calm] ensures_mono3 [OF terminal_get_modes_calm]
  ensures_mono2 [OF terminal_set_modes_calm]

lemma terminal_restore_calm: "ensures (terminal_restore w) (\<lambda>(r, w'). calm w w' \<and> r \<in> {0, -1})"
  unfolding terminal_restore_def by (intro vcg) (auto simp: effects)

lemmas terminal_calm3 [vcg] = ensures_mono2 [OF terminal_restore_calm]

text \<open>
  What the module holds: the descriptor \<^verbatim>\<open>terminal_fd\<close>, where it is not negative.
\<close>

definition terminal_owns :: "world \<Rightarrow> int \<Rightarrow> int" where
  "terminal_owns w fd = of_bool (0 \<le> fd \<and> fd = w_terminal_fd w)"

definition same_event :: "world \<Rightarrow> world \<Rightarrow> bool" where
  "same_event w w' \<longleftrightarrow> w_event_r w' = w_event_r w \<and> w_event_w w' = w_event_w w"

lemma terminal_fail_eff:
  "ensures (terminal_fail w) (\<lambda>(r, w'). r = -1 \<and> w_live w' = w_live w \<and> w_terminal_fd w' = -1 \<and>
     w_term_init w' = w_term_init w \<and> same_event w w' \<and>
     (\<forall>fd. fd_bal w' fd = fd_bal w fd - of_bool (fd = w_terminal_fd w)))"
  unfolding terminal_fail_def by (intro vcg) (auto simp: effects same_event_def)

lemmas terminal_fail_vcg [vcg] = ensures_mono2 [OF terminal_fail_eff]

lemma terminal_shutdown_eff:
  "ensures (terminal_shutdown w) (\<lambda>w'. w_live w' = w_live w \<and> w_terminal_fd w' = -1 \<and>
     w_term_init w' = 0 \<and> same_event w w' \<and> (\<forall>fd. fd_bal w' fd = fd_bal w fd - terminal_owns w fd))"
  unfolding terminal_shutdown_def terminal_owns_def same_event_def by (intro vcg) (auto simp: effects)

lemmas terminal_shutdown_vcg [vcg] = ensures_mono [OF terminal_shutdown_eff]

lemma terminal_claim_eff:
  "ensures (terminal_claim g w) (\<lambda>(r, w'). w_live w' = w_live w \<and> same_event w w' \<and>
     (r = 0 \<and> w_term_init w' = 1 \<and> w_terminal_fd w' = w_terminal_fd w \<and> (\<forall>fd. fd_bal w' fd = fd_bal w fd) \<or>
      r = -1 \<and> w_term_init w' = w_term_init w \<and> w_terminal_fd w' = -1 \<and>
      (\<forall>fd. fd_bal w' fd = fd_bal w fd - of_bool (fd = w_terminal_fd w))))"
  unfolding terminal_claim_def by (intro vcg ensures_option) (auto simp: effects same_event_def)

lemmas terminal_claim_vcg [vcg] = ensures_mono2 [OF terminal_claim_eff]

lemma terminal_init_eff:
  "ensures (terminal_init w) (\<lambda>(r, w'). w_live w' = w_live w \<and> same_event w w' \<and>
     (\<forall>fd. fd_bal w' fd = fd_bal w fd + terminal_owns w' fd) \<and>
     (r = 0 \<or> r = -1 \<and> w_term_init w' = 0 \<and> w_terminal_fd w' < 0) \<and> ((w_term_init w' = 1) = (0 \<le> w_terminal_fd w')))"
  unfolding terminal_init_def
  by (intro vcg ensures_option) (auto simp: effects terminal_owns_def same_event_def)

section \<open>Properties\<close>

text \<open>The terminal is claimed completely or not at all: initialisation answers 0 with the
  terminal open and marked initialised, or 0 with nothing opened when stdin is no terminal, or -1
  with the terminal closed again and not initialised; in every case the only descriptor it leaves
  open is the one terminal_fd holds.\<close>

theorem terminal_init_owns:
  assumes "terminal_init w = Some (r, w')" and "0 \<le> fd"
  shows "fd_bal w' fd = fd_bal w fd + terminal_owns w' fd \<and>
     (r = 0 \<or> r = -1 \<and> w_term_init w' = 0 \<and> w_terminal_fd w' < 0) \<and>
     ((w_term_init w' = 1) = (0 \<le> w_terminal_fd w'))"
  using ensures_D2 [OF assms(1) terminal_init_eff] by blast

theorem terminal_init_owns_witness:
  "\<exists>w'. terminal_init (init_world [ok 1, ok 7, ok 50, fail EIO, ok 0]) = Some (-1, w') \<and>
     fd_bal w' 7 = 0 \<and> w_term_init w' = 0"
proof -
  let ?w = "init_world [ok 1, ok 7, ok 50, fail EIO, ok 0]"
  have "map_option fst (terminal_init ?w) = Some (-1)" by code_simp
  then obtain w' where run: "terminal_init ?w = Some (-1, w')" by auto
  from terminal_init_owns [OF run, of 7] run show ?thesis
    by (auto simp: init_world_def terminal_owns_def)
qed

end
