(* ===== verification/Job.thy ===== *)
theory Job
  imports Command
begin

text \<open>
  \<^verbatim>\<open>include/job.h\<close> and \<^verbatim>\<open>src/job.c\<close>: the table of jobs and their processes. The two linked
  lists are HOL lists; a pointer to a node of the list is its index in it. The \<^verbatim>\<open>next\<close> id is an
  \<open>int\<close>: that the table numbers more than \<^verbatim>\<open>INT_MAX\<close> jobs is out of the model.
\<close>

section \<open>Data\<close>

datatype JobStatus = JOB_RUNNING | JOB_STOPPED | JOB_DONE
datatype ProcessStatus = PROCESS_RUNNING | PROCESS_STOPPED | PROCESS_DONE

record Process =
  p_pid :: int
  p_status :: ProcessStatus
  p_wait_status :: int
  p_wait_status_valid :: bool

record Job =
  j_id :: int
  j_pgid :: int
  j_status :: JobStatus
  j_command :: string
  j_processes :: "Process list"
  j_modes :: termios
  j_modes_valid :: bool

record JobManager =
  jobs :: "Job list"
  nextid :: int

abbreviation (input) JOB_COMMAND_SIZE :: nat where "JOB_COMMAND_SIZE \<equiv> 128"
abbreviation (input) JOB_SHUTDOWN_RETRY_COUNT :: nat where "JOB_SHUTDOWN_RETRY_COUNT \<equiv> 50"

section \<open>Processes\<close>

fun process_destroy :: "Process list \<Rightarrow> world \<Rightarrow> world" where
  "process_destroy [] w = w"
| "process_destroy (p # next_ps) w = process_destroy next_ps (free_blocks 1 w)"

definition process_find :: "Job \<Rightarrow> int \<Rightarrow> nat option" where
  "process_find job pid =
     (if pid \<le> 0 then None else find_index (\<lambda>p. p_pid p = pid) (j_processes job))"

definition processes_status :: "Process list \<Rightarrow> JobStatus" where
  "processes_status ps =
     (let has_running = list_ex (\<lambda>p. p_status p = PROCESS_RUNNING) ps;
          has_stopped = list_ex (\<lambda>p. p_status p = PROCESS_STOPPED) ps
      in if has_running then JOB_RUNNING else if has_stopped then JOB_STOPPED else JOB_DONE)"

definition job_update_status :: "Job \<Rightarrow> Job" where
  "job_update_status job =
     (if j_processes job = [] then job
      else job\<lparr>j_status := processes_status (j_processes job)\<rparr>)"

definition process_apply_wait_status :: "Process \<Rightarrow> int \<Rightarrow> Process" where
  "process_apply_wait_status process status =
     (let process = process\<lparr>p_wait_status := status, p_wait_status_valid := True\<rparr>
      in if WIFEXITED status \<or> WIFSIGNALED status then process\<lparr>p_status := PROCESS_DONE\<rparr>
         else if WIFSTOPPED status then process\<lparr>p_status := PROCESS_STOPPED\<rparr>
         else if WIFCONTINUED status then process\<lparr>p_status := PROCESS_RUNNING\<rparr>
         else process)"

definition job_last_process :: "Job \<Rightarrow> Process option" where
  "job_last_process job = (if j_processes job = [] then None else Some (last (j_processes job)))"

definition shutdown_sleep :: "world \<Rightarrow> world option" where
  "shutdown_sleep w = do {
     (a, w) \<leftarrow> sys_retry Sys_nanosleep w;
     Some w }"

text \<open>
  The result of \<^verbatim>\<open>process_try_reap\<close> is true when the process is gone. \<^verbatim>\<open>errno\<close> is read
  after any answer other than the process or 0, as in the code.
\<close>

function process_try_reap_loop :: "Process \<Rightarrow> world \<Rightarrow> (bool \<times> Process \<times> world) option" where
  "process_try_reap_loop process w =
     (case sys (Sys_waitpid (p_pid process) [WNOHANG]) w of
        None \<Rightarrow> None
      | Some (a, w) \<Rightarrow>
          if a_ret a = p_pid process
          then Some (True, process_apply_wait_status process (a_status a), w)
          else if a_ret a = 0 then Some (False, process, w)
          else if a_err a = EINTR then process_try_reap_loop process w
          else if a_err a = ECHILD then Some (True, process\<lparr>p_status := PROCESS_DONE\<rparr>, w)
          else Some (False, process, log_error ''failed reap process %d during shutdown'' w))"
  by pat_completeness auto
termination
  by (relation "measure (\<lambda>(p, w). length (w_script w))") (auto dest: sys_script_less)

declare process_try_reap_loop.simps [simp del]

definition process_try_reap :: "Process \<Rightarrow> world \<Rightarrow> (bool \<times> Process \<times> world) option" where
  "process_try_reap process w =
     (if p_status process = PROCESS_DONE then Some (True, process, w)
      else process_try_reap_loop process w)"

function process_force_reap_loop :: "Process \<Rightarrow> world \<Rightarrow> (Process \<times> world) option" where
  "process_force_reap_loop process w =
     (case sys (Sys_waitpid (p_pid process) []) w of
        None \<Rightarrow> None
      | Some (a, w) \<Rightarrow>
          if a_ret a = p_pid process
          then Some (process_apply_wait_status process (a_status a), w)
          else if a_ret a < 0 \<and> a_err a = EINTR then process_force_reap_loop process w
          else if a_ret a < 0 \<and> a_err a = ECHILD then Some (process\<lparr>p_status := PROCESS_DONE\<rparr>, w)
          else Some (process, if a_ret a < 0
                              then log_error ''failed wait process %d during shutdown'' w else w))"
  by pat_completeness auto
termination
  by (relation "measure (\<lambda>(p, w). length (w_script w))") (auto dest: sys_script_less)

declare process_force_reap_loop.simps [simp del]

definition process_force_reap :: "Process \<Rightarrow> world \<Rightarrow> (Process \<times> world) option" where
  "process_force_reap process w =
     (if p_status process = PROCESS_DONE then Some (process, w)
      else process_force_reap_loop process w)"

section \<open>The table\<close>

definition job_init :: Job where
  "job_init = \<lparr>j_id = 0, j_pgid = 0, j_status = JOB_RUNNING, j_command = [], j_processes = [],
               j_modes = 0, j_modes_valid = False\<rparr>"

definition jobmanager_init :: JobManager where
  "jobmanager_init = \<lparr>jobs = [], nextid = 1\<rparr>"

text \<open>
  \<open>job_add\<close> returns a pointer to the new head of the list, i.e. the index 0, or \<open>None\<close>. The
  command is \<open>None\<close> for \<^verbatim>\<open>NULL\<close>.
\<close>

definition job_add ::
  "JobManager \<Rightarrow> int \<Rightarrow> string option \<Rightarrow> world \<Rightarrow> nat option \<times> JobManager \<times> world" where
  "job_add manager pgid command w =
     (case command of
        None \<Rightarrow> (None, manager, log_error ''job_add: invalid argument'' w)
      | Some command \<Rightarrow>
          if pgid \<le> 0 then (None, manager, log_error ''job_add: invalid argument'' w)
          else case malloc w of (got, w) \<Rightarrow>
            if \<not> got then (None, manager, log_error ''failed malloc job'' w)
            else (let job = job_init\<lparr>j_id := nextid manager, j_pgid := pgid,
                                     j_command := copy_bounded JOB_COMMAND_SIZE command\<rparr>
                  in (Some 0, manager\<lparr>jobs := job # jobs manager, nextid := nextid manager + 1\<rparr>, w)))"

definition job_find :: "JobManager \<Rightarrow> int \<Rightarrow> nat option" where
  "job_find manager pgid =
     (if pgid \<le> 0 then None else find_index (\<lambda>j. j_pgid j = pgid) (jobs manager))"

definition new_process :: "int \<Rightarrow> Process" where
  "new_process pid =
     \<lparr>p_pid = pid, p_status = PROCESS_RUNNING, p_wait_status = 0, p_wait_status_valid = False\<rparr>"

definition process_add :: "Job \<Rightarrow> int \<Rightarrow> world \<Rightarrow> int \<times> Job \<times> world" where
  "process_add job pid w =
     (if pid \<le> 0 then (-1, job, log_error ''process_add: invalid argument'' w)
      else case malloc w of (got, w) \<Rightarrow>
        if \<not> got then (-1, job, log_error ''failed malloc process'' w)
        else (0, job\<lparr>j_processes := j_processes job @ [new_process pid]\<rparr>, w))"

text \<open>Storing through a pointer to a job of the table.\<close>

definition put_job :: "nat \<Rightarrow> Job \<Rightarrow> JobManager \<Rightarrow> JobManager" where
  "put_job i job manager = manager\<lparr>jobs := (jobs manager)[i := job]\<rparr>"

fun list_jobs :: "Job list \<Rightarrow> world \<Rightarrow> world" where
  "list_jobs [] w = w"
| "list_jobs (job # rest) w =
     (let w = printf (''['' @ show_int (j_id job) @ ''] '' @ j_command job @ [LF]) w;
          w = (case j_status job of
                 JOB_RUNNING \<Rightarrow> printf (''now it is running'' @ [LF]) w
               | JOB_STOPPED \<Rightarrow> printf (''now it is stopped'' @ [LF]) w
               | JOB_DONE \<Rightarrow> printf (''now it is done'' @ [LF]) w)
      in list_jobs rest w)"

definition job_list :: "JobManager \<Rightarrow> world \<Rightarrow> world" where
  "job_list manager w = list_jobs (jobs manager) w"

definition job_active :: "Job \<Rightarrow> bool" where
  "job_active job \<longleftrightarrow> j_status job = JOB_RUNNING \<or> j_status job = JOB_STOPPED"

definition job_count_active :: "JobManager \<Rightarrow> int" where
  "job_count_active manager =
     foldl (\<lambda>count job. if job_active job then count + 1 else count) 0 (jobs manager)"

text \<open>The loops that mark stopped processes running again.\<close>

definition resume_process :: "Process \<Rightarrow> Process" where
  "resume_process p = (if p_status p = PROCESS_STOPPED then p\<lparr>p_status := PROCESS_RUNNING\<rparr> else p)"

definition job_continue :: "Job \<Rightarrow> world \<Rightarrow> (int \<times> Job \<times> world) option" where
  "job_continue job w =
     (if j_pgid job \<le> 0 then Some (-1, job, log_error ''job_continue: invalid job'' w)
      else if j_status job \<noteq> JOB_STOPPED
      then Some (-1, job, log_error ''job_continue: job is not stopped'' w)
      else do {
        (a, w) \<leftarrow> sys_retry (Sys_kill (- j_pgid job) SIGCONT) w;
        if a_ret a < 0 then Some (-1, job, log_error ''job_continue: failed send SIGCONT'' w)
        else Some (0, job_update_status (job\<lparr>j_processes := map resume_process (j_processes job)\<rparr>), w) })"

function job_wait_loop :: "Job \<Rightarrow> world \<Rightarrow> (int \<times> Job \<times> world) option" where
  "job_wait_loop job w =
     (if j_status job \<noteq> JOB_RUNNING then Some (0, job, w)
      else
        (case sys (Sys_waitpid (- j_pgid job) [WUNTRACED]) w of
           None \<Rightarrow> None
         | Some (a, w) \<Rightarrow>
             if a_ret a < 0
             then (if a_err a = EINTR then job_wait_loop job w
                   else Some (-1, job, log_error ''failed wait foreground job'' w))
             else
               (case process_find job (a_ret a) of
                  None \<Rightarrow> Some (-1, job, log_error ''foreground process not found in job'' w)
                | Some i \<Rightarrow>
                    job_wait_loop
                      (job_update_status (job\<lparr>j_processes :=
                        (j_processes job)[i := process_apply_wait_status (j_processes job ! i) (a_status a)]\<rparr>)) w)))"
  by pat_completeness auto
termination
  by (relation "measure (\<lambda>(j, w). length (w_script w))") (auto dest: sys_script_less)

declare job_wait_loop.simps [simp del]

definition job_wait_foreground :: "Job \<Rightarrow> world \<Rightarrow> (int \<times> Job \<times> world) option" where
  "job_wait_foreground job w =
     (if j_pgid job \<le> 0 then Some (-1, job, w) else job_wait_loop job w)"

definition job_exit_status :: "Job \<Rightarrow> int" where
  "job_exit_status job =
     (case job_last_process job of
        None \<Rightarrow> -1
      | Some process \<Rightarrow>
          if \<not> p_wait_status_valid process then -1
          else if WIFEXITED (p_wait_status process) then WEXITSTATUS (p_wait_status process)
          else if WIFSIGNALED (p_wait_status process) then 128 + WTERMSIG (p_wait_status process)
          else -1)"

text \<open>One process of \<^verbatim>\<open>job_reap\<close>, with the message to the user.\<close>

definition report_status :: "int \<Rightarrow> int \<Rightarrow> int \<Rightarrow> world \<Rightarrow> world" where
  "report_status jid pid status w =
     (let line = (\<lambda>what n. [LF] @ ''['' @ show_int jid @ ''] process '' @ show_int pid @ what @ show_int n @ [LF])
      in if WIFEXITED status then printf (line '' exit '' (WEXITSTATUS status)) w
         else if WIFSIGNALED status then printf (line '' killed by '' (WTERMSIG status)) w
         else if WIFSTOPPED status then printf (line '' stopped by '' (WSTOPSIG status)) w
         else w)"

definition reap_process :: "int \<Rightarrow> Process \<Rightarrow> world \<Rightarrow> (Process \<times> world) option" where
  "reap_process jid process w =
     (if p_status process = PROCESS_DONE then Some (process, w)
      else do {
        (a, w) \<leftarrow> sys (Sys_waitpid (p_pid process) [WNOHANG, WUNTRACED, WCONTINUED]) w;
        if a_ret a < 0
        then (if a_err a = ECHILD then Some (process\<lparr>p_status := PROCESS_DONE\<rparr>, w)
              else if a_err a \<noteq> EINTR then Some (process, log_error ''failed waitpid process %d'' w)
              else Some (process, w))
        else if a_ret a = p_pid process
        then Some (process_apply_wait_status process (a_status a),
                   report_status jid (p_pid process) (a_status a) w)
        else Some (process, w) })"

fun reap_processes :: "int \<Rightarrow> Process list \<Rightarrow> world \<Rightarrow> (Process list \<times> world) option" where
  "reap_processes jid [] w = Some ([], w)"
| "reap_processes jid (p # ps) w = do {
     (p, w) \<leftarrow> reap_process jid p w;
     (ps, w) \<leftarrow> reap_processes jid ps w;
     Some (p # ps, w) }"

fun reap_jobs :: "Job list \<Rightarrow> world \<Rightarrow> (Job list \<times> world) option" where
  "reap_jobs [] w = Some ([], w)"
| "reap_jobs (job # rest) w = do {
     (ps, w) \<leftarrow> reap_processes (j_id job) (j_processes job) w;
     (rest, w) \<leftarrow> reap_jobs rest w;
     Some (job_update_status (job\<lparr>j_processes := ps\<rparr>) # rest, w) }"

definition job_reap :: "JobManager \<Rightarrow> world \<Rightarrow> (JobManager \<times> world) option" where
  "job_reap manager w = do {
     (js, w) \<leftarrow> reap_jobs (jobs manager) w;
     Some (manager\<lparr>jobs := js\<rparr>, w) }"

text \<open>A job and its processes are freed.\<close>

definition free_job :: "Job \<Rightarrow> world \<Rightarrow> world" where
  "free_job job w = free_blocks 1 (process_destroy (j_processes job) w)"

fun cleanup_jobs :: "Job list \<Rightarrow> world \<Rightarrow> Job list \<times> world" where
  "cleanup_jobs [] w = ([], w)"
| "cleanup_jobs (current # rest) w =
     (if j_status current = JOB_DONE then cleanup_jobs rest (free_job current w)
      else (case cleanup_jobs rest w of (rest, w) \<Rightarrow> (current # rest, w)))"

definition job_cleanup_done :: "JobManager \<Rightarrow> world \<Rightarrow> JobManager \<times> world" where
  "job_cleanup_done manager w =
     (case cleanup_jobs (jobs manager) w of (js, w) \<Rightarrow> (manager\<lparr>jobs := js\<rparr>, w))"

fun remove_job :: "int \<Rightarrow> Job list \<Rightarrow> world \<Rightarrow> Job list \<times> world" where
  "remove_job pgid [] w = ([], w)"
| "remove_job pgid (current # rest) w =
     (if j_pgid current = pgid then (rest, free_job current w)
      else (case remove_job pgid rest w of (rest, w) \<Rightarrow> (current # rest, w)))"

definition job_remove :: "JobManager \<Rightarrow> int \<Rightarrow> world \<Rightarrow> JobManager \<times> world" where
  "job_remove manager pgid w =
     (if pgid \<le> 0 then (manager, w)
      else case remove_job pgid (jobs manager) w of (js, w) \<Rightarrow> (manager\<lparr>jobs := js\<rparr>, w))"

fun destroy_jobs :: "Job list \<Rightarrow> world \<Rightarrow> world" where
  "destroy_jobs [] w = w"
| "destroy_jobs (job # rest) w = destroy_jobs rest (free_job job w)"

definition job_destroy :: "JobManager \<Rightarrow> world \<Rightarrow> JobManager \<times> world" where
  "job_destroy manager w = (manager\<lparr>jobs := [], nextid := 1\<rparr>, destroy_jobs (jobs manager) w)"

section \<open>Shutdown\<close>

fun try_reap_processes :: "Process list \<Rightarrow> world \<Rightarrow> (bool \<times> Process list \<times> world) option" where
  "try_reap_processes [] w = Some (True, [], w)"
| "try_reap_processes (p # ps) w = do {
     (gone, p, w) \<leftarrow> process_try_reap p w;
     (all_done, ps, w) \<leftarrow> try_reap_processes ps w;
     Some (gone \<and> all_done, p # ps, w) }"

fun try_reap_jobs :: "Job list \<Rightarrow> world \<Rightarrow> (bool \<times> Job list \<times> world) option" where
  "try_reap_jobs [] w = Some (True, [], w)"
| "try_reap_jobs (job # rest) w = do {
     (done1, ps, w) \<leftarrow> try_reap_processes (j_processes job) w;
     (all_done, rest, w) \<leftarrow> try_reap_jobs rest w;
     Some (done1 \<and> all_done, job_update_status (job\<lparr>j_processes := ps\<rparr>) # rest, w) }"

definition jobmanager_try_reap_all :: "JobManager \<Rightarrow> world \<Rightarrow> (bool \<times> JobManager \<times> world) option" where
  "jobmanager_try_reap_all manager w = do {
     (all_done, js, w) \<leftarrow> try_reap_jobs (jobs manager) w;
     Some (all_done, manager\<lparr>jobs := js\<rparr>, w) }"

definition continue_stopped_job :: "Job \<Rightarrow> world \<Rightarrow> (Job \<times> world) option" where
  "continue_stopped_job job w = do {
     w \<leftarrow> (if 0 < j_pgid job
           then do {
             (a, w) \<leftarrow> sys (Sys_kill (- j_pgid job) SIGCONT) w;
             Some (if a_ret a < 0 \<and> a_err a \<noteq> ESRCH
                   then log_error ''failed continue job %d during shutdown'' w else w) }
           else Some w);
     Some (job_update_status (job\<lparr>j_processes := map resume_process (j_processes job)\<rparr>), w) }"

fun continue_jobs :: "Job list \<Rightarrow> world \<Rightarrow> (Job list \<times> world) option" where
  "continue_jobs [] w = Some ([], w)"
| "continue_jobs (job # rest) w = do {
     (job, w) \<leftarrow> (if j_status job = JOB_STOPPED then continue_stopped_job job w else Some (job, w));
     (rest, w) \<leftarrow> continue_jobs rest w;
     Some (job # rest, w) }"

text \<open>The loop that signals the groups: with \<^verbatim>\<open>SIGTERM\<close> those not done, with \<^verbatim>\<open>SIGKILL\<close> all.\<close>

fun terminate_jobs :: "Job list \<Rightarrow> world \<Rightarrow> world option" where
  "terminate_jobs [] w = Some w"
| "terminate_jobs (job # rest) w = do {
     w \<leftarrow> (if j_status job \<noteq> JOB_DONE \<and> 0 < j_pgid job
           then do {
             (a, w) \<leftarrow> sys (Sys_kill (- j_pgid job) SIGTERM) w;
             Some (if a_ret a < 0 \<and> a_err a \<noteq> ESRCH
                   then log_error ''failed terminate job %d pgid %d during shutdown: %s'' w else w) }
           else Some w);
     terminate_jobs rest w }"

fun kill_jobs :: "Job list \<Rightarrow> world \<Rightarrow> world option" where
  "kill_jobs [] w = Some w"
| "kill_jobs (job # rest) w = do {
     w \<leftarrow> (if 0 < j_pgid job
           then do {
             (a, w) \<leftarrow> sys (Sys_kill (- j_pgid job) SIGKILL) w;
             Some (if a_ret a < 0 \<and> a_err a \<noteq> ESRCH
                   then log_error ''failed kill job %d pgid %d during shutdown: %s'' w else w) }
           else Some w);
     kill_jobs rest w }"

fun shutdown_retry :: "nat \<Rightarrow> JobManager \<Rightarrow> world \<Rightarrow> (JobManager \<times> world) option" where
  "shutdown_retry 0 manager w = Some (manager, w)"
| "shutdown_retry (Suc i) manager w = do {
     (all_done, manager, w) \<leftarrow> jobmanager_try_reap_all manager w;
     if all_done then Some (manager, w)
     else do {
       w \<leftarrow> shutdown_sleep w;
       shutdown_retry i manager w } }"

fun force_reap_processes :: "Process list \<Rightarrow> world \<Rightarrow> (Process list \<times> world) option" where
  "force_reap_processes [] w = Some ([], w)"
| "force_reap_processes (p # ps) w = do {
     (p, w) \<leftarrow> process_force_reap p w;
     (ps, w) \<leftarrow> force_reap_processes ps w;
     Some (p # ps, w) }"

fun force_reap_jobs :: "Job list \<Rightarrow> world \<Rightarrow> (Job list \<times> world) option" where
  "force_reap_jobs [] w = Some ([], w)"
| "force_reap_jobs (job # rest) w = do {
     (ps, w) \<leftarrow> force_reap_processes (j_processes job) w;
     (rest, w) \<leftarrow> force_reap_jobs rest w;
     Some (job_update_status (job\<lparr>j_processes := ps\<rparr>) # rest, w) }"

definition job_shutdown :: "JobManager \<Rightarrow> world \<Rightarrow> (JobManager \<times> world) option" where
  "job_shutdown manager w =
     (if jobs manager = [] then Some (manager\<lparr>nextid := 1\<rparr>, w)
      else do {
        (js, w) \<leftarrow> continue_jobs (jobs manager) w;
        w \<leftarrow> terminate_jobs js w;
        (manager, w) \<leftarrow> shutdown_retry JOB_SHUTDOWN_RETRY_COUNT (manager\<lparr>jobs := js\<rparr>) w;
        w \<leftarrow> kill_jobs (jobs manager) w;
        (js, w) \<leftarrow> force_reap_jobs (jobs manager) w;
        Some (job_destroy (manager\<lparr>jobs := js\<rparr>) w) })"

end
