(* ===== verification/Job_Table.thy ===== *)
theory Job_Table
  imports Job
begin

text \<open>
  What the job table of \<open>Job\<close> promises: its invariant, the heap it owns, what every operation does
  to both, and the guarantees of waiting, reaping and shutting down.

  Two interfaces are stated as locales. \<open>job_sweep\<close> is what the loops that visit every process
  of every job have in common; the three of \<^verbatim>\<open>job.c\<close> (reap, reap during shutdown, forced reap)
  are interpretations. \<open>job_store\<close> is what the executor and the built-in commands rely on when they
  add, find and remove a job.
\<close>

section \<open>The invariant\<close>

definition job_ok :: "Job \<Rightarrow> bool" where
  "job_ok j \<longleftrightarrow>
     0 < j_pgid j \<and> length (j_command j) < JOB_COMMAND_SIZE \<and>
     (\<forall>p\<in>set (j_processes j). 0 < p_pid p) \<and>
     (j_processes j \<noteq> [] \<longrightarrow> j_status j = processes_status (j_processes j))"

definition job_blocks :: "Job \<Rightarrow> int" where
  "job_blocks j = 1 + int (length (j_processes j))"

definition jobs_blocks :: "Job list \<Rightarrow> int" where
  "jobs_blocks js = sum_list (map job_blocks js)"

definition table_blocks :: "JobManager \<Rightarrow> int" where
  "table_blocks m = jobs_blocks (jobs m)"

definition table_ok :: "JobManager \<Rightarrow> bool" where
  "table_ok m \<longleftrightarrow>
     list_all job_ok (jobs m) \<and> sorted_wrt (>) (map j_id (jobs m)) \<and>
     (\<forall>j\<in>set (jobs m). 1 \<le> j_id j \<and> j_id j < nextid m) \<and> 1 \<le> nextid m"

lemma jobs_blocks_simps [simp]:
  "jobs_blocks [] = 0" "jobs_blocks (j # js) = job_blocks j + jobs_blocks js"
  by (simp_all add: jobs_blocks_def)

lemma decreasing_distinct: "sorted_wrt (>) xs \<Longrightarrow> distinct (xs :: int list)"
  by (induction xs) auto

lemma table_ok_distinct: "table_ok m \<Longrightarrow> distinct (map j_id (jobs m))"
  unfolding table_ok_def by (blast intro: decreasing_distinct)

text \<open>\<open>same_job\<close>: the same job with the same processes, which may have made progress.\<close>

definition same_job :: "Job \<Rightarrow> Job \<Rightarrow> bool" where
  "same_job j j' \<longleftrightarrow>
     j_id j' = j_id j \<and> j_pgid j' = j_pgid j \<and> j_command j' = j_command j \<and>
     map p_pid (j_processes j') = map p_pid (j_processes j) \<and> (job_ok j \<longrightarrow> job_ok j')"

lemma same_job_refl [simp]: "same_job j j"
  by (simp add: same_job_def)

lemma same_job_trans: "same_job i j \<Longrightarrow> same_job j k \<Longrightarrow> same_job i k"
  by (simp add: same_job_def)

lemma same_job_blocks: "same_job j j' \<Longrightarrow> job_blocks j' = job_blocks j"
  by (auto simp: same_job_def job_blocks_def dest: map_eq_imp_length_eq)

definition same_jobs :: "Job list \<Rightarrow> Job list \<Rightarrow> bool" where
  "same_jobs js js' \<longleftrightarrow> list_all2 same_job js js'"

lemma same_jobs_refl [simp]: "same_jobs js js"
  by (simp add: same_jobs_def list_all2_refl)

lemma same_jobs_trans: "same_jobs i j \<Longrightarrow> same_jobs j k \<Longrightarrow> same_jobs i k"
  unfolding same_jobs_def by (rule list_all2_trans [OF same_job_trans])

lemma same_jobs_simps [simp]:
  "same_jobs [] js' \<longleftrightarrow> js' = []" "same_jobs (j # js) (j' # js') \<longleftrightarrow> same_job j j' \<and> same_jobs js js'"
  by (simp_all add: same_jobs_def)

lemma same_jobs_facts:
  "same_jobs js js' \<Longrightarrow> jobs_blocks js' = jobs_blocks js \<and> map j_id js' = map j_id js \<and>
     map j_pgid js' = map j_pgid js \<and> (list_all job_ok js \<longrightarrow> list_all job_ok js')"
  unfolding same_jobs_def
  by (induction rule: list_all2_induct) (auto simp: same_job_blocks, auto simp: same_job_def)

lemma same_jobs_table_ok:
  assumes "same_jobs (jobs m) js'" and "table_ok m"
  shows "table_ok (m\<lparr>jobs := js'\<rparr>)"
proof -
  have *: "(\<forall>j\<in>set js. P (j_id j)) = (\<forall>i\<in>set (map j_id js). P i)" for P js by simp
  from assms same_jobs_facts [OF assms(1)] show ?thesis
    by (simp add: table_ok_def * [of "jobs m" "\<lambda>i. 1 \<le> i \<and> i < nextid m"]
        * [of js' "\<lambda>i. 1 \<le> i \<and> i < nextid m"] del: set_map)
qed

text \<open>Progress of the processes, followed by \<open>job_update_status\<close>, keeps the job.\<close>

lemma update_same_job:
  assumes "map p_pid ps = map p_pid (j_processes j)"
  shows "same_job j (job_update_status (j\<lparr>j_processes := ps\<rparr>))"
proof -
  have "(\<forall>p\<in>set ps. 0 < p_pid p) \<longleftrightarrow> (\<forall>p\<in>set (j_processes j). 0 < p_pid p)"
    using arg_cong [OF assms, of "\<lambda>l. \<forall>i\<in>set l. 0 < i"] by simp
  moreover have "ps = [] \<longleftrightarrow> j_processes j = []" using assms by (metis map_is_Nil_conv)
  ultimately show ?thesis using assms
    by (auto simp: same_job_def job_ok_def job_update_status_def)
qed

lemma apply_pid [simp]: "p_pid (process_apply_wait_status p st) = p_pid p"
  by (simp add: process_apply_wait_status_def Let_def)

lemma resume_pid [simp]: "p_pid (resume_process p) = p_pid p"
  by (simp add: resume_process_def)

section \<open>Loops over the processes of every job\<close>

locale job_sweep =
  fixes visit :: "int \<Rightarrow> Process \<Rightarrow> world \<Rightarrow> (Process \<times> world) option"
    and visit_all :: "int \<Rightarrow> Process list \<Rightarrow> world \<Rightarrow> (Process list \<times> world) option"
    and sweep :: "Job list \<Rightarrow> world \<Rightarrow> (Job list \<times> world) option"
  assumes visit: "ensures (visit i p w) (\<lambda>(p', w'). calm w w' \<and> p_pid p' = p_pid p)"
    and all_Nil: "visit_all i [] w = Some ([], w)"
    and all_Cons: "visit_all i (p # ps) w =
      do { (p, w) \<leftarrow> visit i p w; (ps, w) \<leftarrow> visit_all i ps w; Some (p # ps, w) }"
    and sweep_Nil: "sweep [] w = Some ([], w)"
    and sweep_Cons: "sweep (j # js) w =
      do { (ps, w) \<leftarrow> visit_all (j_id j) (j_processes j) w; (js, w) \<leftarrow> sweep js w;
           Some (job_update_status (j\<lparr>j_processes := ps\<rparr>) # js, w) }"
begin

lemma all_calm: "ensures (visit_all i ps w) (\<lambda>(ps', w'). calm w w' \<and> map p_pid ps' = map p_pid ps)"
proof (induction ps arbitrary: w)
  case Nil
  then show ?case unfolding all_Nil by (intro vcg) simp
next
  case (Cons p ps)
  show ?case unfolding all_Cons
    by (intro vcg ensures_mono2 [OF visit] ensures_mono2 [OF Cons]) (auto intro: calm_trans)
qed

lemma sweep_calm: "ensures (sweep js w) (\<lambda>(js', w'). calm w w' \<and> same_jobs js js')"
proof (induction js arbitrary: w)
  case Nil
  then show ?case unfolding sweep_Nil by (intro vcg) simp
next
  case (Cons j js)
  show ?case unfolding sweep_Cons
    by (intro vcg ensures_mono2 [OF all_calm] ensures_mono2 [OF Cons])
      (auto intro: calm_trans update_same_job)
qed

text \<open>Every job the sweep leaves has a status that follows from its processes.\<close>

lemma sweep_status:
  "ensures (sweep js w) (\<lambda>(js', w'). \<forall>j\<in>set js'. j_processes j \<noteq> [] \<longrightarrow> j_status j = processes_status (j_processes j))"
proof (induction js arbitrary: w)
  case Nil
  then show ?case unfolding sweep_Nil by (intro vcg) simp
next
  case (Cons j js)
  show ?case unfolding sweep_Cons
    by (intro vcg ensures_mono2 [OF all_calm] ensures_mono2 [OF Cons])
      (auto simp: job_update_status_def)
qed

end

text \<open>A sweep makes only the calls its visits make.\<close>

locale job_sweep_calls = job_sweep +
  fixes allowed :: "syscall \<Rightarrow> bool"
  assumes visit_calls: "ensures (visit i p w) (\<lambda>(p', w'). calls_only allowed w w')"
begin

lemma all_calls: "ensures (visit_all i ps w) (\<lambda>(ps', w'). calls_only allowed w w')"
proof (induction ps arbitrary: w)
  case Nil
  then show ?case unfolding all_Nil by (intro vcg) simp
next
  case (Cons p ps)
  show ?case unfolding all_Cons
    by (intro vcg ensures_mono2 [OF visit_calls] ensures_mono2 [OF Cons]) (auto intro: calls_only_trans)
qed

lemma sweep_calls: "ensures (sweep js w) (\<lambda>(js', w'). calls_only allowed w w')"
proof (induction js arbitrary: w)
  case Nil
  then show ?case unfolding sweep_Nil by (intro vcg) simp
next
  case (Cons j js)
  show ?case unfolding sweep_Cons
    by (intro vcg ensures_mono2 [OF all_calls] ensures_mono2 [OF Cons]) (auto intro: calls_only_trans)
qed

end

text \<open>\<^verbatim>\<open>job_reap\<close>, which only polls.\<close>

definition is_blocking_wait :: "syscall \<Rightarrow> bool" where
  "is_blocking_wait c = (case c of Sys_waitpid pid flags \<Rightarrow> flags = [] | _ \<Rightarrow> False)"

lemma is_blocking_wait_simp [simp]: "is_blocking_wait (Sys_waitpid pid flags) \<longleftrightarrow> flags = []"
  by (simp add: is_blocking_wait_def)

lemma report_calls [simp]: "calls_only P w (report_status i pid st v) = calls_only P w v"
  by (simp add: report_status_def Let_def)

lemma report_status_calm [simp]: "calm w (report_status i pid st v) = calm w v"
  by (simp add: report_status_def Let_def effects)

lemma reap_process_calm: "ensures (reap_process i p w) (\<lambda>(p', w'). calm w w' \<and> p_pid p' = p_pid p)"
  unfolding reap_process_def by (intro vcg) (auto simp: effects report_status_def Let_def)

interpretation reaping: job_sweep reap_process reap_processes reap_jobs
  by unfold_locales (auto intro: reap_process_calm)

interpretation reaping_calls: job_sweep_calls reap_process reap_processes reap_jobs
  "\<lambda>c. \<exists>pid. c = Sys_waitpid pid [WNOHANG, WUNTRACED, WCONTINUED]"
proof unfold_locales
  fix i p w
  show "ensures (reap_process i p w)
      (\<lambda>(p', w'). calls_only (\<lambda>c. \<exists>pid. c = Sys_waitpid pid [WNOHANG, WUNTRACED, WCONTINUED]) w w')"
    unfolding reap_process_def by (intro vcg) (auto intro: calls_only_called)
qed

text \<open>The polite reaping of \<^verbatim>\<open>job_shutdown\<close>, without its result.\<close>

lemma try_reap_loop_calm:
  "ensures (process_try_reap_loop p w) (\<lambda>(r, p', w'). calm w w' \<and> p_pid p' = p_pid p)"
proof (induction w rule: script_induct)
  case (less w)
  show ?case
    by (subst process_try_reap_loop.simps, intro vcg ensures_mono3 [OF less]) (auto simp: effects)
qed

lemma process_try_reap_calm:
  "ensures (process_try_reap p w) (\<lambda>(r, p', w'). calm w w' \<and> p_pid p' = p_pid p)"
  unfolding process_try_reap_def
  by (intro vcg ensures_mono3 [OF try_reap_loop_calm]) auto

interpretation shutdown_reaping: job_sweep
  "\<lambda>_ p w. map_option snd (process_try_reap p w)"
  "\<lambda>_ ps w. map_option snd (try_reap_processes ps w)"
  "\<lambda>js w. map_option snd (try_reap_jobs js w)"
proof unfold_locales
  show "ensures (map_option snd (process_try_reap p w)) (\<lambda>(p', w'). calm w w' \<and> p_pid p' = p_pid p)" for p w
    using process_try_reap_calm [of p w] by (auto simp: ensures_def)
qed (auto simp: map_option_bind comp_def case_prod_beta bind_map_option intro!: bind_cong_Some)

text \<open>The forced reaping.\<close>

lemma force_reap_loop_calm:
  "ensures (process_force_reap_loop p w) (\<lambda>(p', w'). calm w w' \<and> p_pid p' = p_pid p)"
proof (induction w rule: script_induct)
  case (less w)
  show ?case
    by (subst process_force_reap_loop.simps, intro vcg ensures_mono2 [OF less]) (auto simp: effects)
qed

lemma process_force_reap_calm:
  "ensures (process_force_reap p w) (\<lambda>(p', w'). calm w w' \<and> p_pid p' = p_pid p)"
  unfolding process_force_reap_def
  by (intro vcg ensures_mono2 [OF force_reap_loop_calm]) auto

interpretation forced_reaping: job_sweep
  "\<lambda>_. process_force_reap" "\<lambda>_. force_reap_processes" force_reap_jobs
  by unfold_locales (auto intro: process_force_reap_calm)


text \<open>The calls before the last round: neither a wait that blocks nor a \<^verbatim>\<open>SIGKILL\<close>.\<close>

definition is_polite :: "syscall \<Rightarrow> bool" where
  "is_polite c = (case c of Sys_waitpid pid flags \<Rightarrow> flags \<noteq> [] | Sys_kill pid sig \<Rightarrow> sig \<noteq> SIGKILL | _ \<Rightarrow> True)"

lemma is_polite_simps [simp]:
  "is_polite (Sys_waitpid pid flags) \<longleftrightarrow> flags \<noteq> []" "is_polite (Sys_kill pid sig) \<longleftrightarrow> sig \<noteq> SIGKILL"
  "is_polite Sys_nanosleep"
  by (simp_all add: is_polite_def)

lemma try_reap_loop_calls: "ensures (process_try_reap_loop p w) (\<lambda>(r, p', w'). calls_only is_polite w w')"
proof (induction w rule: script_induct)
  case (less w)
  show ?case
    by (subst process_try_reap_loop.simps, intro vcg ensures_mono3 [OF less])
      (auto simp: called_def intro: calls_only_called calls_only_trans [OF calls_only_called])
qed

interpretation shutdown_reaping_calls: job_sweep_calls
  "\<lambda>_ p w. map_option snd (process_try_reap p w)"
  "\<lambda>_ ps w. map_option snd (try_reap_processes ps w)"
  "\<lambda>js w. map_option snd (try_reap_jobs js w)" is_polite
proof unfold_locales
  show "ensures (map_option snd (process_try_reap p w)) (\<lambda>(p', w'). calls_only is_polite w w')" for p w
    using try_reap_loop_calls [of p w] by (auto simp: process_try_reap_def ensures_def)
qed

lemma force_reap_loop_calls:
  "ensures (process_force_reap_loop p w) (\<lambda>(p', w'). calls_only is_blocking_wait w w')"
proof (induction w rule: script_induct)
  case (less w)
  show ?case
    by (subst process_force_reap_loop.simps, intro vcg ensures_mono2 [OF less])
      (auto simp: called_def intro: calls_only_called calls_only_trans [OF calls_only_called])
qed

interpretation forced_reaping_calls: job_sweep_calls
  "\<lambda>_. process_force_reap" "\<lambda>_. force_reap_processes" force_reap_jobs is_blocking_wait
  by unfold_locales
    (auto simp: process_force_reap_def ensures_def intro: ensures_D2 [OF _ force_reap_loop_calls])

lemma try_reap_jobs_calm: "ensures (try_reap_jobs js w) (\<lambda>(r, js', w'). calm w w' \<and> same_jobs js js')"
  using shutdown_reaping.sweep_calm [of js w] by (auto simp: ensures_def)

lemma try_reap_jobs_calls: "ensures (try_reap_jobs js w) (\<lambda>(r, js', w'). calls_only is_polite w w')"
  using shutdown_reaping_calls.sweep_calls [of js w] by (auto simp: ensures_def)

lemmas sweeps_vcg [vcg] =
  ensures_mono2 [OF reaping.sweep_calm]
  ensures_mono3 [OF try_reap_jobs_calm]

section \<open>Heap and messages\<close>

lemma free_blocks_free_blocks [simp]: "free_blocks m (free_blocks n w) = free_blocks (n + m) w"
  by (simp add: free_blocks_def)

lemma free_blocks_0 [simp]: "free_blocks 0 w = w"
  by (simp add: free_blocks_def)

lemma process_destroy_blocks [simp]: "process_destroy ps w = free_blocks (int (length ps)) w"
  by (induction ps arbitrary: w) simp_all

lemma free_job_blocks [simp]: "free_job j w = free_blocks (job_blocks j) w"
  by (simp add: free_job_def job_blocks_def)

lemma destroy_jobs_blocks [simp]: "destroy_jobs js w = free_blocks (jobs_blocks js) w"
  by (induction js arbitrary: w) simp_all

lemma cleanup_jobs_filter:
  "cleanup_jobs js w =
     (filter (\<lambda>j. j_status j \<noteq> JOB_DONE) js,
      free_blocks (jobs_blocks (filter (\<lambda>j. j_status j = JOB_DONE) js)) w)"
  by (induction js arbitrary: w) simp_all

lemma jobs_blocks_filter:
  "jobs_blocks js = jobs_blocks (filter P js) + jobs_blocks (filter (\<lambda>j. \<not> P j) js)"
  by (induction js) simp_all

lemma remove_job_split:
  "\<forall>j\<in>set xs. j_pgid j \<noteq> g \<Longrightarrow> j_pgid j = g \<Longrightarrow>
     remove_job g (xs @ j # ys) w = (xs @ ys, free_blocks (job_blocks j) w)"
  by (induction xs) simp_all

lemma remove_job_none: "\<forall>j\<in>set js. j_pgid j \<noteq> g \<Longrightarrow> remove_job g js w = (js, w)"
  by (induction js) simp_all

lemma calm_free_blocks: "calm u (free_blocks n w) \<longleftrightarrow>
    length (w_script w) \<le> length (w_script u) \<and> w_live w = w_live u + n \<and>
    (\<forall>fd. fd_bal w fd = fd_bal u fd) \<and> same_statics u w"
  by (auto simp: effects free_blocks_def)

lemma malloc_effect:
  "malloc w = (b, w') \<Longrightarrow> w_script w' = w_script w \<and> w_trace w' = w_trace w \<and>
     w_live w' = w_live w + (if b then 1 else 0) \<and> same_statics w w'"
  by (auto simp: malloc_def same_statics_def split: list.splits if_splits)

text \<open>
  \<open>took n w w'\<close>: the operation made no call and holds \<open>n\<close> more blocks than before.
\<close>

definition took :: "int \<Rightarrow> world \<Rightarrow> world \<Rightarrow> bool" where
  "took n w w' \<longleftrightarrow> w_script w' = w_script w \<and> w_trace w' = w_trace w \<and> w_live w' = w_live w + n \<and> same_statics w w'"

lemma took_refl [simp]: "took 0 w w"
  by (simp add: took_def)

lemma took_free [simp]: "took (- n) w (free_blocks n w)"
  by (simp add: took_def)

lemma took_moves: "took n w w' \<Longrightarrow> moves n (\<lambda>_. 0) w w'"
  by (simp add: took_def moves_iff)

lemma job_add_cases:
  assumes "job_add m g c w = (r, m', w')"
  obtains (added) j where "r = Some 0" "0 < g" "m' = m\<lparr>jobs := j # jobs m, nextid := nextid m + 1\<rparr>"
      "j_id j = nextid m" "j_pgid j = g" "j_processes j = []" "j_status j = JOB_RUNNING" "job_ok j" "took 1 w w'"
    | (refused) "r = None" "m' = m" "took 0 w w'"
  using assms
  by (auto simp: job_add_def job_init_def job_ok_def Let_def took_def copy_bounded_length
      split: option.splits if_splits prod.splits dest!: malloc_effect)

lemma process_add_cases:
  assumes "process_add j pid w = (r, j', w')"
  obtains (added) "r = 0" "0 < pid" "j' = j\<lparr>j_processes := j_processes j @ [new_process pid]\<rparr>" "took 1 w w'"
    | (refused) "r = -1" "j' = j" "took 0 w w'"
  using assms
  by (auto simp: process_add_def took_def split: if_splits prod.splits dest!: malloc_effect)

section \<open>Single jobs\<close>

lemma new_process_sel [simp]:
  "p_pid (new_process pid) = pid" "p_status (new_process pid) = PROCESS_RUNNING"
  "p_wait_status_valid (new_process pid) = False"
  by (simp_all add: new_process_def)

lemma running_snoc [simp]: "p_status p = PROCESS_RUNNING \<Longrightarrow> processes_status (ps @ [p]) = JOB_RUNNING"
  by (simp add: processes_status_def)

lemma processes_status_running:
  "processes_status ps = JOB_RUNNING \<longleftrightarrow> (\<exists>p\<in>set ps. p_status p = PROCESS_RUNNING)"
  by (auto simp: processes_status_def Let_def list_ex_iff)

lemma processes_status_done:
  "processes_status ps = JOB_DONE \<longleftrightarrow> (\<forall>p\<in>set ps. p_status p = PROCESS_DONE)"
proof -
  have "p_status p = PROCESS_DONE \<longleftrightarrow> p_status p \<noteq> PROCESS_RUNNING \<and> p_status p \<noteq> PROCESS_STOPPED" for p
    by (cases "p_status p") simp_all
  then show ?thesis by (auto simp: processes_status_def Let_def list_ex_iff)
qed

lemma job_continue_eff:
  "ensures (job_continue j w) (\<lambda>(r, j', w'). calm w w' \<and> same_job j j' \<and> r \<in> {0, -1})"
  unfolding job_continue_def
  by (intro vcg) (auto simp: effects intro: update_same_job)

lemma job_wait_loop_eff:
  "ensures (job_wait_loop j w) (\<lambda>(r, j', w'). calm w w' \<and> same_job j j' \<and>
      (r = 0 \<and> j_status j' \<noteq> JOB_RUNNING \<or> r = -1))"
proof (induction w arbitrary: j rule: script_induct)
  case (less w)
  have step: "same_job j (job_update_status (j\<lparr>j_processes :=
      (j_processes j)[i := process_apply_wait_status (j_processes j ! i) st]\<rparr>))" for i st
    by (rule update_same_job)
      (cases "i < length (j_processes j)", simp_all add: map_update list_update_beyond,
        metis length_map list_update_id nth_map)
  show ?case
    by (subst job_wait_loop.simps, intro vcg ensures_option ensures_mono3 [OF less])
      (auto simp: effects intro: same_job_trans [OF step])
qed

lemma job_wait_foreground_eff:
  "ensures (job_wait_foreground j w) (\<lambda>(r, j', w'). calm w w' \<and> same_job j j' \<and>
      (r = 0 \<and> j_status j' \<noteq> JOB_RUNNING \<or> r = -1))"
  unfolding job_wait_foreground_def
  by (intro vcg ensures_mono3 [OF job_wait_loop_eff]) auto

lemmas single_job_vcg [vcg] = ensures_mono3 [OF job_continue_eff] ensures_mono3 [OF job_wait_foreground_eff]

section \<open>Shutdown\<close>

lemma continue_stopped_job_eff:
  "ensures (continue_stopped_job j w) (\<lambda>(j', w'). calm w w' \<and> same_job j j')"
  unfolding continue_stopped_job_def
  by (intro vcg) (auto simp: effects intro: update_same_job)

lemma continue_jobs_eff: "ensures (continue_jobs js w) (\<lambda>(js', w'). calm w w' \<and> same_jobs js js')"
proof (induction js arbitrary: w)
  case (Cons j js)
  show ?case unfolding continue_jobs.simps
    by (intro vcg ensures_mono2 [OF continue_stopped_job_eff] ensures_mono2 [OF Cons])
      (auto intro: calm_trans)
qed (simp add: ensures_def)

lemma terminate_jobs_eff: "ensures (terminate_jobs js w) (\<lambda>w'. calm w w')"
proof (induction js arbitrary: w)
  case (Cons j js)
  show ?case unfolding terminate_jobs.simps
    by (intro vcg ensures_mono [OF Cons]) (auto simp: effects)
qed (simp add: ensures_def)

text \<open>Up to the last round every call is polite.\<close>

lemma calls_only_from_log: "calls_only P (log_error s v) w = calls_only P v w"
  by (simp add: calls_only_def)

lemma continue_jobs_calls: "ensures (continue_jobs js w) (\<lambda>(js', w'). calls_only is_polite w w')"
proof (induction js arbitrary: w)
  case (Cons j js)
  show ?case unfolding continue_jobs.simps continue_stopped_job_def
    by (intro vcg ensures_mono2 [OF Cons])
      (auto simp: calls_only_from_log intro: calls_only_trans [OF calls_only_called] split: if_splits)
qed (simp add: ensures_def)

lemma terminate_jobs_calls: "ensures (terminate_jobs js w) (\<lambda>w'. calls_only is_polite w w')"
proof (induction js arbitrary: w)
  case (Cons j js)
  show ?case unfolding terminate_jobs.simps
    by (intro vcg ensures_mono [OF Cons])
      (auto simp: calls_only_from_log intro: calls_only_trans [OF calls_only_called] split: if_splits)
qed (simp add: ensures_def)

lemma shutdown_retry_calls: "ensures (shutdown_retry n m w) (\<lambda>(m', w'). calls_only is_polite w w')"
proof (induction n arbitrary: m w)
  case (Suc n)
  show ?case unfolding shutdown_retry.simps jobmanager_try_reap_all_def shutdown_sleep_def
    by (intro paths ensures_mono3 [OF try_reap_jobs_calls] sys_retry_calls [where P = is_polite] ensures_mono2 [OF Suc])
      (auto intro: calls_only_trans)
qed (simp add: ensures_def)

text \<open>The signals of the last round: one \<^verbatim>\<open>SIGKILL\<close> for every group, in order.\<close>

definition kill_calls :: "Job list \<Rightarrow> syscall list" where
  "kill_calls js = map (\<lambda>j. Sys_kill (- j_pgid j) SIGKILL) js"

lemma kill_jobs_eff:
  "list_all job_ok js \<Longrightarrow>
     ensures (kill_jobs js w) (\<lambda>w'. calm w w' \<and>
       (\<exists>k. w_trace w' = w_trace w @ k \<and> map fst k = kill_calls js))"
proof (induction js arbitrary: w)
  case (Cons j js)
  then have j: "0 < j_pgid j" by (simp add: job_ok_def)
  show ?case unfolding kill_jobs.simps
    by (intro vcg ensures_mono [OF Cons.IH]) (use Cons.prems j in \<open>auto simp: effects kill_calls_def\<close>)
qed (simp add: ensures_def kill_calls_def)

lemma shutdown_sleep_eff: "ensures (shutdown_sleep w) (\<lambda>w'. calm w w')"
  unfolding shutdown_sleep_def by (intro vcg) (auto simp: effects)

lemma shutdown_retry_eff:
  "ensures (shutdown_retry n m w) (\<lambda>(m', w'). calm w w' \<and> same_jobs (jobs m) (jobs m') \<and> nextid m' = nextid m)"
proof (induction n arbitrary: m w)
  case (Suc n)
  show ?case unfolding shutdown_retry.simps jobmanager_try_reap_all_def
    by (intro vcg ensures_mono [OF shutdown_sleep_eff] ensures_mono2 [OF Suc])
      (auto intro: calm_trans same_jobs_trans)
qed (simp add: ensures_def)

text \<open>
  The order of the calls of a shutdown: polite ones, then a \<^verbatim>\<open>SIGKILL\<close> for every
  group of \<open>js\<close>, and only then waits that block.
\<close>

definition kills_last :: "Job list \<Rightarrow> world \<Rightarrow> world \<Rightarrow> bool" where
  "kills_last js w w' \<longleftrightarrow>
     (\<exists>s k t. w_trace w' = w_trace w @ s @ k @ t \<and> (\<forall>x\<in>set s. is_polite (fst x)) \<and>
        map fst k = kill_calls js \<and> (\<forall>x\<in>set t. is_blocking_wait (fst x)))"

lemma kills_lastI:
  assumes "calls_only is_polite u v" and "w_trace w = w_trace v @ k" and "map fst k = kill_calls js"
    and "calls_only is_blocking_wait w x"
  shows "kills_last js u x"
proof -
  from assms obtain s t where "w_trace x = w_trace u @ s @ k @ t" "\<forall>x\<in>set s. is_polite (fst x)"
      "\<forall>x\<in>set t. is_blocking_wait (fst x)"
    by (auto simp: calls_only_def)
  with assms(3) show ?thesis unfolding kills_last_def by blast
qed

lemma job_shutdown_eff:
  assumes "table_ok m"
  shows "ensures (job_shutdown m w) (\<lambda>(m', w'). jobs m' = [] \<and> nextid m' = 1 \<and>
     length (w_script w') \<le> length (w_script w) \<and>
     w_live w' = w_live w - table_blocks m \<and> (\<forall>fd. fd_bal w' fd = fd_bal w fd) \<and> same_statics w w' \<and>
     (jobs m \<noteq> [] \<longrightarrow> kills_last (jobs m) w w'))"
proof -
  have ok: "list_all job_ok js" if "same_jobs (jobs m) js" for js
    using same_jobs_facts [OF that] assms by (simp add: table_ok_def)
  have kills: "kill_calls js' = kill_calls js" if "map j_pgid js' = map j_pgid js" for js js'
    using arg_cong [OF that, of "map (\<lambda>g. Sys_kill (- g) SIGKILL)"] by (simp add: kill_calls_def comp_def)
  have continue: "ensures (continue_jobs js v) (\<lambda>(js', w'). (calm v w' \<and> same_jobs js js') \<and> calls_only is_polite v w')" for js v
    using continue_jobs_eff [of js v] continue_jobs_calls [of js v] by (auto simp: ensures_def)
  have terminate: "ensures (terminate_jobs js v) (\<lambda>w'. calm v w' \<and> calls_only is_polite v w')" for js v
    using terminate_jobs_eff [of js v] terminate_jobs_calls [of js v] by (auto simp: ensures_def)
  have retry: "ensures (shutdown_retry n k v)
      (\<lambda>(m', w'). (calm v w' \<and> same_jobs (jobs k) (jobs m')) \<and> calls_only is_polite v w')" for n k v
    using shutdown_retry_eff [of n k v] shutdown_retry_calls [of n k v] by (auto simp: ensures_def)
  have reap: "ensures (force_reap_jobs js v)
      (\<lambda>(js', w'). calm v w' \<and> same_jobs js js' \<and> calls_only is_blocking_wait v w')" for js v
    using forced_reaping.sweep_calm [of js v] forced_reaping_calls.sweep_calls [of js v]
    by (auto simp: ensures_def)
  show ?thesis
    unfolding job_shutdown_def
  proof (intro vcg ensures_mono2 [OF continue] ensures_mono [OF terminate]
      ensures_mono2 [OF retry] ensures_mono [OF kill_jobs_eff] ensures_mono2 [OF reap], goal_cases)
    case 1
    then show ?case by (simp add: table_blocks_def)
  next
    case (2 js w1 w2 m3 w3)
    then show ?case using ok by (auto intro: same_jobs_trans)
  next
    case (3 js w1 w2 m3 w3 w4 js5 w5)
    then have "same_jobs (jobs m) js5" by (auto intro: same_jobs_trans)
    note facts = same_jobs_facts [OF this]
    have "same_jobs (jobs m) (jobs m3)" using 3 by (auto intro: same_jobs_trans)
    then have same: "kill_calls (jobs m3) = kill_calls (jobs m)" using kills same_jobs_facts by blast
    have "calls_only is_polite w w3" using 3 by (blast intro: calls_only_trans)
    moreover from 3 same obtain k where "w_trace w4 = w_trace w3 @ k" "map fst k = kill_calls (jobs m)" by auto
    ultimately have "kills_last (jobs m) w w5" using 3 kills_lastI by blast
    moreover have "calm w w5" using 3 by (blast intro: calm_trans)
    ultimately show ?case using facts
      by (simp add: job_destroy_def table_blocks_def calm_def quiet_def kills_last_def)
  qed
qed

end
