(* ===== verification/Job_Properties.thy ===== *)
theory Job_Properties
  imports Job_Table
begin

text \<open>
  The interface \<open>job_store\<close> through which the executor and the built-in commands use the job table,
  the reachable tables, and the properties of \<^verbatim>\<open>job.c\<close>.
\<close>

section \<open>The interface of the table\<close>

text \<open>
  \<open>contents\<close> is the abstract view of a table: its jobs, newest first. The laws say what adding,
  finding and removing do to it and to the heap.
\<close>

locale job_store =
  fixes contents :: "'m \<Rightarrow> Job list"
    and add :: "'m \<Rightarrow> int \<Rightarrow> string option \<Rightarrow> world \<Rightarrow> nat option \<times> 'm \<times> world"
    and lookup :: "'m \<Rightarrow> int \<Rightarrow> nat option"
    and delete :: "'m \<Rightarrow> int \<Rightarrow> world \<Rightarrow> 'm \<times> world"
    and put :: "nat \<Rightarrow> Job \<Rightarrow> 'm \<Rightarrow> 'm"
  assumes add_some: "add m g c w = (Some i, m', w') \<Longrightarrow>
      i = 0 \<and> 0 < g \<and> took 1 w w' \<and> (\<exists>j. contents m' = j # contents m \<and> j_pgid j = g \<and> j_processes j = [])"
    and add_none: "add m g c w = (None, m', w') \<Longrightarrow> contents m' = contents m \<and> took 0 w w'"
    and lookup_some: "lookup m g = Some i \<Longrightarrow>
      i < length (contents m) \<and> j_pgid (contents m ! i) = g \<and> (\<forall>k<i. j_pgid (contents m ! k) \<noteq> g)"
    and lookup_none: "0 < g \<Longrightarrow> lookup m g = None \<Longrightarrow> \<forall>j\<in>set (contents m). j_pgid j \<noteq> g"
    and delete_first: "0 < g \<Longrightarrow> contents m = xs @ j # ys \<Longrightarrow> j_pgid j = g \<Longrightarrow> \<forall>x\<in>set xs. j_pgid x \<noteq> g \<Longrightarrow>
      contents (fst (delete m g w)) = xs @ ys \<and> snd (delete m g w) = free_blocks (job_blocks j) w"
    and delete_absent: "\<forall>j\<in>set (contents m). j_pgid j \<noteq> g \<Longrightarrow>
      contents (fst (delete m g w)) = contents m \<and> snd (delete m g w) = w"
    and put_contents: "contents (put i j m) = (contents m)[i := j]"
begin

text \<open>Rollback: adding a job, giving it processes and removing it again leaves the table as it was.\<close>

lemma add_put_delete:
  assumes "add m g c w = (Some i, m', w')" and "j_pgid j = g"
  shows "contents (fst (delete (put i j m') g v)) = contents m \<and>
     snd (delete (put i j m') g v) = free_blocks (job_blocks j) v"
proof -
  from add_some [OF assms(1)] obtain j0 where "i = 0" "0 < g" "contents m' = j0 # contents m" by blast
  then have "contents (put i j m') = [] @ j # contents m" by (simp add: put_contents)
  from delete_first [OF \<open>0 < g\<close> this assms(2)] show ?thesis by simp
qed

lemma lookup_delete:
  assumes "lookup m g = Some i" and "0 < g"
  shows "contents (fst (delete m g w)) = take i (contents m) @ drop (Suc i) (contents m) \<and>
     snd (delete m g w) = free_blocks (job_blocks (contents m ! i)) w"
proof -
  from lookup_some [OF assms(1)] have i: "i < length (contents m)" "j_pgid (contents m ! i) = g"
    "\<forall>x\<in>set (take i (contents m)). j_pgid x \<noteq> g"
    by (auto simp: in_set_conv_nth)
  from delete_first [OF assms(2) id_take_nth_drop [OF i(1)] i(2,3)] show ?thesis .
qed

text \<open>What removing does to the heap balance of a table, whichever job it removes.\<close>

lemma delete_balance:
  assumes "0 < g"
  shows "w_live (snd (delete m g w)) - jobs_blocks (contents (fst (delete m g w))) = w_live w - jobs_blocks (contents m)"
proof (cases "lookup m g")
  case None
  with delete_absent [OF lookup_none [OF assms None]] show ?thesis by simp
next
  case (Some i)
  have app: "jobs_blocks (xs @ ys) = jobs_blocks xs + jobs_blocks ys" for xs ys
    by (simp add: jobs_blocks_def)
  from lookup_some [OF Some] have "jobs_blocks (contents m) =
      jobs_blocks (take i (contents m)) + job_blocks (contents m ! i) + jobs_blocks (drop (Suc i) (contents m))"
    by (subst id_take_nth_drop [of i "contents m"]) (simp_all add: app)
  with lookup_delete [OF Some assms, of w] show ?thesis by (simp add: app)
qed

end

lemma put_job_jobs [simp]: "jobs (put_job i j m) = (jobs m)[i := j]"
  by (simp add: put_job_def)

lemma put_job_nextid [simp]: "nextid (put_job i j m) = nextid m"
  by (simp add: put_job_def)

interpretation table: job_store jobs job_add job_find job_remove put_job
proof unfold_locales
  fix m g c w i m' w'
  assume "job_add m g c w = (Some i, m', w')"
  then show "i = 0 \<and> 0 < g \<and> took 1 w w' \<and> (\<exists>j. jobs m' = j # jobs m \<and> j_pgid j = g \<and> j_processes j = [])"
    by (rule job_add_cases) auto
next
  fix m g c w m' w'
  assume "job_add m g c w = (None, m', w')"
  then show "jobs m' = jobs m \<and> took 0 w w'" by (rule job_add_cases) auto
next
  fix m g i
  assume "job_find m g = Some i"
  then show "i < length (jobs m) \<and> j_pgid (jobs m ! i) = g \<and> (\<forall>k<i. j_pgid (jobs m ! k) \<noteq> g)"
    by (auto simp: job_find_def split: if_splits dest!: find_index_Some)
next
  fix m g
  assume "0 < g" "job_find m g = None"
  then show "\<forall>j\<in>set (jobs m). j_pgid j \<noteq> g" by (auto simp: job_find_def find_index_None)
qed (auto simp: job_remove_def remove_job_split remove_job_none)

section \<open>Reachable tables\<close>

text \<open>
  Everything the program does to the table, in any order: the operations of \<^verbatim>\<open>job.c\<close>, storing
  terminal modes in a job, and, through \<open>calm\<close>, whatever the rest of the program does to the world.
  Processes are added to jobs that are running, as the executor does while it starts them.
\<close>

inductive table_step :: "JobManager \<times> world \<Rightarrow> JobManager \<times> world \<Rightarrow> bool" where
  add: "job_add m g c w = (r, m', w') \<Longrightarrow> table_step (m, w) (m', w')"
| process: "i < length (jobs m) \<Longrightarrow> j_status (jobs m ! i) = JOB_RUNNING \<Longrightarrow>
     process_add (jobs m ! i) pid w = (r, j, w') \<Longrightarrow> table_step (m, w) (put_job i j m, w')"
| continue: "i < length (jobs m) \<Longrightarrow> job_continue (jobs m ! i) w = Some (r, j, w') \<Longrightarrow>
     table_step (m, w) (put_job i j m, w')"
| wait: "i < length (jobs m) \<Longrightarrow> job_wait_foreground (jobs m ! i) w = Some (r, j, w') \<Longrightarrow>
     table_step (m, w) (put_job i j m, w')"
| modes: "i < length (jobs m) \<Longrightarrow>
     table_step (m, w) (put_job i ((jobs m ! i)\<lparr>j_modes := t, j_modes_valid := b\<rparr>) m, w)"
| reap: "job_reap m w = Some (m', w') \<Longrightarrow> table_step (m, w) (m', w')"
| cleanup: "job_cleanup_done m w = (m', w') \<Longrightarrow> table_step (m, w) (m', w')"
| remove: "job_remove m g w = (m', w') \<Longrightarrow> table_step (m, w) (m', w')"
| shutdown: "job_shutdown m w = Some (m', w') \<Longrightarrow> table_step (m, w) (m', w')"
| elsewhere: "calm w w' \<Longrightarrow> table_step (m, w) (m, w')"

text \<open>The invariant of the steps: the table is well-formed and owns exactly the blocks it holds.\<close>

definition table_inv :: "int \<Rightarrow> JobManager \<Rightarrow> world \<Rightarrow> bool" where
  "table_inv other m w \<longleftrightarrow> table_ok m \<and> w_live w = other + table_blocks m"

lemma table_inv_out [simp]:
  "table_inv n m (printf s w) = table_inv n m w" "table_inv n m (eprintf s w) = table_inv n m w"
  "table_inv n m (log_error s w) = table_inv n m w" "table_inv n m (log_info s w) = table_inv n m w"
  by (simp_all add: table_inv_def)

lemma same_jobs_update: "same_job (js ! i) j \<Longrightarrow> same_jobs js (js[i := j])"
  by (cases "i < length js")
    (auto simp: same_jobs_def list_all2_conv_all_nth nth_list_update list_update_beyond)

lemma same_jobs_inv:
  "table_inv n m w \<Longrightarrow> same_jobs (jobs m) js \<Longrightarrow> w_live w' = w_live w \<Longrightarrow> table_inv n (m\<lparr>jobs := js\<rparr>) w'"
  by (auto simp: table_inv_def table_blocks_def same_jobs_table_ok dest: same_jobs_facts)

lemma put_inv:
  "table_inv n m w \<Longrightarrow> same_job (jobs m ! i) j \<Longrightarrow> w_live w' = w_live w \<Longrightarrow> table_inv n (put_job i j m) w'"
  unfolding put_job_def by (rule same_jobs_inv [OF _ same_jobs_update])

lemma add_inv: "table_inv n m w \<Longrightarrow> job_add m g c w = (r, m', w') \<Longrightarrow> table_inv n m' w'"
  by (erule job_add_cases)
    (auto simp: table_inv_def table_ok_def table_blocks_def job_blocks_def took_def)

lemma process_inv:
  assumes "table_inv n m w" and "i < length (jobs m)" and "j_status (jobs m ! i) = JOB_RUNNING"
    and "process_add (jobs m ! i) pid w = (r, j, w')"
  shows "table_inv n (put_job i j m) w'"
  using assms(4)
proof (cases rule: process_add_cases)
  case added
  let ?js = "jobs m"
  have mem: "?js ! i \<in> set ?js" using assms(2) by simp
  have "job_ok (?js ! i)" using assms(1) mem by (auto simp: table_inv_def table_ok_def list_all_iff)
  with added assms(3) have j: "job_ok j" "j_id j = j_id (?js ! i)" "job_blocks j = job_blocks (?js ! i) + 1"
    by (auto simp: job_ok_def job_blocks_def)
  have ids: "map j_id (?js[i := j]) = map j_id ?js"
    using j(2) assms(2) by (simp add: map_update list_update_same_conv)
  have "table_ok (put_job i j m)"
    using assms(1) j(1,2) ids mem set_update_subset_insert [of ?js i j]
    by (fastforce simp: table_inv_def table_ok_def put_job_def list_all_update)
  moreover have "w_live w' = w_live w + 1" using added by (simp add: took_def)
  moreover have "table_blocks (put_job i j m) = table_blocks m + 1"
    using j(3) assms(2) by (simp add: table_blocks_def put_job_def jobs_blocks_def sum_list_update_int)
  ultimately show ?thesis using assms(1) by (simp add: table_inv_def)
next
  case refused
  with assms(1) show ?thesis by (auto simp: took_def intro: put_inv)
qed

lemma fewer_inv:
  "table_inv n m w \<Longrightarrow> set js \<subseteq> set (jobs m) \<Longrightarrow> sorted_wrt (>) (map j_id js) \<Longrightarrow>
     w_live w' - jobs_blocks js = w_live w - table_blocks m \<Longrightarrow> table_inv n (m\<lparr>jobs := js\<rparr>) w'"
  by (auto simp: table_inv_def table_ok_def table_blocks_def list_all_iff)

lemma cleanup_inv:
  assumes "table_inv n m w" and "job_cleanup_done m w = (m', w')"
  shows "table_inv n m' w'"
proof -
  let ?js = "filter (\<lambda>j. j_status j \<noteq> JOB_DONE) (jobs m)"
  have "sorted_wrt (>) (map j_id ?js)"
    using assms(1) by (auto simp: table_inv_def table_ok_def sorted_wrt_map intro: sorted_wrt_filter)
  from assms(2) fewer_inv [OF assms(1) _ this, of w'] jobs_blocks_filter [of "jobs m" "\<lambda>j. j_status j = JOB_DONE"]
  show ?thesis by (auto simp: job_cleanup_done_def cleanup_jobs_filter table_blocks_def)
qed

lemma remove_inv:
  assumes "table_inv n m w" and "job_remove m g w = (m', w')"
  shows "table_inv n m' w'"
proof (cases "job_find m g")
  case None
  with assms show ?thesis
    by (cases "0 < g") (auto simp: job_remove_def remove_job_none dest!: table.lookup_none)
next
  case (Some i)
  then have g: "0 < g" by (auto simp: job_find_def split: if_splits)
  have m': "m' = m\<lparr>jobs := jobs m'\<rparr>"
    using assms(2) g by (auto simp: job_remove_def split: prod.splits)
  have js: "jobs m' = take i (jobs m) @ drop (Suc i) (jobs m)"
    using table.lookup_delete [OF Some g, of w] assms(2) by simp
  have live: "w_live w' - jobs_blocks (jobs m') = w_live w - table_blocks m"
    using table.delete_balance [OF g, where m = m and w = w] assms(2) by (simp add: table_blocks_def)
  have i: "i < length (jobs m)" using table.lookup_some [OF Some] by simp
  have "sorted_wrt (>) (map j_id (take i (jobs m) @ jobs m ! i # drop (Suc i) (jobs m)))"
    using assms(1) i by (simp add: table_inv_def table_ok_def flip: id_take_nth_drop)
  then have "sorted_wrt (>) (map j_id (jobs m'))" by (simp add: js sorted_wrt_append del: take_map drop_map)
  moreover have "set (jobs m') \<subseteq> set (jobs m)"
    by (auto simp: js dest: in_set_takeD in_set_dropD)
  ultimately show ?thesis using fewer_inv [OF assms(1) _ _ live] m' by metis
qed

lemma shutdown_inv:
  assumes "table_inv n m w" and "job_shutdown m w = Some (m', w')"
  shows "table_inv n m' w'"
  using ensures_D2 [OF assms(2) job_shutdown_eff] assms(1)
  by (auto simp: table_inv_def table_ok_def table_blocks_def)

lemma table_step_inv: "table_step x y \<Longrightarrow> table_inv n (fst x) (snd x) \<Longrightarrow> table_inv n (fst y) (snd y)"
proof (induction rule: table_step.induct)
  case (continue i m w r j w')
  then show ?case using ensures_D3 [OF continue(2) job_continue_eff] by (auto simp: effects intro: put_inv)
next
  case (wait i m w r j w')
  then show ?case using ensures_D3 [OF wait(2) job_wait_foreground_eff] by (auto simp: effects intro: put_inv)
next
  case (modes i m t b w)
  then show ?case by (auto simp: same_job_def job_ok_def intro!: put_inv)
next
  case (reap m w m' w')
  then obtain js where js: "reap_jobs (jobs m) w = Some (js, w')" "m' = m\<lparr>jobs := js\<rparr>"
    by (auto simp: job_reap_def bind_Some)
  from ensures_D2 [OF js(1) reaping.sweep_calm] reap(2) show ?case
    by (auto simp: effects js(2) intro: same_jobs_inv)
next
  case (elsewhere w w' m)
  then show ?case by (simp add: table_inv_def effects)
qed (auto intro: add_inv process_inv cleanup_inv remove_inv shutdown_inv)

lemma table_reachable_inv:
  "rtranclp table_step x y \<Longrightarrow> table_inv n (fst x) (snd x) \<Longrightarrow> table_inv n (fst y) (snd y)"
  by (induction rule: rtranclp_induct) (auto dest: table_step_inv)

section \<open>Properties\<close>

text \<open>C5: every job table the program can reach from jobmanager_init, by adding jobs and
  processes, continuing, waiting, reaping, cleaning up, removing and shutting down in any order and
  with any answers of the kernel, holds jobs with pairwise different ids below nextid, positive
  group and process ids, terminated command texts and a status that follows from the processes;
  and the heap holds exactly one block per job and one per process of it.\<close>

theorem job_table_invariant:
  assumes "rtranclp table_step (jobmanager_init, w0) (m, w)"
  shows "table_ok m \<and> distinct (map j_id (jobs m)) \<and> w_live w = w_live w0 + table_blocks m"
proof -
  have "table_inv (w_live w0) jobmanager_init w0"
    by (simp add: table_inv_def table_ok_def table_blocks_def jobmanager_init_def)
  with table_reachable_inv [OF assms, of "w_live w0"] show ?thesis
    by (simp add: table_inv_def table_ok_distinct)
qed

theorem job_table_invariant_witness:
  "\<exists>m w. job_add jobmanager_init 7 (Some ''ls'') (init_world []) = (Some 0, m, w) \<and>
     table_ok m \<and> w_live w = 1"
proof -
  obtain m w where add: "job_add jobmanager_init 7 (Some ''ls'') (init_world []) = (Some 0, m, w)"
    by (simp add: job_add_def malloc_def init_world_def Let_def)
  then have blocks: "table_blocks m = 1"
    by (rule job_add_cases) (auto simp: table_blocks_def job_blocks_def jobmanager_init_def)
  have "rtranclp table_step (jobmanager_init, init_world []) (m, w)"
    using table_step.add [OF add] by (rule r_into_rtranclp)
  from job_table_invariant [OF this] add blocks show ?thesis by (auto simp: init_world_def)
qed


definition demo_job :: Job where
  "demo_job = job_init\<lparr>j_id := 1, j_pgid := 7, j_command := ''a | b'',
                       j_processes := [new_process 7, new_process 8]\<rparr>"

definition demo_table :: JobManager where
  "demo_table = \<lparr>jobs = [demo_job], nextid = 2\<rparr>"

lemma demo_ok: "job_ok demo_job" "table_ok demo_table"
  by (simp_all add: demo_table_def demo_job_def job_ok_def table_ok_def job_init_def
      processes_status_def new_process_def)


text \<open>The effect of one answer of \<^verbatim>\<open>waitpid\<close> on one process, and of a list of answers on the processes.\<close>

definition reaped :: "Process \<Rightarrow> answer \<Rightarrow> Process" where
  "reaped p a =
     (if a_ret a = p_pid p \<and> 0 \<le> a_ret a then process_apply_wait_status p (a_status a)
      else if a_ret a < 0 \<and> a_err a = ECHILD then p\<lparr>p_status := PROCESS_DONE\<rparr> else p)"

fun reap_spec :: "Process list \<Rightarrow> answer list \<Rightarrow> Process list" where
  "reap_spec [] as = []"
| "reap_spec (p # ps) as =
     (if p_status p = PROCESS_DONE then p # reap_spec ps as
      else reaped p (hd as) # reap_spec ps (tl as))"

definition live_processes :: "Process list \<Rightarrow> Process list" where
  "live_processes ps = filter (\<lambda>p. p_status p \<noteq> PROCESS_DONE) ps"

definition poll_call :: "Process \<Rightarrow> syscall" where
  "poll_call p = Sys_waitpid (p_pid p) [WNOHANG, WUNTRACED, WCONTINUED]"

lemma live_processes_simps [simp]:
  "live_processes [] = []"
  "live_processes (p # ps) = (if p_status p = PROCESS_DONE then live_processes ps else p # live_processes ps)"
  "live_processes (ps @ qs) = live_processes ps @ live_processes qs"
  by (simp_all add: live_processes_def)

lemma reap_spec_append:
  "length as = length (live_processes ps) \<Longrightarrow> reap_spec (ps @ qs) (as @ bs) = reap_spec ps as @ reap_spec qs bs"
proof (induction ps arbitrary: as)
  case (Cons p ps)
  then show ?case using Cons.IH [of as] by (cases as) auto
qed simp

text \<open>\<open>polled ps ps' w w'\<close>: the processes \<open>ps\<close> were polled once each and became \<open>ps'\<close>.\<close>

definition polled :: "Process list \<Rightarrow> Process list \<Rightarrow> world \<Rightarrow> world \<Rightarrow> bool" where
  "polled ps ps' w w' \<longleftrightarrow>
     (\<exists>as. w_script w = as @ w_script w' \<and> length as = length (live_processes ps) \<and>
        ps' = reap_spec ps as \<and> w_trace w' = w_trace w @ zip (map poll_call (live_processes ps)) as)"

lemma polled_append:
  assumes "polled ps ps' u v" and "polled qs qs' v w"
  shows "polled (ps @ qs) (ps' @ qs') u w"
proof -
  from assms obtain as bs where "w_script u = as @ w_script v" "length as = length (live_processes ps)"
      "ps' = reap_spec ps as" "w_trace v = w_trace u @ zip (map poll_call (live_processes ps)) as"
      "w_script v = bs @ w_script w" "length bs = length (live_processes qs)"
      "qs' = reap_spec qs bs" "w_trace w = w_trace v @ zip (map poll_call (live_processes qs)) bs"
    by (auto simp: polled_def)
  then show ?thesis unfolding polled_def
    by (intro exI [of _ "as @ bs"]) (simp add: reap_spec_append)
qed

lemma report_script [simp]: "w_script (report_status i pid st w) = w_script w" "w_trace (report_status i pid st w) = w_trace w"
  by (simp_all add: report_status_def Let_def)

lemma reap_process_polled:
  assumes "0 < p_pid p" and "reap_process i p w = Some (p', w')"
  shows "polled [p] [p'] w w'"
proof (cases "p_status p = PROCESS_DONE")
  case True
  with assms(2) show ?thesis by (simp add: reap_process_def polled_def)
next
  case False
  with assms(2) obtain a v where v: "sys (poll_call p) w = Some (a, v)"
    by (auto simp: reap_process_def bind_Some poll_call_def)
  with False assms have "p' = reaped p a" "w_script w' = w_script v" "w_trace w' = w_trace v"
    by (auto simp: reap_process_def poll_call_def reaped_def split: if_splits)
  with v False show ?thesis
    by (auto simp: polled_def sys_def split: list.splits intro!: exI [of _ "[a]"])
qed

lemma reap_processes_polled:
  "\<forall>p\<in>set ps. 0 < p_pid p \<Longrightarrow> reap_processes i ps w = Some (ps', w') \<Longrightarrow> polled ps ps' w w'"
proof (induction ps arbitrary: w ps' w')
  case Nil
  then show ?case by (simp add: polled_def)
next
  case (Cons p ps)
  then obtain p1 v ps1 where "reap_process i p w = Some (p1, v)" "reap_processes i ps v = Some (ps1, w')"
      "ps' = [p1] @ ps1"
    by (auto simp: bind_Some)
  with Cons polled_append [OF reap_process_polled Cons.IH, of p i w p1 v ps1 w'] show ?case by simp
qed

lemma update_status_processes [simp]: "j_processes (job_update_status j) = j_processes j"
  by (simp add: job_update_status_def)

lemma reap_jobs_polled:
  "list_all job_ok js \<Longrightarrow> reap_jobs js w = Some (js', w') \<Longrightarrow>
     polled (concat (map j_processes js)) (concat (map j_processes js')) w w'"
proof (induction js arbitrary: w js' w')
  case Nil
  then show ?case by (simp add: polled_def)
next
  case (Cons j js)
  then obtain ps v js1 where *: "reap_processes (j_id j) (j_processes j) w = Some (ps, v)"
      "reap_jobs js v = Some (js1, w')" "concat (map j_processes js') = ps @ concat (map j_processes js1)"
    by (auto simp: bind_Some)
  have "polled (j_processes j) ps w v"
    by (rule reap_processes_polled [OF _ *(1)]) (use Cons.prems in \<open>simp add: job_ok_def\<close>)
  with * polled_append [OF this Cons.IH] Cons.prems show ?case by simp
qed

text \<open>C19: one pass of job_reap polls every process not yet done exactly once, in table order and
  without blocking, and the processes it leaves are those the answers dictate: exited or killed ones
  done, stopped ones stopped, continued ones running, unknown children done, and the rest, an
  interrupted or failed poll included, unchanged; the status of each job then follows from its
  processes.\<close>

theorem job_reap_polls:
  assumes "table_ok m" and "job_reap m w = Some (m', w')"
  shows "polled (concat (map j_processes (jobs m))) (concat (map j_processes (jobs m'))) w w' \<and>
     (\<forall>j\<in>set (jobs m'). j_processes j \<noteq> [] \<longrightarrow> j_status j = processes_status (j_processes j)) \<and>
     same_jobs (jobs m) (jobs m')"
proof -
  from assms(2) obtain js where js: "reap_jobs (jobs m) w = Some (js, w')" "m' = m\<lparr>jobs := js\<rparr>"
    by (auto simp: job_reap_def bind_Some)
  moreover have "list_all job_ok (jobs m)" using assms(1) by (simp add: table_ok_def)
  ultimately show ?thesis
    using reap_jobs_polled ensures_D2 [OF js(1) reaping.sweep_calm] ensures_D2 [OF js(1) reaping.sweep_status]
    by auto
qed

theorem job_reap_polls_witness:
  "\<exists>m' w'. job_reap demo_table (init_world [(ok 7)\<lparr>a_status := 256\<rparr>, ok 0]) = Some (m', w') \<and>
     polled (j_processes demo_job) (concat (map j_processes (jobs m')))
       (init_world [(ok 7)\<lparr>a_status := 256\<rparr>, ok 0]) w'"
proof -
  let ?w = "init_world [(ok 7)\<lparr>a_status := 256\<rparr>, ok 0]"
  have "job_reap demo_table ?w \<noteq> None" by code_simp
  then obtain m' w' where run: "job_reap demo_table ?w = Some (m', w')" by auto
  from job_reap_polls [OF demo_ok(2) run] run show ?thesis by (simp add: demo_table_def)
qed

section \<open>Waiting for the foreground job\<close>

text \<open>
  \<open>hear as p\<close>: the process \<open>p\<close> after the answers \<open>as\<close> of the kernel, of which those about its
  own pid are recorded in it, one after the other.
\<close>

fun hear :: "answer list \<Rightarrow> Process \<Rightarrow> Process" where
  "hear [] p = p"
| "hear (a # as) p = hear as (if a_ret a = p_pid p then process_apply_wait_status p (a_status a) else p)"

text \<open>The answers to the waits for the group \<open>g\<close> among the calls made on the way from \<open>w\<close> to \<open>w'\<close>.\<close>

definition waited :: "int \<Rightarrow> world \<Rightarrow> world \<Rightarrow> answer list" where
  "waited g w w' = map snd (List.filter (\<lambda>x. fst x = Sys_waitpid (- g) [WUNTRACED]) (drop (length (w_trace w)) (w_trace w')))"

lemma waited_refl [simp]: "waited g w w = []"
  by (simp add: waited_def)

lemma waited_step:
  assumes "called (Sys_waitpid (- g) [WUNTRACED]) a u v" and "calls_only P v w"
  shows "waited g u w = a # waited g v w"
  using assms by (auto simp: waited_def called_def calls_only_def)

lemma waited_log [simp]: "waited g w (log_error s v) = waited g w v"
  by (simp add: waited_def)

text \<open>The answers about one process, and the exit status that the last of them stands for.\<close>

definition answers_about :: "int \<Rightarrow> answer list \<Rightarrow> answer list" where
  "answers_about pid as = List.filter (\<lambda>a. a_ret a = pid) as"

definition shown_status :: "int \<Rightarrow> int" where
  "shown_status st = (if WIFEXITED st then WEXITSTATUS st else if WIFSIGNALED st then 128 + WTERMSIG st else -1)"

lemma hear_about:
  "p_pid (hear as p) = p_pid p \<and>
   (if answers_about (p_pid p) as = [] then hear as p = p
    else p_wait_status_valid (hear as p) \<and> p_wait_status (hear as p) = a_status (last (answers_about (p_pid p) as)))"
proof (induction as arbitrary: p)
  case (Cons a as)
  then show ?case
    by (auto simp: answers_about_def split: if_splits) (auto simp: process_apply_wait_status_def Let_def split: if_splits)
qed (simp add: answers_about_def)

lemma find_process: "process_find j pid = Some i \<Longrightarrow> i < length (j_processes j) \<and> p_pid (j_processes j ! i) = pid"
  by (auto simp: process_find_def split: if_splits dest: find_index_Some)

lemma find_process_update:
  assumes "process_find j (a_ret a) = Some i" and "distinct (map p_pid (j_processes j))"
  shows "(j_processes j)[i := process_apply_wait_status (j_processes j ! i) (a_status a)] = map (hear [a]) (j_processes j)"
proof (rule nth_equalityI)
  note i = find_process [OF assms(1)]
  fix k assume "k < length ((j_processes j)[i := process_apply_wait_status (j_processes j ! i) (a_status a)])"
  with i nth_eq_iff_index_eq [OF assms(2), of k i]
  show "(j_processes j)[i := process_apply_wait_status (j_processes j ! i) (a_status a)] ! k = map (hear [a]) (j_processes j) ! k"
    by (auto simp: nth_list_update)
qed simp

lemma unheard:
  assumes "\<forall>p\<in>set (j_processes j). 0 < p_pid p" and "a_ret a < 0 \<or> process_find j (a_ret a) = None"
  shows "map (hear [a]) (j_processes j) = j_processes j"
  using assms find_index_None [of "\<lambda>p. p_pid p = a_ret a" "j_processes j"]
  by (force simp: process_find_def intro: map_idI split: if_splits)

lemma hear_append: "hear (as @ bs) p = hear bs (hear as p)"
  by (induction as arbitrary: p) auto

lemma hear_none [simp]: "hear [] = (\<lambda>p. p)"
  by (simp add: fun_eq_iff)

lemma hear_pid: "p_pid (hear as p) = p_pid p"
  using hear_about by blast

lemma job_wait_loop_hears:
  "job_wait_loop j w = Some (r, j', w') \<Longrightarrow> \<forall>p\<in>set (j_processes j). 0 < p_pid p \<Longrightarrow>
     distinct (map p_pid (j_processes j)) \<Longrightarrow>
     calls_only (\<lambda>c. c = Sys_waitpid (- j_pgid j) [WUNTRACED]) w w' \<and>
     j_processes j' = map (hear (waited (j_pgid j) w w')) (j_processes j)"
proof (induction w arbitrary: j rule: script_induct)
  case (less w)
  show ?case
  proof (cases "j_status j = JOB_RUNNING")
    case False
    with less.prems show ?thesis by (simp add: job_wait_loop.simps [of j w])
  next
    case True
    let ?c = "Sys_waitpid (- j_pgid j) [WUNTRACED]"
    let ?P = "\<lambda>c. c = ?c"
    from True less.prems obtain a v where v: "sys ?c w = Some (a, v)"
      by (auto simp: job_wait_loop.simps [of j w] split: option.splits)
    note lt = sys_script_less [OF v] and cl = sys_called [OF v]
    have first: "calls_only ?P w v" by (rule calls_only_called [OF cl]) simp
    have goal: ?thesis if "calls_only ?P v w'" and "j_processes j' = map (hear (waited (j_pgid j) v w')) (map (hear [a]) (j_processes j))"
      using calls_only_trans [OF first that(1)] waited_step [OF cl that(1)] that(2)
      by (simp add: comp_def flip: hear_append)
    show ?thesis
    proof (cases "a_ret a < 0 \<or> process_find j (a_ret a) = None")
      case False
      then obtain i where i: "process_find j (a_ret a) = Some i" "\<not> a_ret a < 0" by auto
      note up = find_process_update [OF i(1) less.prems(3)]
      let ?j = "job_update_status (j\<lparr>j_processes := map (hear [a]) (j_processes j)\<rparr>)"
      have same: "j_pgid ?j = j_pgid j" "j_processes ?j = map (hear [a]) (j_processes j)"
        by (simp_all add: job_update_status_def)
      from less.prems(1) True v i up have "job_wait_loop ?j v = Some (r, j', w')"
        by (simp add: job_wait_loop.simps [of j w])
      from less.IH [OF lt this] same less.prems(2,3) show ?thesis
        by (intro goal) (auto simp: hear_pid comp_def simp del: hear.simps)
    next
      case none: True
      note quiet = unheard [OF less.prems(2) none]
      show ?thesis
      proof (cases "a_ret a < 0 \<and> a_err a = EINTR")
        case eintr: True
        with less.prems(1) True v have "job_wait_loop j v = Some (r, j', w')"
          by (simp add: job_wait_loop.simps [of j w])
        from less.IH [OF lt this less.prems(2,3)] quiet show ?thesis by (intro goal) auto
      next
        case other: False
        with less.prems(1) True v none have "j' = j" "\<exists>s. w' = log_error s v"
          by (auto simp: job_wait_loop.simps [of j w] split: if_splits)
        with quiet show ?thesis by (intro goal) auto
      qed
    qed
  qed
qed

lemma heard_exit_status:
  assumes "j_processes j \<noteq> []" and "j_processes j' = map (hear as) (j_processes j)"
  shows "job_exit_status j' = (case answers_about (p_pid (last (j_processes j))) as of
     [] \<Rightarrow> job_exit_status j | heard \<Rightarrow> shown_status (a_status (last heard)))"
  using assms hear_about [of as "last (j_processes j)"]
  by (auto simp: job_exit_status_def job_last_process_def last_map shown_status_def split: list.splits)

text \<open>C15: waiting for a well-formed foreground job, whose processes have different pids, makes
  no call but waits for its group, and it ends as those waits answer: each process has recorded the statuses answered for its own pid, in order, and
  the exit status the shell shows for the job is that of the last answer about the last process of
  the pipeline, its exit code or 128 plus the signal, and -1 when that answer is a stop. Without
  an answer about that process the status is what it was; and when the wait succeeds, no process of
  the job is running any more.\<close>

theorem job_wait_status:
  assumes "job_ok j" and "j_processes j \<noteq> []" and "distinct (map p_pid (j_processes j))"
    and "job_wait_foreground j w = Some (r, j', w')"
  shows "calls_only (\<lambda>c. c = Sys_waitpid (- j_pgid j) [WUNTRACED]) w w' \<and>
     j_processes j' = map (hear (waited (j_pgid j) w w')) (j_processes j) \<and>
     job_exit_status j' = (case answers_about (p_pid (last (j_processes j))) (waited (j_pgid j) w w') of
        [] \<Rightarrow> job_exit_status j | heard \<Rightarrow> shown_status (a_status (last heard))) \<and>
     (r = 0 \<longrightarrow> (\<forall>p\<in>set (j_processes j'). p_status p \<noteq> PROCESS_RUNNING))"
proof -
  have "job_wait_loop j w = Some (r, j', w')"
    using assms(1,4) by (simp add: job_wait_foreground_def job_ok_def)
  from job_wait_loop_hears [OF this] assms(1,3) have heard:
    "calls_only (\<lambda>c. c = Sys_waitpid (- j_pgid j) [WUNTRACED]) w w'"
    "j_processes j' = map (hear (waited (j_pgid j) w w')) (j_processes j)"
    by (auto simp: job_ok_def)
  have "same_job j j' \<and> (r = 0 \<longrightarrow> j_status j' \<noteq> JOB_RUNNING)"
    using ensures_D3 [OF assms(4) job_wait_foreground_eff] by auto
  with assms(1) heard(2) assms(2) have "r = 0 \<longrightarrow> (\<forall>p\<in>set (j_processes j'). p_status p \<noteq> PROCESS_RUNNING)"
    by (auto simp: same_job_def job_ok_def processes_status_running)
  with heard heard_exit_status [OF assms(2) heard(2)] show ?thesis by blast
qed

theorem job_wait_status_witness:
  "\<exists>j' w'. job_wait_foreground demo_job
      (init_world [(ok 8)\<lparr>a_status := 768\<rparr>, fail EINTR, (ok 7)\<lparr>a_status := 9\<rparr>]) = Some (0, j', w') \<and>
     job_exit_status j' = 3 \<and> (\<forall>p\<in>set (j_processes j'). p_status p \<noteq> PROCESS_RUNNING)"
proof -
  let ?w = "init_world [(ok 8)\<lparr>a_status := 768\<rparr>, fail EINTR, (ok 7)\<lparr>a_status := 9\<rparr>]"
  have "map_option (\<lambda>(r, j, w). (r, w_trace w)) (job_wait_foreground demo_job ?w) =
      Some (0, map (\<lambda>a. (Sys_waitpid (- 7) [WUNTRACED], a)) [(ok 8)\<lparr>a_status := 768\<rparr>, fail EINTR, (ok 7)\<lparr>a_status := 9\<rparr>])"
    by code_simp
  then obtain j' w' where run: "job_wait_foreground demo_job ?w = Some (0, j', w')"
      "waited 7 ?w w' = [(ok 8)\<lparr>a_status := 768\<rparr>, fail EINTR, (ok 7)\<lparr>a_status := 9\<rparr>]"
    by (auto simp: waited_def init_world_def)
  have "shown_status 768 = 3" by code_simp
  with job_wait_status [OF demo_ok(1) _ _ run(1)] run show ?thesis
    by (auto simp: demo_job_def new_process_def answers_about_def ok_def fail_def)
qed

text \<open>
  A kernel that tells the end of the processes of a job: every answer is an interruption or the
  exit or killing of one of them, and each that is running has its turn.
\<close>

definition ends :: "answer \<Rightarrow> bool" where
  "ends a \<longleftrightarrow> 0 < a_ret a \<and> (WIFEXITED (a_status a) \<or> WIFSIGNALED (a_status a))"

definition tells_ends :: "Job \<Rightarrow> answer list \<Rightarrow> bool" where
  "tells_ends j as \<longleftrightarrow>
     list_all (\<lambda>a. a_ret a < 0 \<and> a_err a = EINTR \<or> ends a \<and> a_ret a \<in> p_pid ` set (j_processes j)) as \<and>
     (\<forall>p\<in>set (j_processes j). p_status p = PROCESS_RUNNING \<longrightarrow> (\<exists>a\<in>set as. a_ret a = p_pid p))"

lemma apply_ends: "ends a \<Longrightarrow> p_status (process_apply_wait_status p (a_status a)) = PROCESS_DONE"
  by (simp add: ends_def process_apply_wait_status_def Let_def)

lemma process_find_member: "pid \<in> p_pid ` set (j_processes j) \<Longrightarrow> 0 < pid \<Longrightarrow> \<exists>i. process_find j pid = Some i"
  using find_index_None [of "\<lambda>p. p_pid p = pid" "j_processes j"]
  by (cases "find_index (\<lambda>p. p_pid p = pid) (j_processes j)") (auto simp: process_find_def)

lemma tells_ends_step:
  assumes "tells_ends j (a # as)" and "ends a" and "process_find j (a_ret a) = Some i"
    and "distinct (map p_pid (j_processes j))"
  shows "tells_ends (job_update_status (j\<lparr>j_processes :=
      (j_processes j)[i := process_apply_wait_status (j_processes j ! i) (a_status a)]\<rparr>)) as"
proof -
  let ?ps = "j_processes j"
  let ?qs = "?ps[i := process_apply_wait_status (?ps ! i) (a_status a)]"
  note i = find_process [OF assms(3)]
  have "map p_pid ?qs = map p_pid ?ps" by (metis apply_pid list_update_id map_update)
  then have pids: "p_pid ` set ?qs = p_pid ` set ?ps" by (metis set_map)
  have "\<exists>a\<in>set as. a_ret a = p_pid p" if p: "p \<in> set ?qs" and run: "p_status p = PROCESS_RUNNING" for p
  proof -
    from p obtain k where k: "k < length ?ps" "?qs ! k = p" by (auto simp: in_set_conv_nth)
    from k run apply_ends [OF assms(2)] i have "k \<noteq> i" by (auto simp: nth_list_update)
    with k have pk: "p = ?ps ! k" by simp
    with k i assms(4) \<open>k \<noteq> i\<close> have "p_pid p \<noteq> a_ret a"
      using nth_eq_iff_index_eq [OF assms(4), of k i] by auto
    with assms(1) run k pk show ?thesis by (auto simp: tells_ends_def)
  qed
  with assms(1) pids show ?thesis by (simp add: tells_ends_def)
qed

lemma job_wait_loop_returns:
  "job_ok j \<Longrightarrow> j_processes j \<noteq> [] \<Longrightarrow> distinct (map p_pid (j_processes j)) \<Longrightarrow> tells_ends j (w_script w) \<Longrightarrow>
     \<exists>j' w'. job_wait_loop j w = Some (0, j', w')"
proof (induction w arbitrary: j rule: script_induct)
  case (less w)
  show ?case
  proof (cases "j_status j = JOB_RUNNING")
    case False
    then show ?thesis by (simp add: job_wait_loop.simps [of j w])
  next
    case True
    with less.prems(1,2) have "processes_status (j_processes j) = JOB_RUNNING" by (simp add: job_ok_def)
    with less.prems(4) obtain a as where as: "w_script w = a # as"
      by (cases "w_script w") (auto simp: tells_ends_def processes_status_running)
    then obtain v where v: "sys (Sys_waitpid (- j_pgid j) [WUNTRACED]) w = Some (a, v)" "w_script v = as"
      by (auto simp: sys_def)
    note lt = sys_script_less [OF v(1)]
    from less.prems(4) as consider "a_ret a < 0" "a_err a = EINTR"
      | "ends a" "a_ret a \<in> p_pid ` set (j_processes j)" by (auto simp: tells_ends_def)
    then show ?thesis
    proof cases
      case 1
      have "tells_ends j as"
        using less.prems(1,4) as 1 by (fastforce simp: tells_ends_def job_ok_def)
      with less.IH [OF lt less.prems(1,2,3)] v 1 True show ?thesis
        by (simp add: job_wait_loop.simps [of j w])
    next
      case 2
      then obtain i where i: "process_find j (a_ret a) = Some i"
        using process_find_member by (auto simp: ends_def)
      let ?qs = "(j_processes j)[i := process_apply_wait_status (j_processes j ! i) (a_status a)]"
      let ?j = "job_update_status (j\<lparr>j_processes := ?qs\<rparr>)"
      have pids: "map p_pid ?qs = map p_pid (j_processes j)" by (metis apply_pid list_update_id map_update)
      have "tells_ends ?j (w_script v)"
        using tells_ends_step [OF _ 2(1) i less.prems(3)] less.prems(4) as v(2) by simp
      moreover have "job_ok ?j" using update_same_job [OF pids] less.prems(1) by (simp add: same_job_def)
      moreover have "distinct (map p_pid (j_processes ?j))" using pids less.prems(3) by simp
      ultimately have "\<exists>j' w'. job_wait_loop ?j v = Some (0, j', w')"
        using less.IH [OF lt] less.prems(2) by simp
      with v True i 2 show ?thesis by (simp add: job_wait_loop.simps [of j w] ends_def)
    qed
  qed
qed

text \<open>C16: waiting for the foreground job returns, with success, whenever the kernel reports the
  end of every process of it that is running, in any order and with any interruptions in between.\<close>

theorem job_wait_returns:
  assumes "job_ok j" and "j_processes j \<noteq> []" and "distinct (map p_pid (j_processes j))"
    and "tells_ends j (w_script w)"
  shows "\<exists>j' w'. job_wait_foreground j w = Some (0, j', w') \<and> j_status j' \<noteq> JOB_RUNNING"
proof -
  from job_wait_loop_returns [OF assms] obtain j' w' where run: "job_wait_loop j w = Some (0, j', w')" by blast
  with assms(1) have "job_wait_foreground j w = Some (0, j', w')"
    by (simp add: job_wait_foreground_def job_ok_def)
  with ensures_D3 [OF run job_wait_loop_eff] show ?thesis by auto
qed

theorem job_wait_returns_witness:
  "\<exists>j' w'. job_wait_foreground demo_job
      (init_world [fail EINTR, (ok 8)\<lparr>a_status := 0\<rparr>, (ok 7)\<lparr>a_status := 15\<rparr>]) = Some (0, j', w')"
proof -
  let ?w = "init_world [fail EINTR, (ok 8)\<lparr>a_status := 0\<rparr>, (ok 7)\<lparr>a_status := 15\<rparr>]"
  have "tells_ends demo_job (w_script ?w)" by code_simp
  with job_wait_returns [OF demo_ok(1), of ?w] show ?thesis
    by (auto simp: demo_job_def new_process_def)
qed

end
