(* ===== verification/Shell_Context.thy ===== *)
theory Shell_Context
  imports Config Job_Properties
begin

text \<open>
  \<^verbatim>\<open>include/shell_context.h\<close> and \<^verbatim>\<open>src/shell_context.c\<close>: the state of the shell, and how it
  finds its configuration file. \<open>input_buffer\<close> holds the \<^verbatim>\<open>input_length\<close> bytes read so far of
  the line being typed.
\<close>

abbreviation (input) SHELL_CONFIG_PATH_SIZE :: nat where "SHELL_CONFIG_PATH_SIZE \<equiv> 4096"
abbreviation (input) SHELL_INPUT_SIZE :: nat where "SHELL_INPUT_SIZE \<equiv> 4096"

record ShellContext =
  running :: bool
  ctx_jobs :: JobManager
  last_exit_status :: int
  config :: MiniShellConfig
  config_file :: string
  input_buffer :: string
  input_discarding :: bool

definition input_length :: "ShellContext \<Rightarrow> nat" where
  "input_length ctx = length (input_buffer ctx)"

section \<open>The path of the configuration file\<close>

definition shell_context_copy_config_path ::
  "ShellContext \<Rightarrow> string \<Rightarrow> world \<Rightarrow> int \<times> ShellContext \<times> world" where
  "shell_context_copy_config_path ctx path w =
     (if path = [] then (-1, ctx, w)
      else if \<not> snprintf_fits SHELL_CONFIG_PATH_SIZE path
      then (-1, ctx\<lparr>config_file := []\<rparr>, log_error ''config path is too long'' w)
      else (0, ctx\<lparr>config_file := path\<rparr>, w))"

definition shell_context_set_environment_config_path ::
  "ShellContext \<Rightarrow> string \<Rightarrow> world \<Rightarrow> (int \<times> ShellContext \<times> world) option" where
  "shell_context_set_environment_config_path ctx path w =
     (if take 1 path = ''/'' then Some (shell_context_copy_config_path ctx path w)
      else do {
        (cwd, w) \<leftarrow> sys Sys_getcwd w;
        if a_ret cwd < 0 then Some (-1, ctx, log_error ''failed resolve current directory'' w)
        else
          let absolute = cstr (a_bytes cwd) @ ''/'' @ path in
          if \<not> snprintf_fits SHELL_CONFIG_PATH_SIZE absolute
          then Some (-1, ctx, log_error ''config path is too long'' w)
          else Some (shell_context_copy_config_path ctx absolute w) })"

definition shell_context_try_config_path ::
  "ShellContext \<Rightarrow> string \<Rightarrow> string \<Rightarrow> world \<Rightarrow> (int \<times> ShellContext \<times> world) option" where
  "shell_context_try_config_path ctx directory relative w =
     (let path = directory @ ''/'' @ relative in
      if \<not> snprintf_fits SHELL_CONFIG_PATH_SIZE path then Some (-1, ctx, w)
      else do {
        (a, w) \<leftarrow> sys (Sys_access path) w;
        if a_ret a < 0 then Some (-1, ctx, w)
        else Some (shell_context_copy_config_path ctx path w) })"

text \<open>The directory of the executable: the text before the last slash, \<^verbatim>\<open>/\<close> for the root.\<close>

definition executable_directory :: "string \<Rightarrow> string option" where
  "executable_directory executable =
     (if CHR ''/'' \<notin> set executable then None
      else let before = rev (tl (dropWhile (\<lambda>c. c \<noteq> CHR ''/'') (rev executable)))
           in Some (if before = [] then ''/'' else before))"

text \<open>The two places tried relative to the executable.\<close>

definition try_beside_executable ::
  "ShellContext \<Rightarrow> answer \<Rightarrow> world \<Rightarrow> (int \<times> ShellContext \<times> world) option" where
  "try_beside_executable ctx link w =
     (if 0 < a_ret link \<and> a_ret link < int (SHELL_CONFIG_PATH_SIZE - 1)
      then
        (case executable_directory (cstr (take (nat (a_ret link)) (a_bytes link))) of
           None \<Rightarrow> Some (-1, ctx, w)
         | Some directory \<Rightarrow> do {
             (r, ctx, w) \<leftarrow> shell_context_try_config_path ctx directory ''../config/config.conf'' w;
             if r = 0 then Some (0, ctx, w)
             else shell_context_try_config_path ctx directory ''config/config.conf'' w })
      else Some (-1, ctx, w))"

definition shell_context_set_config_path ::
  "ShellContext \<Rightarrow> world \<Rightarrow> (int \<times> ShellContext \<times> world) option" where
  "shell_context_set_config_path ctx w = do {
     (environment, w) \<leftarrow> sys (Sys_getenv ''MINISHELL_CONFIG'') w;
     if 0 \<le> a_ret environment \<and> cstr (a_bytes environment) \<noteq> []
     then shell_context_set_environment_config_path ctx (cstr (a_bytes environment)) w
     else do {
       (link, w) \<leftarrow> sys (Sys_readlink ''/proc/self/exe'') w;
       (r, ctx, w) \<leftarrow> try_beside_executable ctx link w;
       if r = 0 then Some (0, ctx, w)
       else do {
         (cwd, w) \<leftarrow> sys Sys_getcwd w;
         (r, ctx, w) \<leftarrow>
           (if 0 \<le> a_ret cwd
            then shell_context_try_config_path ctx (cstr (a_bytes cwd)) ''config/config.conf'' w
            else Some (-1, ctx, w));
         if r = 0 then Some (0, ctx, w)
         else Some (-1, ctx\<lparr>config_file := []\<rparr>, w) } } }"

section \<open>Creating and destroying the context\<close>

definition blank_context :: ShellContext where
  "blank_context =
     \<lparr>running = False, ctx_jobs = jobmanager_init, last_exit_status = 0, config = config_init,
      config_file = [], input_buffer = [], input_discarding = False\<rparr>"

definition shell_context_init :: "world \<Rightarrow> (ShellContext \<times> world) option" where
  "shell_context_init w = do {
     (r, ctx, w) \<leftarrow> shell_context_set_config_path blank_context w;
     (ctx, w) \<leftarrow>
       (if r = 0
        then do {
          (ret, configs, w) \<leftarrow> config_load (config ctx) (config_file ctx) w;
          Some (ctx\<lparr>config := configs\<rparr>, if ret \<noteq> OK then log_info ''using default config'' w else w) }
        else Some (ctx, log_info ''config file not found, using default config'' w));
     let w = log_setlevel (if debug (config ctx) then LOG_DEBUG else LOG_INFO) w;
     Some (ctx\<lparr>input_buffer := [], input_discarding := False, running := True\<rparr>, w) }"

definition shell_context_destroy :: "ShellContext \<Rightarrow> world \<Rightarrow> (ShellContext \<times> world) option" where
  "shell_context_destroy ctx w = do {
     (js, w) \<leftarrow> job_shutdown (ctx_jobs ctx) w;
     Some (ctx\<lparr>running := False, ctx_jobs := js\<rparr>, w) }"

section \<open>Well-formed contexts\<close>

definition ctx_ok :: "ShellContext \<Rightarrow> bool" where
  "ctx_ok ctx \<longleftrightarrow>
     table_ok (ctx_jobs ctx) \<and> config_ok (config ctx) \<and>
     length (config_file ctx) < SHELL_CONFIG_PATH_SIZE \<and> length (input_buffer ctx) < SHELL_INPUT_SIZE"

lemma blank_context_ok: "ctx_ok blank_context"
  by (simp add: ctx_ok_def blank_context_def table_ok_def jobmanager_init_def config_init_ok)

text \<open>Searching the path changes nothing of the context but the path.\<close>

definition path_only :: "ShellContext \<Rightarrow> int \<Rightarrow> ShellContext \<Rightarrow> bool" where
  "path_only ctx r ctx' \<longleftrightarrow>
     ctx' = ctx\<lparr>config_file := config_file ctx'\<rparr> \<and>
     (length (config_file ctx) < SHELL_CONFIG_PATH_SIZE \<longrightarrow> length (config_file ctx') < SHELL_CONFIG_PATH_SIZE) \<and>
     (r = 0 \<longrightarrow> config_file ctx' \<noteq> [])"

lemma path_only_refl [simp]: "path_only ctx (-1) ctx"
  by (simp add: path_only_def)

lemma copy_path_only:
  "shell_context_copy_config_path ctx path w = (r, ctx', w') \<Longrightarrow> calm w w' \<and> path_only ctx r ctx'"
  by (auto simp: shell_context_copy_config_path_def path_only_def snprintf_fits_def effects split: if_splits)

text \<open>The results of the searches as \<open>ensures\<close> facts.\<close>

lemma ensures_copy:
  "(\<And>r ctx' w'. calm w w' \<Longrightarrow> path_only ctx r ctx' \<Longrightarrow> Q (r, ctx', w')) \<Longrightarrow>
     ensures (Some (shell_context_copy_config_path ctx path w)) Q"
  by (cases "shell_context_copy_config_path ctx path w") (simp add: ensures_def copy_path_only)

lemma path_only_trans: "path_only c r c' \<Longrightarrow> path_only c' s c'' \<Longrightarrow> path_only c s c''"
  unfolding path_only_def by (metis ShellContext.surjective ShellContext.update_convs(5))

lemma path_only_clear [simp]: "path_only c r c' \<Longrightarrow> path_only c (-1) (c'\<lparr>config_file := []\<rparr>)"
  unfolding path_only_def by (metis ShellContext.surjective ShellContext.update_convs(5) ShellContext.select_convs(5)
      list.size(3) zero_neq_neg_one zero_less_numeral)

lemma environment_path_eff:
  "ensures (shell_context_set_environment_config_path ctx path w)
     (\<lambda>(r, ctx', w'). calm w w' \<and> path_only ctx r ctx')"
  unfolding shell_context_set_environment_config_path_def Let_def
  by (intro vcg ensures_copy) (auto simp: effects)

lemma try_path_eff:
  "ensures (shell_context_try_config_path ctx d rel w) (\<lambda>(r, ctx', w'). calm w w' \<and> path_only ctx r ctx')"
  unfolding shell_context_try_config_path_def Let_def
  by (intro vcg ensures_copy) (auto simp: effects)

lemma beside_path_eff:
  "ensures (try_beside_executable ctx link w) (\<lambda>(r, ctx', w'). calm w w' \<and> path_only ctx r ctx')"
  unfolding try_beside_executable_def
  by (intro vcg ensures_option ensures_mono3 [OF try_path_eff]) (auto intro: calm_trans path_only_trans)

lemma set_path_eff:
  "ensures (shell_context_set_config_path ctx w) (\<lambda>(r, ctx', w'). calm w w' \<and> path_only ctx r ctx')"
  unfolding shell_context_set_config_path_def
  by (intro vcg ensures_mono3 [OF try_path_eff] ensures_mono3 [OF environment_path_eff]
      ensures_mono3 [OF beside_path_eff])
    (auto simp: effects intro: path_only_trans)

lemma path_only_ok: "path_only ctx r ctx' \<Longrightarrow> ctx_ok ctx \<Longrightarrow> ctx_ok ctx'"
  unfolding path_only_def ctx_ok_def
  by (metis ShellContext.surjective ShellContext.update_convs(5) ShellContext.select_convs(2,4,6))

lemma calm_setlevel [simp]: "calm w (log_setlevel l v) = calm w v"
  by (simp add: log_setlevel_def effects)

lemma shell_context_init_eff:
  "ensures (shell_context_init w) (\<lambda>(ctx, w'). calm w w' \<and> ctx_ok ctx \<and> running ctx \<and>
     ctx_jobs ctx = jobmanager_init \<and> input_buffer ctx = [] \<and> last_exit_status ctx = 0)"
  unfolding shell_context_init_def
proof (intro vcg ensures_mono3 [OF set_path_eff] ensures_mono3 [OF config_load_eff], goal_cases)
  case (1 r ctx v ret configs v2)
  then have "ctx_ok ctx" and "ctx = blank_context\<lparr>config_file := config_file ctx\<rparr>"
    using path_only_ok blank_context_ok by (auto simp: path_only_def)
  moreover from this(2) have "ctx_jobs ctx = jobmanager_init" "last_exit_status ctx = 0"
    by (metis ShellContext.select_convs(2,3) ShellContext.update_convs(5) blank_context_def)+
  moreover have "calm w v2" using 1 by (blast intro: calm_trans)
  ultimately show ?case using 1 by (auto simp: ctx_ok_def)
next
  case (2 r ctx v)
  then have "ctx_ok ctx" and "ctx = blank_context\<lparr>config_file := config_file ctx\<rparr>"
    using path_only_ok blank_context_ok by (auto simp: path_only_def)
  moreover from this(2) have "ctx_jobs ctx = jobmanager_init" "last_exit_status ctx = 0"
    by (metis ShellContext.select_convs(2,3) ShellContext.update_convs(5) blank_context_def)+
  ultimately show ?case using 2 by (auto simp: ctx_ok_def)
qed

end
