(* ===== verification/Executor.thy ===== *)
theory Executor
  imports Shell_Context Sig Terminal
begin

text \<open>
  \<^verbatim>\<open>src/executor.c\<close>: starting external commands and pipelines. Every child waits at a startup
  gate, a pipe, until the parent has registered the job, put the child in its group and handed over
  the terminal; any failure before that kills and reaps what was started.

  \<^verbatim>\<open>fork\<close> is a call with an answer like any other, and a run follows the process that the
  answer names: the child when it is 0. A run that ends in the child, by \<^verbatim>\<open>_exit\<close> or because
  \<^verbatim>\<open>execvp\<close> replaced the program, is \<open>Child_gone\<close>.
\<close>

section \<open>Groups, gates, children\<close>

definition setpgid_child :: "int \<Rightarrow> world \<Rightarrow> (int \<times> world) option" where
  "setpgid_child pgid w = do {
     (a, w) \<leftarrow> sys_retry (Sys_setpgid 0 pgid) w;
     if a_ret a < 0 then Some (-1, w) else Some (0, w) }"

definition setpgid_parent :: "int \<Rightarrow> int \<Rightarrow> world \<Rightarrow> (int \<times> world) option" where
  "setpgid_parent pid pgid w = do {
     (a, w) \<leftarrow> sys_retry (Sys_setpgid pid pgid) w;
     if a_ret a < 0
     then (if a_err a = EACCES \<or> a_err a = ESRCH then Some (0, w) else Some (-1, w))
     else Some (0, w) }"

definition set_cloexec :: "int \<Rightarrow> world \<Rightarrow> (int \<times> world) option" where
  "set_cloexec fd w = do {
     (flags, w) \<leftarrow> sys (Sys_getfd fd) w;
     if a_ret flags < 0 then Some (-1, w)
     else do {
       (a, w) \<leftarrow> sys (Sys_setfd_cloexec fd) w;
       Some (a_ret a, w) } }"

definition startup_gate_create :: "world \<Rightarrow> (int \<times> (int \<times> int) \<times> world) option" where
  "startup_gate_create w = do {
     (p, w) \<leftarrow> sys Sys_pipe w;
     if a_ret p < 0 then Some (-1, (-1, -1), w)
     else do {
       (r, w) \<leftarrow> set_cloexec (fst (pipe_ends p)) w;
       (r, w) \<leftarrow> (if r < 0 then Some (r, w) else set_cloexec (snd (pipe_ends p)) w);
       if r < 0
       then do {
         w \<leftarrow> sysv (Sys_close (fst (pipe_ends p))) w;
         w \<leftarrow> sysv (Sys_close (snd (pipe_ends p))) w;
         Some (-1, (-1, -1), w) }
       else Some (0, pipe_ends p, w) } }"

definition child_block_startup_signals :: "world \<Rightarrow> world option" where
  "child_block_startup_signals w =
     sysv (Sys_sigprocmask SIG_BLOCK [SIGINT, SIGQUIT, SIGTSTP, SIGTTIN, SIGTTOU]) w"

function startup_gate_wait :: "int \<Rightarrow> world \<Rightarrow> (int \<times> world) option" where
  "startup_gate_wait fd w =
     (case sys (Sys_read fd 1) w of
        None \<Rightarrow> None
      | Some (a, w) \<Rightarrow>
          if a_ret a = 1 then Some (if take 1 (a_bytes a) = ''G'' then 0 else -1, w)
          else if a_ret a = 0 then Some (-1, w)
          else if a_err a = EINTR then startup_gate_wait fd w
          else Some (-1, w))"
  by pat_completeness auto
termination
  by (relation "measure (\<lambda>(fd, w). length (w_script w))") (auto dest: sys_script_less)

declare startup_gate_wait.simps [simp del]

fun startup_gate_release :: "int \<Rightarrow> nat \<Rightarrow> world \<Rightarrow> (int \<times> world) option" where
  "startup_gate_release fd 0 w = Some (0, w)"
| "startup_gate_release fd (Suc n) w = do {
     (a, w) \<leftarrow> sys_retry (Sys_write fd ''G'') w;
     if a_ret a = 1 then startup_gate_release fd n w else Some (-1, w) }"

text \<open>\<^verbatim>\<open>_exit\<close> has no answer: it is recorded and the run of the child is over.\<close>

definition exit_process :: "int \<Rightarrow> world \<Rightarrow> world" where
  "exit_process status w = w\<lparr>w_trace := w_trace w @ [(Sys_exit status, ok 0)]\<rparr>"

text \<open>True: the child goes on; false: it has exited.\<close>

definition child_prepare_before_gate :: "int \<Rightarrow> int \<Rightarrow> int \<Rightarrow> world \<Rightarrow> (bool \<times> world) option" where
  "child_prepare_before_gate gate_read gate_write pgid w = do {
     w \<leftarrow> sysv (Sys_close gate_write) w;
     w \<leftarrow> child_block_startup_signals w;
     (r, w) \<leftarrow> setpgid_child pgid w;
     if r < 0 then Some (False, exit_process 1 w)
     else do {
       w \<leftarrow> event_close_in_child w;
       (r, w) \<leftarrow> startup_gate_wait gate_read w;
       if r < 0 then Some (False, exit_process 1 w)
       else do {
         w \<leftarrow> sysv (Sys_close gate_read) w;
         w \<leftarrow> signal_reset_child w;
         Some (True, w) } } }"

definition reap_pid :: "int \<Rightarrow> world \<Rightarrow> world option" where
  "reap_pid pid w =
     (if pid \<le> 0 then Some w
      else do { (a, w) \<leftarrow> sys_retry (Sys_waitpid pid []) w; Some w })"

text \<open>A \<^verbatim>\<open>SIGKILL\<close> whose failure is logged, unless there was nothing to kill.\<close>

definition kill_logged :: "int \<Rightarrow> string \<Rightarrow> world \<Rightarrow> world option" where
  "kill_logged target message w = do {
     (a, w) \<leftarrow> sys (Sys_kill target SIGKILL) w;
     Some (if a_ret a < 0 \<and> a_err a \<noteq> ESRCH then log_error message w else w) }"

definition rollback_single :: "int \<Rightarrow> world \<Rightarrow> world option" where
  "rollback_single pid w =
     (if pid \<le> 0 then Some w
      else do {
        w \<leftarrow> kill_logged (- pid) ''failed kill child group %d during rollback: %s'' w;
        w \<leftarrow> kill_logged pid ''failed kill child %d during rollback: %s'' w;
        reap_pid pid w })"

fun kill_pids :: "int list \<Rightarrow> world \<Rightarrow> world option" where
  "kill_pids [] w = Some w"
| "kill_pids (pid # pids) w = do {
     w \<leftarrow> (if pid \<le> 0 then Some w
           else kill_logged pid ''failed kill pipeline child %d during rollback: %s'' w);
     kill_pids pids w }"

fun reap_pids :: "int list \<Rightarrow> world \<Rightarrow> world option" where
  "reap_pids [] w = Some w"
| "reap_pids (pid # pids) w = do { w \<leftarrow> reap_pid pid w; reap_pids pids w }"

definition rollback_pipeline :: "int \<Rightarrow> int list \<Rightarrow> world \<Rightarrow> world option" where
  "rollback_pipeline pgid pids w = do {
     w \<leftarrow> (if 0 < pgid
           then kill_logged (- pgid) ''failed kill pipeline group %d during rollback: %s'' w
           else Some w);
     w \<leftarrow> kill_pids pids w;
     reap_pids pids w }"

definition check_job_limit :: "ShellContext \<Rightarrow> world \<Rightarrow> int \<times> world" where
  "check_job_limit ctx w =
     (if max_job (config ctx) \<le> job_count_active (ctx_jobs ctx)
      then (ERR_JOB, log_error ''maximum active jobs reached: %d'' w)
      else (OK, w))"

section \<open>Redirection and exec\<close>

definition redirect_fd :: "int \<Rightarrow> int \<Rightarrow> world \<Rightarrow> (int \<times> world) option" where
  "redirect_fd fd target w =
     (if fd = target then Some (OK, w)
      else do {
        (a, w) \<leftarrow> sys_retry (Sys_dup2 fd target) w;
        if a_ret a < 0 then Some (ERR_DUP2, w)
        else do { w \<leftarrow> sysv (Sys_close fd) w; Some (OK, w) } })"

text \<open>One of the two halves of \<^verbatim>\<open>setredirect\<close>: open a file and make it the target.\<close>

definition open_redirect ::
  "string \<Rightarrow> open_flag list \<Rightarrow> int \<Rightarrow> string \<Rightarrow> string \<Rightarrow> world \<Rightarrow> (int \<times> world) option" where
  "open_redirect file flags target open_message dup_message w = do {
     (fd, w) \<leftarrow> sys (Sys_open file flags) w;
     if a_ret fd < 0 then Some (ERR_OPEN, log_error open_message w)
     else do {
       (r, w) \<leftarrow> redirect_fd (a_ret fd) target w;
       if r \<noteq> OK
       then do {
         w \<leftarrow> (if a_ret fd \<noteq> target then sysv (Sys_close (a_ret fd)) w else Some w);
         Some (ERR_DUP2, log_error dup_message w) }
       else Some (OK, w) } }"

definition setredirect :: "Command \<Rightarrow> world \<Rightarrow> (int \<times> world) option" where
  "setredirect com w = do {
     (r, w) \<leftarrow>
       (case output_file (redirect com) of
          None \<Rightarrow> Some (OK, w)
        | Some file \<Rightarrow>
            open_redirect file
              (if append (redirect com) then [O_WRONLY, O_CREAT, O_APPEND] else [O_WRONLY, O_CREAT, O_TRUNC])
              1 (''open output '' @ quoted ''%s'' @ '' failed: %s'') ''redirect stdout failed: %s'' w);
     if r \<noteq> OK then Some (r, w)
     else
       (case input_file (redirect com) of
          None \<Rightarrow> Some (OK, w)
        | Some file \<Rightarrow>
            open_redirect file [O_RDONLY] 0
              (''open input '' @ quoted ''%s'' @ '' failed: %s'') ''redirect stdin failed: %s'' w) }"

definition exec_status_from_errno :: "errno \<Rightarrow> int" where
  "exec_status_from_errno e = (if e = ENOENT then 127 else 126)"

text \<open>
  \<^verbatim>\<open>argv[0]\<close>: the parser never yields a command without one (\<^verbatim>\<open>build_command\<close> rejects it);
  it would be \<^verbatim>\<open>NULL\<close> and is the empty name here.
\<close>

definition exec_file :: "Command \<Rightarrow> string" where
  "exec_file com = (case argv0 com of None \<Rightarrow> [] | Some name \<Rightarrow> name)"

definition run_process :: "Command \<Rightarrow> world \<Rightarrow> world option" where
  "run_process com w = do {
     (a, w) \<leftarrow> sys (Sys_execvp (exec_file com) (argv com)) w;
     if 0 \<le> a_ret a then Some w
     else Some (exit_process (exec_status_from_errno (a_err a))
                  (eprintf (''minishell: '' @ exec_file com @ '': %s'' @ [LF]) w)) }"

text \<open>The end of both children: redirect, then exec.\<close>

definition child_exec :: "Command \<Rightarrow> world \<Rightarrow> world option" where
  "child_exec com w = do {
     (r, w) \<leftarrow> setredirect com w;
     if r \<noteq> OK then Some (exit_process 1 w) else run_process com w }"

definition child_single :: "Command \<Rightarrow> int \<times> int \<Rightarrow> world \<Rightarrow> world option" where
  "child_single com gate w = do {
     (go, w) \<leftarrow> child_prepare_before_gate (fst gate) (snd gate) 0 w;
     if \<not> go then Some w else child_exec com w }"

definition close_if :: "int \<Rightarrow> world \<Rightarrow> world option" where
  "close_if fd w = (if 0 \<le> fd then sysv (Sys_close fd) w else Some w)"

text \<open>The child's ends of the pipes become its standard streams.\<close>

definition child_plumbing :: "bool \<Rightarrow> int \<times> int \<Rightarrow> int \<Rightarrow> world \<Rightarrow> (int \<times> world) option" where
  "child_plumbing has_next pipefd pipe_fd w = do {
     (r, w) \<leftarrow> (if 0 \<le> pipe_fd then redirect_fd pipe_fd 0 w else Some (OK, w));
     if r \<noteq> OK then Some (r, w)
     else do {
       (r, w) \<leftarrow> (if has_next then redirect_fd (snd pipefd) 1 w else Some (OK, w));
       if r \<noteq> OK then Some (r, w)
       else do { w \<leftarrow> close_if (fst pipefd) w; Some (OK, w) } } }"

definition child_pipeline ::
  "Command \<Rightarrow> bool \<Rightarrow> int \<times> int \<Rightarrow> int \<times> int \<Rightarrow> int \<Rightarrow> int \<Rightarrow> world \<Rightarrow> world option" where
  "child_pipeline current has_next gate pipefd pipe_fd pgid w = do {
     (child_pgid, w) \<leftarrow>
       (if pgid = 0 then do { (a, w) \<leftarrow> sys Sys_getpid w; Some (a_ret a, w) } else Some (pgid, w));
     (go, w) \<leftarrow> child_prepare_before_gate (fst gate) (snd gate) child_pgid w;
     if \<not> go then Some w
     else do {
       (r, w) \<leftarrow> child_plumbing has_next pipefd pipe_fd w;
       if r \<noteq> OK then Some (exit_process 1 w) else child_exec current w } }"

section \<open>The foreground job\<close>

text \<open>The first \<^verbatim>\<open>if\<close> of \<^verbatim>\<open>finish_foreground_job\<close>: a stopped job keeps the terminal modes it had.\<close>

definition save_modes :: "Job \<Rightarrow> bool \<Rightarrow> world \<Rightarrow> (Job \<times> world) option" where
  "save_modes job terminal_active w =
     (if terminal_active \<and> j_status job = JOB_STOPPED
      then do {
        (r, modes, w) \<leftarrow> terminal_get_modes (j_modes job) w;
        let job = job\<lparr>j_modes := modes\<rparr>;
        Some (if r = 0 then job\<lparr>j_modes_valid := True\<rparr> else job, w) }
      else Some (job, w))"

definition finish_foreground_job ::
  "ShellContext \<Rightarrow> nat \<Rightarrow> bool \<Rightarrow> world \<Rightarrow> (int \<times> ShellContext \<times> world) option" where
  "finish_foreground_job ctx i terminal_active w = do {
     (job, w) \<leftarrow> save_modes (jobs (ctx_jobs ctx) ! i) terminal_active w;
     let ctx = ctx\<lparr>ctx_jobs := put_job i job (ctx_jobs ctx)\<rparr>;
     (r, w) \<leftarrow> (if terminal_active then terminal_restore w else Some (0, w));
     if r < 0
     then Some (ERR_UNKNOWN, ctx\<lparr>running := False\<rparr>, log_error ''failed restore terminal: %s'' w)
     else if j_status job = JOB_STOPPED
     then Some (OK, ctx, printf ([LF] @ ''['' @ show_int (j_id job) @ '']+ Stopped '' @ j_command job @ [LF]) w)
     else if j_status job \<noteq> JOB_DONE then Some (ERR_UNKNOWN, ctx, w)
     else
       let status = job_exit_status job;
           (js, w) = job_remove (ctx_jobs ctx) (j_pgid job) w
       in Some (if status < 0 then ERR_UNKNOWN else status, ctx\<lparr>ctx_jobs := js\<rparr>, w) }"

section \<open>A single command\<close>

datatype 'a outcome = Parent 'a | Child_gone

text \<open>Removing a job from the table of the context.\<close>

definition ctx_remove :: "int \<Rightarrow> ShellContext \<Rightarrow> world \<Rightarrow> ShellContext \<times> world" where
  "ctx_remove pgid ctx w =
     (case job_remove (ctx_jobs ctx) pgid w of (js, w) \<Rightarrow> (ctx\<lparr>ctx_jobs := js\<rparr>, w))"

definition terminal_restore_ignored :: "bool \<Rightarrow> world \<Rightarrow> world option" where
  "terminal_restore_ignored needed w =
     (if needed then do { (r, w) \<leftarrow> terminal_restore w; Some w } else Some w)"

text \<open>
  The parent's side of \<^verbatim>\<open>execute_single\<close> up to the release of the gate. \<open>Inl\<close>: the code that is
  returned at once; \<open>Inr\<close>: the pointer to the job.
\<close>

definition launch_single ::
  "Command \<Rightarrow> ShellContext \<Rightarrow> int \<times> int \<Rightarrow> bool \<Rightarrow> int \<Rightarrow> world \<Rightarrow> ((int + nat) \<times> ShellContext \<times> world) option" where
  "launch_single com ctx gate terminal_active pid w = do {
     w \<leftarrow> sysv (Sys_close (fst gate)) w;
     (r, w) \<leftarrow> setpgid_parent pid pid w;
     if r < 0
     then do {
       w \<leftarrow> sysv (Sys_close (snd gate)) w;
       w \<leftarrow> rollback_single pid (log_error ''failed setpgid for child %d: %s'' w);
       Some (Inl ERR_UNKNOWN, ctx, w) }
     else
       let (job, js, w) = job_add (ctx_jobs ctx) pid (argv0 com) w;
           ctx = ctx\<lparr>ctx_jobs := js\<rparr>
       in case job of
         None \<Rightarrow> do {
           w \<leftarrow> sysv (Sys_close (snd gate)) w;
           w \<leftarrow> rollback_single pid w;
           Some (Inl ERR_JOB, ctx, w) }
       | Some i \<Rightarrow>
         let (r, j, w) = process_add (jobs (ctx_jobs ctx) ! i) pid w;
             ctx = ctx\<lparr>ctx_jobs := put_job i j (ctx_jobs ctx)\<rparr>
         in if r < 0
         then do {
           w \<leftarrow> sysv (Sys_close (snd gate)) w;
           w \<leftarrow> rollback_single pid w;
           let (ctx, w) = ctx_remove pid ctx w;
           Some (Inl ERR_JOB, ctx, w) }
         else do {
           (r, w) \<leftarrow>
             (if \<not> background com \<and> terminal_active then terminal_set_foreground pid w else Some (0, w));
           if r < 0
           then do {
             w \<leftarrow> sysv (Sys_close (snd gate)) w;
             w \<leftarrow> rollback_single pid (log_error ''failed give terminal to pgid %d: %s'' w);
             let (ctx, w) = ctx_remove pid ctx w;
             w \<leftarrow> terminal_restore_ignored True w;
             Some (Inl ERR_UNKNOWN, ctx, w) }
           else do {
             (r, w) \<leftarrow> startup_gate_release (snd gate) 1 w;
             w \<leftarrow> sysv (Sys_close (snd gate)) w;
             if r < 0
             then do {
               w \<leftarrow> rollback_single pid w;
               let (ctx, w) = ctx_remove pid ctx w;
               w \<leftarrow> terminal_restore_ignored (\<not> background com \<and> terminal_active) w;
               Some (Inl ERR_UNKNOWN, ctx, w) }
             else Some (Inr i, ctx, w) } } }"

text \<open>What is left once the job runs: nothing in the background, else to wait for it.\<close>

definition await_single ::
  "Command \<Rightarrow> ShellContext \<Rightarrow> bool \<Rightarrow> int \<Rightarrow> nat \<Rightarrow> world \<Rightarrow> (int \<times> ShellContext \<times> world) option" where
  "await_single com ctx terminal_active pid i w =
     (if background com then Some (OK, ctx, w)
      else do {
        (r, j, w) \<leftarrow> job_wait_foreground (jobs (ctx_jobs ctx) ! i) w;
        let ctx = ctx\<lparr>ctx_jobs := put_job i j (ctx_jobs ctx)\<rparr>;
        if r < 0
        then do {
          w \<leftarrow> rollback_single pid w;
          w \<leftarrow> terminal_restore_ignored terminal_active w;
          let (ctx, w) = ctx_remove pid ctx w;
          Some (ERR_UNKNOWN, ctx, w) }
        else finish_foreground_job ctx i terminal_active w })"

definition execute_single ::
  "Command \<Rightarrow> ShellContext \<Rightarrow> world \<Rightarrow> ((int \<times> ShellContext) outcome \<times> world) option" where
  "execute_single com ctx w = do {
     (r, gate, w) \<leftarrow> startup_gate_create w;
     if r < 0 then Some (Parent (ERR_PIPE, ctx), log_error ''failed create startup gate: %s'' w)
     else do {
       let terminal_active = terminal_is_initialized w;
       (pid, w) \<leftarrow> sys Sys_fork w;
       if a_ret pid < 0
       then do {
         w \<leftarrow> sysv (Sys_close (fst gate)) w;
         w \<leftarrow> sysv (Sys_close (snd gate)) w;
         Some (Parent (ERR_FORK, ctx), log_error ''fork failed: %s'' w) }
       else if a_ret pid = 0
       then do { w \<leftarrow> child_single com gate w; Some (Child_gone, w) }
       else do {
         (started, ctx, w) \<leftarrow> launch_single com ctx gate terminal_active (a_ret pid) w;
         case started of
           Inl r \<Rightarrow> Some (Parent (r, ctx), w)
         | Inr i \<Rightarrow> do {
             (r, ctx, w) \<leftarrow> await_single com ctx terminal_active (a_ret pid) i w;
             Some (Parent (r, ctx), w) } } } }"

section \<open>Pipelines\<close>

abbreviation (input) MAX_PIPELINE :: nat where "MAX_PIPELINE \<equiv> 64"

text \<open>
  The loop that starts the commands of a pipeline. \<open>pids\<close> is the filled part of the array,
  \<open>pipe_fd\<close> the read end left by the previous command or -1.
\<close>

datatype pipeline_start =
    Pipeline_started "int list" int int  \<comment> \<open>pids, pgid, pipe_fd\<close>
  | Pipeline_failed int
  | Pipeline_child

text \<open>The cleanup the error paths share: the descriptors the loop holds are closed, its children killed.\<close>

definition abandon_pipeline ::
  "int \<times> int \<Rightarrow> int \<times> int \<Rightarrow> int \<Rightarrow> int \<Rightarrow> int list \<Rightarrow> world \<Rightarrow> world option" where
  "abandon_pipeline gate pipefd pipe_fd pgid pids w = do {
     w \<leftarrow> close_if (fst pipefd) w;
     w \<leftarrow> close_if (snd pipefd) w;
     w \<leftarrow> close_if pipe_fd w;
     w \<leftarrow> sysv (Sys_close (fst gate)) w;
     w \<leftarrow> sysv (Sys_close (snd gate)) w;
     rollback_pipeline pgid pids w }"

fun start_pipeline ::
  "int \<times> int \<Rightarrow> Command list \<Rightarrow> int list \<Rightarrow> int \<Rightarrow> int \<Rightarrow> world \<Rightarrow> (pipeline_start \<times> world) option" where
  "start_pipeline gate [] pids pgid pipe_fd w = Some (Pipeline_started pids pgid pipe_fd, w)"
| "start_pipeline gate (current # rest) pids pgid pipe_fd w =
     (if MAX_PIPELINE \<le> length pids
      then do {
        w \<leftarrow> abandon_pipeline gate (-1, -1) pipe_fd pgid pids w;
        Some (Pipeline_failed ERR_UNKNOWN, log_error ''pipeline commands are too many'' w) }
      else do {
        (p, w) \<leftarrow>
          (if rest \<noteq> []
           then do { (p, w) \<leftarrow> sys Sys_pipe w;
                     Some (if a_ret p < 0 then None else Some (pipe_ends p), w) }
           else Some (Some (-1, -1), w));
        case p of
          None \<Rightarrow> do {
            w \<leftarrow> abandon_pipeline gate (-1, -1) pipe_fd pgid pids w;
            Some (Pipeline_failed ERR_PIPE, log_error ''pipe create failed: %s'' w) }
        | Some pipefd \<Rightarrow> do {
            (pid, w) \<leftarrow> sys Sys_fork w;
            if a_ret pid < 0
            then do {
              w \<leftarrow> abandon_pipeline gate pipefd pipe_fd pgid pids w;
              Some (Pipeline_failed ERR_FORK, log_error ''fork failed: %s'' w) }
            else if a_ret pid = 0
            then do {
              w \<leftarrow> child_pipeline current (rest \<noteq> []) gate pipefd pipe_fd pgid w;
              Some (Pipeline_child, w) }
            else do {
              let pids = pids @ [a_ret pid];
              let pgid = (if pgid = 0 then a_ret pid else pgid);
              (r, w) \<leftarrow> setpgid_parent (a_ret pid) pgid w;
              if r < 0
              then do {
                w \<leftarrow> abandon_pipeline gate pipefd pipe_fd pgid pids w;
                Some (Pipeline_failed ERR_UNKNOWN, log_error ''failed setpgid for pipeline child %d: %s'' w) }
              else do {
                w \<leftarrow> close_if pipe_fd w;
                w \<leftarrow> (if rest \<noteq> [] then sysv (Sys_close (snd pipefd)) w else Some w);
                start_pipeline gate rest pids pgid (if rest \<noteq> [] then fst pipefd else -1) w } } } })"

fun add_processes :: "Job \<Rightarrow> int list \<Rightarrow> world \<Rightarrow> int \<times> Job \<times> world" where
  "add_processes job [] w = (0, job, w)"
| "add_processes job (pid # pids) w =
     (case process_add job pid w of (r, job, w) \<Rightarrow>
        if r < 0 then (-1, job, w) else add_processes job pids w)"

text \<open>\<^verbatim>\<open>execute_pipeline\<close> behind its loop, up to the release of the gate.\<close>

definition launch_pipeline ::
  "Command \<Rightarrow> ShellContext \<Rightarrow> int \<times> int \<Rightarrow> bool \<Rightarrow> int list \<Rightarrow> int \<Rightarrow> int \<Rightarrow> world \<Rightarrow>
   ((int + nat) \<times> ShellContext \<times> world) option" where
  "launch_pipeline com ctx gate terminal_active pids pgid pipe_fd w = do {
     w \<leftarrow> close_if pipe_fd w;
     w \<leftarrow> sysv (Sys_close (fst gate)) w;
     let (job, js, w) = job_add (ctx_jobs ctx) pgid (argv0 com) w;
         ctx = ctx\<lparr>ctx_jobs := js\<rparr>
     in case job of
       None \<Rightarrow> do {
         w \<leftarrow> sysv (Sys_close (snd gate)) w;
         w \<leftarrow> rollback_pipeline pgid pids w;
         Some (Inl ERR_JOB, ctx, w) }
     | Some i \<Rightarrow>
       let (r, j, w) = add_processes (jobs (ctx_jobs ctx) ! i) pids w;
           ctx = ctx\<lparr>ctx_jobs := put_job i j (ctx_jobs ctx)\<rparr>
       in if r < 0
       then do {
         w \<leftarrow> sysv (Sys_close (snd gate)) w;
         w \<leftarrow> rollback_pipeline pgid pids w;
         let (ctx, w) = ctx_remove pgid ctx w;
         Some (Inl ERR_JOB, ctx, w) }
       else do {
         (r, w) \<leftarrow>
           (if \<not> background com \<and> terminal_active then terminal_set_foreground pgid w else Some (0, w));
         if r < 0
         then do {
           w \<leftarrow> sysv (Sys_close (snd gate)) w;
           w \<leftarrow> rollback_pipeline pgid pids w;
           let (ctx, w) = ctx_remove pgid ctx w;
           w \<leftarrow> terminal_restore_ignored True w;
           Some (Inl ERR_UNKNOWN, ctx, log_error ''failed set pipeline foreground pgid %d: %s'' w) }
         else do {
           (r, w) \<leftarrow> startup_gate_release (snd gate) (length pids) w;
           w \<leftarrow> sysv (Sys_close (snd gate)) w;
           if r < 0
           then do {
             w \<leftarrow> rollback_pipeline pgid pids w;
             let (ctx, w) = ctx_remove pgid ctx w;
             w \<leftarrow> terminal_restore_ignored (\<not> background com \<and> terminal_active) w;
             Some (Inl ERR_UNKNOWN, ctx, w) }
           else Some (Inr i, ctx, w) } } }"

definition await_pipeline ::
  "Command \<Rightarrow> ShellContext \<Rightarrow> bool \<Rightarrow> int list \<Rightarrow> int \<Rightarrow> nat \<Rightarrow> world \<Rightarrow> (int \<times> ShellContext \<times> world) option" where
  "await_pipeline com ctx terminal_active pids pgid i w =
     (if background com then Some (OK, ctx, w)
      else do {
        (r, j, w) \<leftarrow> job_wait_foreground (jobs (ctx_jobs ctx) ! i) w;
        let ctx = ctx\<lparr>ctx_jobs := put_job i j (ctx_jobs ctx)\<rparr>;
        if r < 0
        then do {
          w \<leftarrow> rollback_pipeline pgid pids w;
          w \<leftarrow> terminal_restore_ignored terminal_active w;
          let (ctx, w) = ctx_remove pgid ctx w;
          Some (ERR_UNKNOWN, ctx, w) }
        else finish_foreground_job ctx i terminal_active w })"

text \<open>The chain is not empty: \<^verbatim>\<open>com\<close> is its first node, \<^verbatim>\<open>rest\<close> what \<^verbatim>\<open>next\<close> leads to.\<close>

definition execute_pipeline ::
  "Command \<Rightarrow> Command list \<Rightarrow> ShellContext \<Rightarrow> world \<Rightarrow> ((int \<times> ShellContext) outcome \<times> world) option" where
  "execute_pipeline com rest ctx w = do {
     (r, gate, w) \<leftarrow> startup_gate_create w;
     if r < 0 then Some (Parent (ERR_PIPE, ctx), log_error ''failed create pipeline startup gate: %s'' w)
     else do {
       let terminal_active = terminal_is_initialized w;
       (s, w) \<leftarrow> start_pipeline gate (com # rest) [] 0 (-1) w;
       case s of
         Pipeline_child \<Rightarrow> Some (Child_gone, w)
       | Pipeline_failed r \<Rightarrow> Some (Parent (r, ctx), w)
       | Pipeline_started pids pgid pipe_fd \<Rightarrow> do {
           (started, ctx, w) \<leftarrow> launch_pipeline com ctx gate terminal_active pids pgid pipe_fd w;
           case started of
             Inl r \<Rightarrow> Some (Parent (r, ctx), w)
           | Inr i \<Rightarrow> do {
               (r, ctx, w) \<leftarrow> await_pipeline com ctx terminal_active pids pgid i w;
               Some (Parent (r, ctx), w) } } } }"

fun execute_command ::
  "Command list \<Rightarrow> ShellContext \<Rightarrow> world \<Rightarrow> ((int \<times> ShellContext) outcome \<times> world) option" where
  "execute_command [] ctx w = Some (Parent (ERR_UNKNOWN, ctx), w)"
| "execute_command (com # rest) ctx w =
     (let (ret, w) = check_job_limit ctx w in
      if ret \<noteq> OK then Some (Parent (ret, ctx), w)
      else if rest \<noteq> [] then execute_pipeline com rest ctx w
      else execute_single com ctx w)"

end
