(* ===== verification/Executor_Facts.thy ===== *)
theory Executor_Facts
  imports Executor
begin

text \<open>
  What the steps of \<open>Executor\<close> do to descriptors, heap and job table: one lemma per operation, and
  the rules that carry them through the bodies of \<^verbatim>\<open>execute_single\<close> and
  \<^verbatim>\<open>execute_pipeline\<close>.
\<close>

text \<open>From here on a call is known by its effect alone.\<close>

lemma ensures_sys_moves: "(\<And>a w'. moves 0 (fd_delta c a) w w' \<Longrightarrow> Q (a, w')) \<Longrightarrow> ensures (sys c w) Q"
  by (rule ensures_sys) (auto dest: called_moves)

lemma ensures_sysv_moves: "(\<And>a w'. moves 0 (fd_delta c a) w w' \<Longrightarrow> Q w') \<Longrightarrow> ensures (sysv c w) Q"
  by (rule ensures_sysv) (auto dest: called_moves)

declare ensures_sys [vcg del] ensures_sysv [vcg del]
declare ensures_sys_moves [vcg] ensures_sysv_moves [vcg]

section \<open>Calm steps\<close>

lemma setpgid_child_calm: "ensures (setpgid_child g w) (\<lambda>(r, w'). calm w w' \<and> r \<in> {0, -1})"
  unfolding setpgid_child_def by (intro vcg) auto

lemma setpgid_parent_calm: "ensures (setpgid_parent p g w) (\<lambda>(r, w'). calm w w' \<and> r \<in> {0, -1})"
  unfolding setpgid_parent_def by (intro vcg) auto

lemma set_cloexec_calm: "ensures (set_cloexec fd w) (\<lambda>(r, w'). calm w w')"
  unfolding set_cloexec_def by (intro vcg) (auto simp: move_simps)

lemma block_signals_calm: "ensures (child_block_startup_signals w) (\<lambda>w'. calm w w')"
  unfolding child_block_startup_signals_def by (intro vcg) (auto simp: move_simps)

lemma gate_release_calm: "ensures (startup_gate_release fd n w) (\<lambda>(r, w'). calm w w' \<and> r \<in> {0, -1})"
proof (induction n arbitrary: w)
  case (Suc n)
  show ?case unfolding startup_gate_release.simps
    by (intro vcg ensures_mono2 [OF Suc]) (auto intro: calm_trans)
qed (simp add: ensures_def)

lemma reap_pid_calm: "ensures (reap_pid pid w) (\<lambda>w'. calm w w')"
  unfolding reap_pid_def by (intro vcg) auto

lemma kill_logged_calm: "ensures (kill_logged t m w) (\<lambda>w'. calm w w')"
  unfolding kill_logged_def by (intro vcg) (auto simp: move_simps)

lemmas executor_calm1 [vcg] =
  ensures_mono2 [OF setpgid_child_calm] ensures_mono2 [OF setpgid_parent_calm]
  ensures_mono2 [OF set_cloexec_calm] ensures_mono [OF block_signals_calm]
  ensures_mono2 [OF gate_release_calm] ensures_mono [OF reap_pid_calm] ensures_mono [OF kill_logged_calm]

lemma rollback_single_calm: "ensures (rollback_single pid w) (\<lambda>w'. calm w w')"
  unfolding rollback_single_def by (intro vcg) (auto intro: calm_trans)

lemma kill_pids_calm: "ensures (kill_pids pids w) (\<lambda>w'. calm w w')"
proof (induction pids arbitrary: w)
  case (Cons p pids)
  show ?case unfolding kill_pids.simps
    by (intro vcg ensures_mono [OF Cons]) (auto intro: calm_trans)
qed (simp add: ensures_def)

lemma reap_pids_calm: "ensures (reap_pids pids w) (\<lambda>w'. calm w w')"
proof (induction pids arbitrary: w)
  case (Cons p pids)
  show ?case unfolding reap_pids.simps
    by (intro vcg ensures_mono [OF Cons]) (auto intro: calm_trans)
qed (simp add: ensures_def)

lemma rollback_pipeline_calm: "ensures (rollback_pipeline g pids w) (\<lambda>w'. calm w w')"
  unfolding rollback_pipeline_def
  by (intro vcg ensures_mono [OF kill_pids_calm] ensures_mono [OF reap_pids_calm]) (auto intro: calm_trans)

lemma restore_ignored_calm: "ensures (terminal_restore_ignored b w) (\<lambda>w'. calm w w')"
  unfolding terminal_restore_ignored_def by (intro vcg) auto

lemmas executor_calm2 [vcg] =
  ensures_mono [OF rollback_single_calm] ensures_mono [OF rollback_pipeline_calm]
  ensures_mono [OF restore_ignored_calm]

section \<open>Descriptors\<close>

text \<open>The balance of the two ends of a pipe.\<close>

definition two_fds :: "int \<times> int \<Rightarrow> int \<Rightarrow> int" where
  "two_fds g fd = of_bool (fd = fst g) + of_bool (fd = snd g)"

definition one_fd :: "int \<Rightarrow> int \<Rightarrow> int" where
  "one_fd k fd = of_bool (0 \<le> k \<and> fd = k)"

lemma gate_create_eff:
  "ensures (startup_gate_create w) (\<lambda>(r, gate, w').
     r = 0 \<and> 0 \<le> fst gate \<and> 0 \<le> snd gate \<and> moves 0 (two_fds gate) w w' \<or> r = -1 \<and> calm w w')"
  unfolding startup_gate_create_def
  by (intro vcg) (auto simp: move_simps two_fds_def)

lemma close_eff: "ensures (sysv (Sys_close k) w) (\<lambda>w'. moves 0 (\<lambda>fd. - of_bool (fd = k)) w w')"
  by (intro vcg) (auto simp: move_simps)

lemma close_if_eff: "ensures (close_if k w) (\<lambda>w'. moves 0 (\<lambda>fd. - one_fd k fd) w w')"
  unfolding close_if_def by (intro vcg) (auto simp: move_simps one_fd_def)

lemmas executor_fds [vcg] = ensures_mono3 [OF gate_create_eff] ensures_mono [OF close_if_eff]

lemma abandon_eff:
  assumes "pipefd = (-1, -1) \<or> 0 \<le> fst pipefd \<and> 0 \<le> snd pipefd"
  shows "ensures (abandon_pipeline gate pipefd pipe_fd g pids w)
     (\<lambda>w'. moves 0 (\<lambda>fd. - one_fd (fst pipefd) fd - one_fd (snd pipefd) fd - one_fd pipe_fd fd - two_fds gate fd) w w')"
  unfolding abandon_pipeline_def
  by (intro vcg) (auto simp: move_simps two_fds_def)

section \<open>The job table\<close>

lemma ensures_job_add [vcg]:
  assumes "\<And>j w'. j_pgid j = g \<Longrightarrow> j_processes j = [] \<Longrightarrow> j_status j = JOB_RUNNING \<Longrightarrow> job_ok j \<Longrightarrow>
      j_id j = nextid m \<Longrightarrow> 0 < g \<Longrightarrow> moves 1 (\<lambda>_. 0) w w' \<Longrightarrow>
      ensures (f (Some 0) (m\<lparr>jobs := j # jobs m, nextid := nextid m + 1\<rparr>) w') Q"
    and "\<And>w'. calm w w' \<Longrightarrow> ensures (f None m w') Q"
  shows "ensures (case job_add m g c w of (r, m', w') \<Rightarrow> f r m' w') Q"
proof -
  obtain r m' w' where add: "job_add m g c w = (r, m', w')" by (cases "job_add m g c w")
  then show ?thesis
  proof (cases rule: job_add_cases)
    case (added j)
    with add assms(1) took_moves show ?thesis by simp
  next
    case refused
    with add assms(2) took_moves show ?thesis by (simp add: calm_moves)
  qed
qed

lemma ensures_process_add [vcg]:
  assumes "\<And>w'. 0 < pid \<Longrightarrow> moves 1 (\<lambda>_. 0) w w' \<Longrightarrow>
      ensures (f 0 (j\<lparr>j_processes := j_processes j @ [new_process pid]\<rparr>) w') Q"
    and "\<And>w'. calm w w' \<Longrightarrow> ensures (f (-1) j w') Q"
  shows "ensures (case process_add j pid w of (r, j', w') \<Rightarrow> f r j' w') Q"
proof -
  obtain r j' w' where add: "process_add j pid w = (r, j', w')" by (cases "process_add j pid w")
  then show ?thesis by (cases rule: process_add_cases) (use add assms took_moves in \<open>simp_all add: calm_moves\<close>)
qed

text \<open>Several processes: all of them, or a prefix and a failure.\<close>

lemma add_processes_eff:
  "add_processes j pids w = (r, j', w') \<Longrightarrow>
     \<exists>ps. j' = j\<lparr>j_processes := j_processes j @ map new_process ps\<rparr> \<and> took (int (length ps)) w w' \<and>
       (\<forall>p\<in>set ps. 0 < p) \<and> (r = 0 \<and> ps = pids \<or> r = -1)"
proof (induction pids arbitrary: j w)
  case Nil
  then show ?case by (auto intro!: exI [of _ "[]"])
next
  case (Cons pid pids)
  obtain r1 j1 w1 where add: "process_add j pid w = (r1, j1, w1)" by (cases "process_add j pid w")
  then show ?case
  proof (cases rule: process_add_cases)
    case added
    with Cons.prems add have "add_processes j1 pids w1 = (r, j', w')" by simp
    from Cons.IH [OF this] obtain ps where "j' = j1\<lparr>j_processes := j_processes j1 @ map new_process ps\<rparr>"
        "took (int (length ps)) w1 w'" "\<forall>p\<in>set ps. 0 < p" "r = 0 \<and> ps = pids \<or> r = -1" by blast
    with added show ?thesis
      by (intro exI [of _ "pid # ps"]) (auto simp: took_def intro: same_statics_trans)
  next
    case refused
    with Cons.prems add show ?thesis by (auto intro!: exI [of _ "[]"])
  qed
qed

lemma ensures_add_processes [vcg]:
  assumes "\<And>ps r w'. moves (int (length ps)) (\<lambda>_. 0) w w' \<Longrightarrow> \<forall>p\<in>set ps. 0 < p \<Longrightarrow> r = 0 \<and> ps = pids \<or> r = -1 \<Longrightarrow>
      ensures (f r (j\<lparr>j_processes := j_processes j @ map new_process ps\<rparr>) w') Q"
  shows "ensures (case add_processes j pids w of (r, j', w') \<Rightarrow> f r j' w') Q"
proof -
  obtain r j' w' where add: "add_processes j pids w = (r, j', w')" by (cases "add_processes j pids w")
  from add_processes_eff [OF add] add assms show ?thesis by (auto dest: took_moves)
qed

lemma ensures_ctx_remove [vcg]:
  "(\<And>ctx' w'. ctx_remove g ctx w = (ctx', w') \<Longrightarrow> ensures (f ctx' w') Q) \<Longrightarrow>
     ensures (case ctx_remove g ctx w of (ctx', w') \<Rightarrow> f ctx' w') Q"
  by (cases "ctx_remove g ctx w") simp

lemma ensures_job_remove [vcg]:
  "(\<And>m' w'. job_remove m g w = (m', w') \<Longrightarrow> ensures (f m' w') Q) \<Longrightarrow>
     ensures (case job_remove m g w of (m', w') \<Rightarrow> f m' w') Q"
  by (cases "job_remove m g w") simp

lemma ensures_case_Some [vcg]: "ensures (f x) Q \<Longrightarrow> ensures (case Some x of None \<Rightarrow> m | Some x \<Rightarrow> f x) Q"
  by simp

lemma ensures_case_None [vcg]: "ensures m Q \<Longrightarrow> ensures (case None of None \<Rightarrow> m | Some x \<Rightarrow> f x) Q"
  by simp

lemma remove_head:
  "0 < g \<Longrightarrow> j_pgid j = g \<Longrightarrow> jobs (ctx_jobs ctx) = j # js \<Longrightarrow>
     ctx_remove g ctx w = (ctx\<lparr>ctx_jobs := (ctx_jobs ctx)\<lparr>jobs := js\<rparr>\<rparr>, free_blocks (job_blocks j) w)"
  by (simp add: ctx_remove_def job_remove_def)

lemma inv_same_jobs:
  "table_inv n m w \<Longrightarrow> jobs m' = jobs m \<Longrightarrow> nextid m \<le> nextid m' \<Longrightarrow> w_live w' = w_live w \<Longrightarrow> table_inv n m' w'"
  by (fastforce simp: table_inv_def table_ok_def table_blocks_def)

lemma inv_new_job:
  "table_inv n m w \<Longrightarrow> jobs m' = hd (jobs m') # jobs m \<Longrightarrow> nextid m' = nextid m + 1 \<Longrightarrow>
     j_id (hd (jobs m')) = nextid m \<Longrightarrow> job_ok (hd (jobs m')) \<Longrightarrow>
     w_live w' = w_live w + job_blocks (hd (jobs m')) \<Longrightarrow> table_inv n m' w'"
  by (cases "jobs m'") (auto simp: table_inv_def table_ok_def table_blocks_def)

section \<open>Starting, waiting, finishing\<close>

text \<open>
  \<open>kept ctx ctx'\<close>: nothing of the context changed but the job table and, possibly, that the shell
  is to stop. \<open>launched\<close>: the table has one new job, running, with the processes \<open>pids\<close>.
\<close>

definition kept :: "ShellContext \<Rightarrow> ShellContext \<Rightarrow> bool" where
  "kept ctx ctx' \<longleftrightarrow> last_exit_status ctx' = last_exit_status ctx \<and> config ctx' = config ctx \<and>
     config_file ctx' = config_file ctx \<and> input_buffer ctx' = input_buffer ctx \<and>
     input_discarding ctx' = input_discarding ctx \<and> (running ctx' \<longrightarrow> running ctx)"

lemma kept_refl [simp]: "kept ctx ctx"
  by (simp add: kept_def)

lemma kept_trans: "kept a b \<Longrightarrow> kept b c \<Longrightarrow> kept a c"
  by (simp add: kept_def)

definition launched :: "Job list \<Rightarrow> int \<Rightarrow> int list \<Rightarrow> Job list \<Rightarrow> bool" where
  "launched js pgid pids js' \<longleftrightarrow>
     (\<exists>j. js' = j # js \<and> j_pgid j = pgid \<and> j_processes j = map new_process pids \<and> j_status j = JOB_RUNNING)"

lemma new_job_ok:
  "job_ok j \<Longrightarrow> j_status j = JOB_RUNNING \<Longrightarrow> j_processes j = [] \<Longrightarrow> \<forall>p\<in>set ps. 0 < p \<Longrightarrow>
     job_ok (j\<lparr>j_processes := map new_process ps\<rparr>)"
  by (cases ps rule: rev_cases) (auto simp: job_ok_def)

lemma new_single_ok:
  "job_ok j \<Longrightarrow> j_status j = JOB_RUNNING \<Longrightarrow> j_processes j = [] \<Longrightarrow> 0 < p \<Longrightarrow>
     job_ok (j\<lparr>j_processes := [new_process p]\<rparr>)"
  using new_job_ok [of j "[p]"] by simp

text \<open>The descriptors change by \<open>d\<close>; the heap is accounted for by the invariant of the table.\<close>

definition fds_by :: "(int \<Rightarrow> int) \<Rightarrow> world \<Rightarrow> world \<Rightarrow> bool" where
  "fds_by d w w' \<longleftrightarrow> (\<exists>l. moves l d w w')"

lemma launch_single_eff:
  assumes "table_inv n (ctx_jobs ctx) w" and "0 < pid"
  shows "ensures (launch_single com ctx gate ta pid w) (\<lambda>(s, ctx', w').
     fds_by (\<lambda>fd. - two_fds gate fd) w w' \<and> table_inv n (ctx_jobs ctx') w' \<and> kept ctx ctx' \<and>
     (case s of
        Inl r \<Rightarrow> r < 0 \<and> jobs (ctx_jobs ctx') = jobs (ctx_jobs ctx)
      | Inr i \<Rightarrow> i = 0 \<and> launched (jobs (ctx_jobs ctx)) pid [pid] (jobs (ctx_jobs ctx'))))"
  unfolding launch_single_def
  using assms
  using assms
  by (intro vcg; simp add: ctx_remove_def job_remove_def launched_def kept_def fds_by_def)
    ((auto simp: move_simps two_fds_def job_blocks_def)[1],
     ((erule inv_same_jobs; simp add: w_live_view; fail) |
      (erule inv_new_job; simp add: w_live_view job_blocks_def new_single_ok; fail))+)+

text \<open>
  How a foreground job ends: it is done and forgotten, or stopped and kept, or the terminal was lost
  and the shell is to stop.
\<close>

definition finished :: "Job \<Rightarrow> Job list \<Rightarrow> ShellContext \<Rightarrow> int \<Rightarrow> ShellContext \<Rightarrow> bool" where
  "finished j js ctx r ctx' \<longleftrightarrow>
     jobs (ctx_jobs ctx') = js \<and> j_status j = JOB_DONE \<and> r = (if job_exit_status j < 0 then -1 else job_exit_status j) \<or>
     (\<exists>j'. jobs (ctx_jobs ctx') = j' # js \<and> same_job j j' \<and> j_status j' = j_status j \<and>
        (r = 0 \<and> j_status j = JOB_STOPPED \<or> r = -1 \<and> \<not> running ctx'))"

lemma inv_drop:
  "table_inv n m w \<Longrightarrow> jobs m = j # js \<Longrightarrow> jobs m' = js \<Longrightarrow> nextid m' = nextid m \<Longrightarrow>
     w_live w' = w_live w - job_blocks j \<Longrightarrow> table_inv n m' w'"
  by (auto simp: table_inv_def table_ok_def table_blocks_def)

text \<open>Jobs that differ in their terminal modes only.\<close>

definition but_modes :: "Job \<Rightarrow> Job \<Rightarrow> bool" where
  "but_modes j j' \<longleftrightarrow> j_id j' = j_id j \<and> j_pgid j' = j_pgid j \<and> j_status j' = j_status j \<and>
     j_command j' = j_command j \<and> j_processes j' = j_processes j"

lemma but_modes_facts:
  "but_modes j j' \<Longrightarrow> same_job j j' \<and> j_status j' = j_status j \<and> j_pgid j' = j_pgid j \<and>
     job_exit_status j' = job_exit_status j \<and> job_blocks j' = job_blocks j"
  by (auto simp: but_modes_def same_job_def job_ok_def job_exit_status_def job_last_process_def job_blocks_def)

lemma save_modes_eff: "ensures (save_modes j ta w) (\<lambda>(j', w'). calm w w' \<and> but_modes j j')"
  unfolding save_modes_def by (intro vcg) (auto simp: but_modes_def)

lemma put_head [simp]: "jobs m = j # js \<Longrightarrow> jobs (put_job 0 k m) = k # js"
  by simp

lemma inv_put_head:
  "table_inv n m w \<Longrightarrow> jobs m = j # js \<Longrightarrow> same_job j k \<Longrightarrow> w_live w' = w_live w \<Longrightarrow> table_inv n (put_job 0 k m) w'"
  by (rule put_inv) auto

lemma finish_eff:
  assumes "table_inv n (ctx_jobs ctx) w" and "jobs (ctx_jobs ctx) = j # js" and "j_status j \<noteq> JOB_RUNNING"
  shows "ensures (finish_foreground_job ctx 0 ta w) (\<lambda>(r, ctx', w').
     fds_by (\<lambda>_. 0) w w' \<and> table_inv n (ctx_jobs ctx') w' \<and> kept ctx ctx' \<and> finished j js ctx r ctx')"
proof -
  have ok: "0 < j_pgid j" using assms(1,2) by (auto simp: table_inv_def table_ok_def job_ok_def)
  have "j_status j = JOB_DONE \<or> j_status j = JOB_STOPPED" using assms(3) by (cases "j_status j") simp_all
  note status = this
  have keep: "table_inv n (put_job 0 x (ctx_jobs ctx)) v" if "but_modes j x" "view v = view w" for x v
    using assms(1,2) but_modes_facts [OF that(1)] that(2) by (intro inv_put_head) (auto simp: w_live_view)
  have drop: "table_inv n ((put_job 0 x (ctx_jobs ctx))\<lparr>jobs := js\<rparr>) (free_blocks (job_blocks j) v)"
    if "but_modes j x" "view v = view w" for x v
    by (rule inv_drop [OF keep [OF that], of x js]) (use assms(2) but_modes_facts [OF that(1)] in auto)
  show ?thesis
    unfolding finish_foreground_job_def
    by (intro vcg ensures_mono2 [OF save_modes_eff];
        use assms(2) ok status but_modes_facts [of j] in
          \<open>simp add: kept_def fds_by_def finished_def job_remove_def move_simps\<close>)
      (auto intro: keep drop)
qed

lemma finish_head_eff:
  "table_inv n (ctx_jobs ctx) w \<Longrightarrow> jobs (ctx_jobs ctx) \<noteq> [] \<Longrightarrow> j_status (hd (jobs (ctx_jobs ctx))) \<noteq> JOB_RUNNING \<Longrightarrow>
     ensures (finish_foreground_job ctx 0 ta w) (\<lambda>(r, ctx', w').
       fds_by (\<lambda>_. 0) w w' \<and> table_inv n (ctx_jobs ctx') w' \<and> kept ctx ctx' \<and>
       finished (hd (jobs (ctx_jobs ctx))) (tl (jobs (ctx_jobs ctx))) ctx r ctx')"
  by (rule finish_eff) auto

text \<open>
  The result of running one command line in the parent: a job left in the table is the newest one
  and is running in the background or stopped, or the terminal was lost; a negative result of a shell
  that goes on leaves no job behind.
\<close>

definition ran :: "ShellContext \<Rightarrow> int \<Rightarrow> ShellContext \<Rightarrow> bool" where
  "ran ctx r ctx' \<longleftrightarrow>
     (jobs (ctx_jobs ctx') = jobs (ctx_jobs ctx) \<or> (\<exists>j. jobs (ctx_jobs ctx') = j # jobs (ctx_jobs ctx))) \<and>
     (r < 0 \<and> running ctx' \<longrightarrow> jobs (ctx_jobs ctx') = jobs (ctx_jobs ctx)) \<and> (r < 0 \<or> 0 \<le> r \<and> r \<le> 255)"

lemma exit_status_bounds: "job_exit_status j \<le> 255"
  using exit_status_range
  by (auto simp: job_exit_status_def wait_defs split: option.splits if_splits)

lemma finished_ran:
  "finished j (jobs (ctx_jobs ctx0)) ctx r ctx' \<Longrightarrow> ran ctx0 r ctx'"
  using exit_status_bounds [of j] by (auto simp: finished_def ran_def)

lemma kept_jobs [simp]:
  "kept c (ctx\<lparr>ctx_jobs := m\<rparr>) = kept c ctx" "kept (c\<lparr>ctx_jobs := m\<rparr>) ctx = kept c ctx"
  by (simp_all add: kept_def)

lemma await_single_eff:
  assumes "i = 0" and "table_inv n (ctx_jobs ctx) w" and "launched js pid [pid] (jobs (ctx_jobs ctx))"
  shows "ensures (await_single com ctx ta pid i w) (\<lambda>(r, ctx', w').
     fds_by (\<lambda>_. 0) w w' \<and> table_inv n (ctx_jobs ctx') w' \<and> kept ctx ctx' \<and>
     (\<forall>ctx0. jobs (ctx_jobs ctx0) = js \<longrightarrow> ran ctx0 r ctx'))"
proof -
  from assms(3) obtain j where j: "jobs (ctx_jobs ctx) = j # js" "j_pgid j = pid" by (auto simp: launched_def)
  then have pid: "0 < pid" using assms(2) by (auto simp: table_inv_def table_ok_def job_ok_def)
  show ?thesis
    unfolding await_single_def assms(1)
  proof (intro vcg ensures_mono3 [OF finish_head_eff [where n = n]], goal_cases)
    case 1
    then show ?case using assms(2) j by (auto simp: fds_by_def moves_def ran_def)
  next
    case (2 r j' w1 w2 w3 ctx' w4)
    then have "table_inv n (put_job 0 j' (ctx_jobs ctx)) w3"
      using assms(2) j by (intro inv_put_head) (auto simp: move_simps w_live_view)
    with 2 j pid show ?case
      using inv_drop [of n "put_job 0 j' (ctx_jobs ctx)" w3 j' js "(put_job 0 j' (ctx_jobs ctx))\<lparr>jobs := js\<rparr>" w4]
      by (auto simp: ctx_remove_def job_remove_def same_job_def fds_by_def move_simps ran_def w_live_view)
  next
    case (3 r j' w1)
    then show ?case using assms(2) j by (auto simp: move_simps w_live_view intro: inv_put_head)
  next
    case (4 r j' w1)
    then show ?case using j by simp
  next
    case (5 r j' w1)
    then show ?case using j by auto
  next
    case (6 r j' w1 r2 ctx' w2)
    then show ?case using j by (auto simp: fds_by_def move_simps intro: finished_ran)
  qed
qed

text \<open>What holds of a whole run that ends in the parent.\<close>

definition parent_ok :: "int \<Rightarrow> ShellContext \<Rightarrow> world \<Rightarrow> (int \<times> ShellContext) outcome \<times> world \<Rightarrow> bool" where
  "parent_ok n ctx w res \<longleftrightarrow>
     (\<forall>r ctx'. fst res = Parent (r, ctx') \<longrightarrow>
        fds_by (\<lambda>_. 0) w (snd res) \<and> table_inv n (ctx_jobs ctx') (snd res) \<and> kept ctx ctx' \<and> ran ctx r ctx')"

lemma parent_ok_simps [simp]:
  "parent_ok n ctx w (Child_gone, w')"
  "parent_ok n ctx w (Parent (r, ctx'), w') \<longleftrightarrow>
     fds_by (\<lambda>_. 0) w w' \<and> table_inv n (ctx_jobs ctx') w' \<and> kept ctx ctx' \<and> ran ctx r ctx'"
  by (auto simp: parent_ok_def)

lemma ensures_child [vcg]:
  "(\<And>w'. Q w') \<Longrightarrow> ensures (child_single com g w) Q"
  "(\<And>w'. Q w') \<Longrightarrow> ensures (child_pipeline com b g p k pgid w) Q"
  by (simp_all add: ensures_def)

lemma ran_same: "r < 0 \<Longrightarrow> jobs (ctx_jobs ctx') = jobs (ctx_jobs ctx) \<Longrightarrow> ran ctx r ctx'"
  by (simp add: ran_def)

lemma inv_calm: "table_inv n m w \<Longrightarrow> view w' = vmove 0 d (view w) \<Longrightarrow> table_inv n m w'"
  by (erule inv_same_jobs) (simp_all add: w_live_view)

lemma execute_single_eff:
  assumes inv: "table_inv n (ctx_jobs ctx) w"
  shows "ensures (execute_single com ctx w) (parent_ok n ctx w)"
  unfolding execute_single_def
  using inv
  apply (intro vcg ensures_sum ensures_mono3 [OF launch_single_eff [where n = n]]
    ensures_mono3 [OF await_single_eff [where n = n and js = "jobs (ctx_jobs ctx)"]])
  apply (auto simp: fds_by_def move_simps two_fds_def ran_same intro: inv_calm kept_trans)
  done

section \<open>Pipelines\<close>

text \<open>The result of the start loop: all commands started, or everything closed and killed.\<close>

definition pipeline_result ::
  "int \<times> int \<Rightarrow> Command list \<Rightarrow> int list \<Rightarrow> int \<Rightarrow> int \<Rightarrow> world \<Rightarrow> pipeline_start \<Rightarrow> world \<Rightarrow> bool" where
  "pipeline_result gate cs pids pgid pipe_fd w s w' \<longleftrightarrow>
     (case s of
        Pipeline_child \<Rightarrow> True
      | Pipeline_failed r \<Rightarrow> r < 0 \<and> moves 0 (\<lambda>fd. - one_fd pipe_fd fd - two_fds gate fd) w w'
      | Pipeline_started pids' pgid' pipe_fd' \<Rightarrow>
          moves 0 (\<lambda>fd. one_fd pipe_fd' fd - one_fd pipe_fd fd) w w' \<and> (\<forall>p\<in>set pids'. 0 < p) \<and>
          (\<exists>ps. pids' = pids @ ps \<and> length ps = length cs) \<and> (cs \<noteq> [] \<or> pgid \<noteq> 0 \<longrightarrow> pgid' \<noteq> 0) \<and>
          (pgid \<noteq> 0 \<longrightarrow> pgid' = pgid))"

lemma pipeline_result_simps [simp]:
  "pipeline_result gate cs pids pgid pipe_fd w Pipeline_child w'"
  "pipeline_result gate cs pids pgid pipe_fd w (Pipeline_failed r) w' \<longleftrightarrow>
     r < 0 \<and> moves 0 (\<lambda>fd. - one_fd pipe_fd fd - two_fds gate fd) w w'"
  "pipeline_result gate cs pids pgid pipe_fd w (Pipeline_started pids' pgid' pipe_fd') w' \<longleftrightarrow>
     moves 0 (\<lambda>fd. one_fd pipe_fd' fd - one_fd pipe_fd fd) w w' \<and> (\<forall>p\<in>set pids'. 0 < p) \<and>
     (\<exists>ps. pids' = pids @ ps \<and> length ps = length cs) \<and> (cs \<noteq> [] \<or> pgid \<noteq> 0 \<longrightarrow> pgid' \<noteq> 0) \<and>
     (pgid \<noteq> 0 \<longrightarrow> pgid' = pgid)"
  by (simp_all add: pipeline_result_def)

lemma one_fd_simps [simp]: "one_fd (-1) fd = 0" "0 \<le> k \<Longrightarrow> one_fd k fd = of_bool (fd = k)"
  by (simp_all add: one_fd_def)

lemma pipeline_result_step:
  assumes "pipeline_result gate rest (pids @ [pid]) pgid1 pipe_fd1 v s w'" and "pgid1 = (if pgid = 0 then pid else pgid)"
    and "moves 0 (\<lambda>fd. one_fd pipe_fd1 fd - one_fd pipe_fd fd) w v" and "pid \<noteq> 0"
  shows "pipeline_result gate (c # rest) pids pgid pipe_fd w s w'"
  using assms by (cases s) (auto simp: moves_def)

lemma pipe_ends_D: "pipe_ends a = (x, y) \<Longrightarrow> 0 \<le> x \<and> 0 \<le> y"
  using pipe_ends_nonneg [of a] by simp

lemma start_pipeline_eff:
  "\<forall>p\<in>set pids. 0 < p \<Longrightarrow>
     ensures (start_pipeline gate cs pids pgid pipe_fd w) (\<lambda>(s, w'). pipeline_result gate cs pids pgid pipe_fd w s w')"
proof (induction cs arbitrary: pids pgid pipe_fd w)
  case Nil
  then show ?case by (simp add: ensures_def moves_def)
next
  case (Cons c rest)
  show ?case unfolding start_pipeline.simps
    using Cons.prems
    apply (intro vcg ensures_option ensures_mono2 [OF Cons.IH] ensures_mono [OF abandon_eff])
    apply (auto simp: move_simps two_fds_def intro: pipeline_result_step dest: pipe_ends_D split: if_splits)
     apply (erule pipeline_result_step; force simp: moves_def dest: pipe_ends_D)+
    done
qed

lemma new_pipeline_ok:
  "job_ok j \<Longrightarrow> j_status j = JOB_RUNNING \<Longrightarrow> j_processes j = [] \<Longrightarrow> \<forall>p\<in>set ps. 0 < p \<Longrightarrow>
     job_ok (j\<lparr>j_processes := map new_process ps\<rparr>)"
  by (rule new_job_ok)

lemma launch_pipeline_eff:
  assumes "table_inv n (ctx_jobs ctx) w"
  shows "ensures (launch_pipeline com ctx gate ta pids pgid pipe_fd w) (\<lambda>(s, ctx', w').
     fds_by (\<lambda>fd. - one_fd pipe_fd fd - two_fds gate fd) w w' \<and> table_inv n (ctx_jobs ctx') w' \<and> kept ctx ctx' \<and>
     (case s of
        Inl r \<Rightarrow> r < 0 \<and> jobs (ctx_jobs ctx') = jobs (ctx_jobs ctx)
      | Inr i \<Rightarrow> i = 0 \<and> launched (jobs (ctx_jobs ctx)) pgid pids (jobs (ctx_jobs ctx'))))"
  unfolding launch_pipeline_def
  using assms
  by (intro vcg; simp add: ctx_remove_def job_remove_def launched_def kept_def fds_by_def)
    ((auto simp: move_simps two_fds_def job_blocks_def)[1],
     ((erule inv_same_jobs; simp add: w_live_view; fail) |
      (erule inv_new_job; simp add: w_live_view job_blocks_def new_pipeline_ok; fail))+)+

lemma await_pipeline_eff:
  assumes "i = 0" and "table_inv n (ctx_jobs ctx) w" and "launched js pgid pids (jobs (ctx_jobs ctx))"
  shows "ensures (await_pipeline com ctx ta pids pgid i w) (\<lambda>(r, ctx', w').
     fds_by (\<lambda>_. 0) w w' \<and> table_inv n (ctx_jobs ctx') w' \<and> kept ctx ctx' \<and>
     (\<forall>ctx0. jobs (ctx_jobs ctx0) = js \<longrightarrow> ran ctx0 r ctx'))"
proof -
  from assms(3) obtain j where j: "jobs (ctx_jobs ctx) = j # js" "j_pgid j = pgid" by (auto simp: launched_def)
  then have pgid: "0 < pgid" using assms(2) by (auto simp: table_inv_def table_ok_def job_ok_def)
  show ?thesis
    unfolding await_pipeline_def assms(1)
  proof (intro vcg ensures_mono3 [OF finish_head_eff [where n = n]], goal_cases)
    case 1
    then show ?case using assms(2) j by (auto simp: fds_by_def moves_def ran_def)
  next
    case (2 r j' w1 w2 w3 ctx' w4)
    then have "table_inv n (put_job 0 j' (ctx_jobs ctx)) w3"
      using assms(2) j by (intro inv_put_head) (auto simp: move_simps w_live_view)
    with 2 j pgid show ?case
      using inv_drop [of n "put_job 0 j' (ctx_jobs ctx)" w3 j' js "(put_job 0 j' (ctx_jobs ctx))\<lparr>jobs := js\<rparr>" w4]
      by (auto simp: ctx_remove_def job_remove_def same_job_def fds_by_def move_simps ran_def w_live_view)
  next
    case (3 r j' w1)
    then show ?case using assms(2) j by (auto simp: move_simps w_live_view intro: inv_put_head)
  next
    case (4 r j' w1)
    then show ?case using j by simp
  next
    case (5 r j' w1)
    then show ?case using j by auto
  next
    case (6 r j' w1 r2 ctx' w2)
    then show ?case using j by (auto simp: fds_by_def move_simps intro: finished_ran)
  qed
qed

lemma ensures_started:
  assumes "s = Pipeline_child \<Longrightarrow> ensures x Q" and "\<And>r. s = Pipeline_failed r \<Longrightarrow> ensures (y r) Q"
    and "\<And>a b c. s = Pipeline_started a b c \<Longrightarrow> ensures (z a b c) Q"
  shows "ensures (case s of Pipeline_started a b c \<Rightarrow> z a b c | Pipeline_failed r \<Rightarrow> y r | Pipeline_child \<Rightarrow> x) Q"
  using assms by (cases s) simp_all

lemma execute_pipeline_eff:
  assumes inv: "table_inv n (ctx_jobs ctx) w"
  shows "ensures (execute_pipeline com rest ctx w) (parent_ok n ctx w)"
  unfolding execute_pipeline_def
  using inv
  apply (intro vcg ensures_sum ensures_started ensures_mono2 [OF start_pipeline_eff]
    ensures_mono3 [OF launch_pipeline_eff [where n = n]]
    ensures_mono3 [OF await_pipeline_eff [where n = n and js = "jobs (ctx_jobs ctx)"]])
  apply (auto simp: fds_by_def move_simps two_fds_def ran_same intro: inv_calm kept_trans)
  done

end
