(* ===== verification/Executor_Calls.thy ===== *)
theory Executor_Calls
  imports Executor
begin

text \<open>
  Which calls the executor makes, and in what order: a child replaces the program only after it was
  let through the startup gate, and a start that fails kills and reaps every child it made.
\<close>

section \<open>The child and the gate\<close>

definition is_exec :: "syscall \<Rightarrow> bool" where
  "is_exec c = (case c of Sys_execvp _ _ \<Rightarrow> True | _ \<Rightarrow> False)"

lemma is_exec_simps [simp]:
  "is_exec (Sys_execvp f v)" "\<not> is_exec (Sys_close k)" "\<not> is_exec (Sys_sigprocmask h s)"
  "\<not> is_exec (Sys_setpgid p g)" "\<not> is_exec (Sys_read p n)" "\<not> is_exec (Sys_sigaction sg d mk)"
  "\<not> is_exec Sys_getpid" "\<not> is_exec (Sys_dup2 p q)" "\<not> is_exec (Sys_open f m)" "\<not> is_exec (Sys_exit st)"
  by (simp_all add: is_exec_def)

abbreviation (input) no_exec :: "world \<Rightarrow> world \<Rightarrow> bool" where
  "no_exec \<equiv> calls_only (\<lambda>c. \<not> is_exec c)"

text \<open>The answer that lets a child through: one byte, a G.\<close>

definition lets_through :: "answer \<Rightarrow> bool" where
  "lets_through a \<longleftrightarrow> a_ret a = 1 \<and> take 1 (a_bytes a) = ''G''"

text \<open>
  \<open>released fd w w'\<close>: on the way from \<open>w\<close> to \<open>w'\<close> the gate \<open>fd\<close> answered with a G, and there was no
  exec before that.
\<close>

definition released :: "int \<Rightarrow> world \<Rightarrow> world \<Rightarrow> bool" where
  "released fd w w' \<longleftrightarrow>
     (\<exists>t1 a t2. w_trace w' = w_trace w @ t1 @ (Sys_read fd 1, a) # t2 \<and> lets_through a \<and>
        (\<forall>x\<in>set t1. \<not> is_exec (fst x)))"

lemma calls_only_extend: "calls_only P v w \<Longrightarrow> \<exists>t. w_trace w = w_trace v @ t"
  by (auto simp: calls_only_def)

lemma released_before: "no_exec u v \<Longrightarrow> released fd v w \<Longrightarrow> released fd u w"
proof -
  assume "no_exec u v" "released fd v w"
  then obtain t t1 a t2 where "w_trace v = w_trace u @ t" "\<forall>x\<in>set t. \<not> is_exec (fst x)" "lets_through a"
      "w_trace w = w_trace v @ t1 @ (Sys_read fd 1, a) # t2" "\<forall>x\<in>set t1. \<not> is_exec (fst x)"
    by (auto simp: released_def calls_only_def)
  then show "released fd u w"
    unfolding released_def by (intro exI [of _ "t @ t1"] exI [of _ a] exI [of _ t2]) auto
qed

lemma released_after: "released fd u v \<Longrightarrow> calls_only P v w \<Longrightarrow> released fd u w"
  by (fastforce simp: released_def calls_only_def)

lemma released_now:
  "called (Sys_read fd 1) a w w' \<Longrightarrow> lets_through a \<Longrightarrow> released fd w w'"
  by (fastforce simp: released_def called_def)

lemmas no_exec_paths =
  paths sys_calls [where P = "\<lambda>c. \<not> is_exec c"] sysv_calls [where P = "\<lambda>c. \<not> is_exec c"]
  sys_retry_calls [where P = "\<lambda>c. \<not> is_exec c"] ensures_option

lemma exit_no_exec [simp]: "calls_only P u w \<Longrightarrow> P (Sys_exit n) \<Longrightarrow> calls_only P u (exit_process n w)"
  by (auto simp: calls_only_def exit_process_def)

lemma exit_released: "released fd u w \<Longrightarrow> released fd u (exit_process n w)"
  by (rule released_after [where P = "\<lambda>_. True"]) (auto simp: calls_only_def exit_process_def)

lemma exit_behind: "no_exec u w \<Longrightarrow> no_exec u (exit_process n w)"
  by simp

lemma block_no_exec: "ensures (child_block_startup_signals w) (\<lambda>w'. no_exec w w')"
  unfolding child_block_startup_signals_def by (intro no_exec_paths) auto

lemma setpgid_no_exec: "ensures (setpgid_child g w) (\<lambda>(r, w'). no_exec w w')"
  unfolding setpgid_child_def by (intro no_exec_paths) auto

lemma event_no_exec: "ensures (event_close_in_child w) (\<lambda>w'. no_exec w w')"
  unfolding event_close_in_child_def event_shut_def
  by (intro no_exec_paths) (auto simp: calls_only_def)

lemma reset_no_exec: "ensures (signal_reset_child w) (\<lambda>w'. no_exec w w')"
  unfolding signal_reset_child_def
  by (intro no_exec_paths) (auto simp: calls_only_def)

lemma gate_wait_calls:
  "ensures (startup_gate_wait fd w) (\<lambda>(r, w'). r = 0 \<and> released fd w w' \<or> r = -1 \<and> no_exec w w')"
proof (induction w rule: script_induct)
  case (less w)
  show ?case
    by (subst startup_gate_wait.simps, intro vcg ensures_mono2 [OF less])
      (auto simp: lets_through_def intro: calls_only_called calls_only_trans [OF calls_only_called]
         released_before [OF calls_only_called] released_now, auto simp: called_def)
qed

lemma child_prepare_calls:
  "ensures (child_prepare_before_gate gr gw pgid w)
     (\<lambda>(go, w'). if go then released gr w w' else no_exec w w')"
  unfolding child_prepare_before_gate_def
  by (intro no_exec_paths ensures_mono [OF block_no_exec] ensures_mono2 [OF setpgid_no_exec]
      ensures_mono [OF event_no_exec] ensures_mono2 [OF gate_wait_calls] ensures_mono [OF reset_no_exec];
      clarsimp)
    (blast intro: exit_behind calls_only_trans released_before released_after)+

lemma redirect_fd_no_exec: "ensures (redirect_fd fd k w) (\<lambda>(r, w'). no_exec w w')"
  unfolding redirect_fd_def by (intro no_exec_paths) (auto intro: calls_only_trans)

lemma open_redirect_no_exec: "ensures (open_redirect f fl k m1 m2 w) (\<lambda>(r, w'). no_exec w w')"
  unfolding open_redirect_def
  by (intro no_exec_paths ensures_mono2 [OF redirect_fd_no_exec]) (auto intro: calls_only_trans)

lemma setredirect_no_exec: "ensures (setredirect com w) (\<lambda>(r, w'). no_exec w w')"
  unfolding setredirect_def
  by (intro no_exec_paths ensures_mono2 [OF open_redirect_no_exec]) (auto intro: calls_only_trans)

lemma close_if_no_exec: "ensures (close_if k w) (\<lambda>w'. no_exec w w')"
  unfolding close_if_def by (intro no_exec_paths) auto

lemma plumbing_no_exec: "ensures (child_plumbing n p k w) (\<lambda>(r, w'). no_exec w w')"
  unfolding child_plumbing_def
  by (intro no_exec_paths ensures_mono2 [OF redirect_fd_no_exec] ensures_mono [OF close_if_no_exec])
    (auto intro: calls_only_trans)

lemma run_process_calls: "ensures (run_process com w) (\<lambda>w'. calls_only (\<lambda>_. True) w w')"
  unfolding run_process_def by (intro vcg) (auto simp: calls_only_def called_def exit_process_def)

text \<open>What a child does as a whole: it stays behind the gate and never execs, or was released.\<close>

definition gated :: "int \<Rightarrow> world \<Rightarrow> world \<Rightarrow> bool" where
  "gated fd w w' \<longleftrightarrow> no_exec w w' \<or> released fd w w'"

lemma gated_released: "released fd u w \<Longrightarrow> gated fd u w"
  by (simp add: gated_def)

lemma gated_behind: "no_exec u w \<Longrightarrow> gated fd u w"
  by (simp add: gated_def)

lemma any_calls: "no_exec u w \<Longrightarrow> calls_only (\<lambda>_. True) u w"
  by (erule calls_only_mono) simp

lemma child_exec_calls: "ensures (child_exec com w) (\<lambda>w'. calls_only (\<lambda>_. True) w w')"
  unfolding child_exec_def
  by (intro paths ensures_mono2 [OF setredirect_no_exec] ensures_mono [OF run_process_calls])
    (auto intro: any_calls calls_only_trans [OF any_calls])

lemma gated_after: "released fd u v \<Longrightarrow> calls_only (\<lambda>_. True) v w \<Longrightarrow> gated fd u w"
  by (rule gated_released) (rule released_after)

lemma gated_exit: "released fd u v \<Longrightarrow> no_exec v w \<Longrightarrow> gated fd u (exit_process n w)"
  by (rule gated_released, rule exit_released) (rule released_after)

lemma child_single_gated: "ensures (child_single com gate w) (\<lambda>w'. gated (fst gate) w w')"
  unfolding child_single_def
  by (intro paths ensures_mono2 [OF child_prepare_calls] ensures_mono [OF child_exec_calls])
    (auto intro: gated_behind gated_after)

lemma gated_before: "no_exec u v \<Longrightarrow> gated fd v w \<Longrightarrow> gated fd u w"
  by (auto simp: gated_def intro: calls_only_trans released_before)

lemma child_pipeline_gated:
  "ensures (child_pipeline com has_next gate pipefd pipe_fd pgid w) (\<lambda>w'. gated (fst gate) w w')"
proof -
  have tail: "ensures (do {
      (go, w) \<leftarrow> child_prepare_before_gate (fst gate) (snd gate) g w;
      if \<not> go then Some w
      else do {
        (r, w) \<leftarrow> child_plumbing has_next pipefd pipe_fd w;
        if r \<noteq> OK then Some (exit_process 1 w) else child_exec com w } }) (\<lambda>w'. gated (fst gate) w w')" for g w
    by (intro paths ensures_mono2 [OF child_prepare_calls] ensures_mono2 [OF plumbing_no_exec]
        ensures_mono [OF child_exec_calls])
      (auto intro: gated_behind gated_exit gated_after calls_only_trans [OF any_calls])
  show ?thesis
    unfolding child_pipeline_def
    by (intro ensures_bind ensures_if ensures_prod ensures_Some ensures_mono [OF tail]
        sys_calls [where P = "\<lambda>c. \<not> is_exec c"])
      (auto intro: gated_before)
qed

text \<open>C3: a child the shell forks, for a single command or for one of a pipeline, replaces the
  program only after it has read the release byte G from the startup gate, so never before the
  parent has registered the job and handed over the terminal; if the gate closes, answers anything
  else or fails, the child makes no exec at all.\<close>

theorem exec_behind_gate:
  assumes "child_single com gate w = Some w' \<or> child_pipeline com has_next gate pipefd pipe_fd pgid w = Some w'"
    and "w_trace w' = w_trace w @ t" and "t = t1 @ (Sys_execvp f v, a) # t2"
  shows "\<exists>b. (Sys_read (fst gate) 1, b) \<in> set t1 \<and> lets_through b"
proof -
  from assms(1) have "gated (fst gate) w w'"
    using ensures_D child_single_gated child_pipeline_gated by metis
  moreover have "\<not> no_exec w w'" using assms(2,3) by (auto simp: calls_only_def)
  ultimately obtain s1 b s2 where s: "t1 @ (Sys_execvp f v, a) # t2 = s1 @ (Sys_read (fst gate) 1, b) # s2"
      "lets_through b" "\<forall>x\<in>set s1. \<not> is_exec (fst x)"
    using assms(2,3) by (auto simp: gated_def released_def)
  then have "(Sys_read (fst gate) 1, b) \<in> set t1"
    by (auto simp: append_eq_append_conv2 append_eq_Cons_conv Cons_eq_append_conv)
  with s(2) show ?thesis by blast
qed

theorem exec_behind_gate_witness:
  "\<exists>w' b. child_single (command_init\<lparr>argv := [''ls'']\<rparr>) (10, 11)
       (init_world ([ok 0, ok 0, ok 0, (ok 1)\<lparr>a_bytes := ''G''\<rparr>] @ replicate 10 (ok 0))) = Some w' \<and>
     (Sys_read 10 1, b) \<in> set (w_trace w') \<and> lets_through b"
proof -
  let ?w = "init_world ([ok 0, ok 0, ok 0, (ok 1)\<lparr>a_bytes := ''G''\<rparr>] @ replicate 10 (ok 0))"
  let ?c = "command_init\<lparr>argv := [''ls'']\<rparr>"
  have "map_option (\<lambda>w. (last (w_trace w), w_trace w \<noteq> [])) (child_single ?c (10, 11) ?w) =
      Some ((Sys_execvp ''ls'' [''ls''], ok 0), True)" by code_simp
  then obtain w' where run: "child_single ?c (10, 11) ?w = Some w'"
    and tr: "last (w_trace w') = (Sys_execvp ''ls'' [''ls''], ok 0)" "w_trace w' \<noteq> []" by auto
  have all: "w_trace w' = w_trace ?w @ w_trace w'" by (simp add: init_world_def)
  have last: "w_trace w' = butlast (w_trace w') @ (Sys_execvp ''ls'' [''ls''], ok 0) # []"
    using tr append_butlast_last_id by metis
  from exec_behind_gate [OF disjI1 [OF run] all last]
  obtain b where "(Sys_read 10 1, b) \<in> set (butlast (w_trace w'))" "lets_through b" by auto
  with run show ?thesis using in_set_butlastD by fast
qed

section \<open>Rollback\<close>

text \<open>
  \<open>made S w w'\<close>: all the calls of \<open>S\<close> were made on the way from \<open>w\<close> to \<open>w'\<close>. \<open>disposal pids\<close>: every child
  of \<open>pids\<close> is sent SIGKILL and waited for.
\<close>

definition made :: "syscall set \<Rightarrow> world \<Rightarrow> world \<Rightarrow> bool" where
  "made S w w' \<longleftrightarrow> (\<exists>t. w_trace w' = w_trace w @ t \<and> S \<subseteq> fst ` set t)"

definition kills :: "int list \<Rightarrow> syscall set" where
  "kills pids = {Sys_kill p SIGKILL | p. p \<in> set pids \<and> 0 < p}"

definition waits :: "int list \<Rightarrow> syscall set" where
  "waits pids = {Sys_waitpid p [] | p. p \<in> set pids \<and> 0 < p}"

lemma made_trans: "made S u v \<Longrightarrow> made T v w \<Longrightarrow> made (S \<union> T) u w"
  by (fastforce simp: made_def)

lemma made_mono: "made S u w \<Longrightarrow> T \<subseteq> S \<Longrightarrow> made T u w"
  by (auto simp: made_def)

lemma made_nothing: "calls_only P u w \<Longrightarrow> made {} u w"
  by (auto simp: made_def calls_only_def)

lemma made_refl: "made {} w w"
  by (simp add: made_def)

lemma made_log [simp]: "made S u (log_error m w) = made S u w" "made S (log_error m u) w = made S u w"
  by (simp_all add: made_def)

lemma kills_simps [simp]: "kills [] = {}" "kills (p # pids) = (if 0 < p then {Sys_kill p SIGKILL} else {}) \<union> kills pids"
  by (auto simp: kills_def)

lemma waits_simps [simp]: "waits [] = {}" "waits (p # pids) = (if 0 < p then {Sys_waitpid p []} else {}) \<union> waits pids"
  by (auto simp: waits_def)

lemma kill_logged_made: "ensures (kill_logged p m w) (\<lambda>w'. made {Sys_kill p SIGKILL} w w')"
  unfolding kill_logged_def by (intro vcg) (auto simp: called_def made_def)

lemma reap_pid_made: "ensures (reap_pid p w) (\<lambda>w'. made (waits [p]) w w')"
  unfolding reap_pid_def
  by (intro paths ensures_mono2 [OF sys_retry_made]) (force simp: made_def)+

lemma kill_pids_made: "ensures (kill_pids pids w) (\<lambda>w'. made (kills pids) w w')"
proof (induction pids arbitrary: w)
  case (Cons p pids)
  show ?case unfolding kill_pids.simps
    by (intro paths ensures_mono [OF kill_logged_made] ensures_mono [OF Cons])
      (auto dest: made_trans)
qed (simp add: ensures_def made_refl)

lemma reap_pids_made: "ensures (reap_pids pids w) (\<lambda>w'. made (waits pids) w w')"
proof (induction pids arbitrary: w)
  case (Cons p pids)
  show ?case unfolding reap_pids.simps
    by (intro paths ensures_mono [OF reap_pid_made] ensures_mono [OF Cons])
      (drule (1) made_trans, erule made_mono, auto)
qed (simp add: ensures_def made_refl)

definition disposal :: "int list \<Rightarrow> syscall set" where
  "disposal pids = kills pids \<union> waits pids"

lemma rollback_pipeline_made: "ensures (rollback_pipeline g pids w) (\<lambda>w'. made (disposal pids) w w')"
  unfolding rollback_pipeline_def disposal_def
  by (intro paths ensures_mono [OF kill_logged_made] ensures_mono [OF kill_pids_made]
      ensures_mono [OF reap_pids_made])
    ((drule (1) made_trans)+, erule made_mono, auto)+

lemma rollback_single_made: "ensures (rollback_single p w) (\<lambda>w'. made (disposal [p]) w w')"
  unfolding rollback_single_def disposal_def
  by (intro paths ensures_mono [OF kill_logged_made] ensures_mono [OF reap_pid_made])
    (simp add: made_refl, (drule (1) made_trans)+, erule made_mono, auto)

text \<open>The other operations of a start fork nothing.\<close>

abbreviation (input) no_fork :: "world \<Rightarrow> world \<Rightarrow> bool" where
  "no_fork \<equiv> calls_only (\<lambda>c. c \<noteq> Sys_fork)"

lemmas no_fork_paths =
  paths sys_calls [where P = "\<lambda>c. c \<noteq> Sys_fork"] sysv_calls [where P = "\<lambda>c. c \<noteq> Sys_fork"]
  sys_retry_calls [where P = "\<lambda>c. c \<noteq> Sys_fork"]

lemma setpgid_parent_no_fork: "ensures (setpgid_parent p g w) (\<lambda>(r, w'). no_fork w w')"
  unfolding setpgid_parent_def by (intro no_fork_paths) auto

lemma gate_release_no_fork: "ensures (startup_gate_release fd n w) (\<lambda>(r, w'). no_fork w w')"
proof (induction n arbitrary: w)
  case (Suc n)
  show ?case unfolding startup_gate_release.simps
    by (intro no_fork_paths ensures_mono2 [OF Suc]) (auto intro: calls_only_trans)
qed (simp add: ensures_def)

lemma terminal_no_fork:
  "ensures (terminal_set_pgrp g w) (\<lambda>(r, w'). no_fork w w')"
  "ensures (terminal_set_modes m w) (\<lambda>(r, w'). no_fork w w')"
  unfolding terminal_set_pgrp_def terminal_set_modes_def by (intro no_fork_paths; simp)+

lemma terminal_no_fork2:
  "ensures (terminal_set_foreground g w) (\<lambda>(r, w'). no_fork w w')"
  "ensures (terminal_restore_ignored b w) (\<lambda>w'. no_fork w w')"
  unfolding terminal_set_foreground_def terminal_restore_ignored_def terminal_restore_def
  by (intro no_fork_paths ensures_mono2 [OF terminal_no_fork(1)] ensures_mono2 [OF terminal_no_fork(2)];
      auto intro: calls_only_trans)+

lemma close_if_no_fork: "ensures (close_if k w) (\<lambda>w'. no_fork w w')"
  unfolding close_if_def by (intro no_fork_paths) auto

lemma same_trace_no_fork: "w_trace w' = w_trace w \<Longrightarrow> no_fork w w'"
  by (simp add: calls_only_def)

lemma ensures_job_add_no_fork:
  assumes "\<And>r m' w'. no_fork w w' \<Longrightarrow> ensures (f r m' w') Q"
  shows "ensures (case job_add m g c w of (r, m', w') \<Rightarrow> f r m' w') Q"
proof -
  obtain r m' w' where add: "job_add m g c w = (r, m', w')" by (cases "job_add m g c w")
  then have "w_trace w' = w_trace w" by (rule job_add_cases) (auto simp: took_def)
  with add assms same_trace_no_fork show ?thesis by simp
qed

lemma process_add_trace: "process_add j p w = (r, j', w') \<Longrightarrow> w_trace w' = w_trace w"
  by (erule process_add_cases) (auto simp: took_def)

lemma add_processes_trace: "add_processes j ps w = (r, j', w') \<Longrightarrow> w_trace w' = w_trace w"
  by (induction ps arbitrary: j w) (auto split: prod.splits if_splits dest!: process_add_trace)

lemma ensures_process_add_no_fork:
  "(\<And>r j' w'. no_fork w w' \<Longrightarrow> ensures (f r j' w') Q) \<Longrightarrow>
     ensures (case process_add j p w of (r, j', w') \<Rightarrow> f r j' w') Q"
  by (cases "process_add j p w") (simp add: process_add_trace same_trace_no_fork)

lemma ensures_add_processes_no_fork:
  "(\<And>r j' w'. no_fork w w' \<Longrightarrow> ensures (f r j' w') Q) \<Longrightarrow>
     ensures (case add_processes j ps w of (r, j', w') \<Rightarrow> f r j' w') Q"
  by (cases "add_processes j ps w") (simp add: add_processes_trace same_trace_no_fork)

lemma remove_job_trace: "remove_job g js w = (js', w') \<Longrightarrow> w_trace w' = w_trace w"
  by (induction js arbitrary: js') (auto split: if_splits prod.splits)

lemma ctx_remove_trace: "ctx_remove g ctx w = (ctx', w') \<Longrightarrow> w_trace w' = w_trace w"
  by (auto simp: ctx_remove_def job_remove_def split: if_splits prod.splits dest: remove_job_trace)

lemma ensures_ctx_remove_no_fork:
  "(\<And>ctx' w'. no_fork w w' \<Longrightarrow> ensures (f ctx' w') Q) \<Longrightarrow>
     ensures (case ctx_remove g ctx w of (ctx', w') \<Rightarrow> f ctx' w') Q"
  by (cases "ctx_remove g ctx w") (simp add: ctx_remove_trace same_trace_no_fork)

lemma made_before: "no_fork u v \<Longrightarrow> made S v w \<Longrightarrow> made S u w"
  using made_trans [OF made_nothing, of "\<lambda>c. c \<noteq> Sys_fork" u v S w] by simp

lemma made_after: "made S u v \<Longrightarrow> no_fork v w \<Longrightarrow> made S u w"
  using made_trans [OF _ made_nothing, of S u v "\<lambda>c. c \<noteq> Sys_fork" w] by simp

lemmas launch_paths =
  no_fork_paths ensures_option
  ensures_mono2 [OF setpgid_parent_no_fork] ensures_mono2 [OF gate_release_no_fork] ensures_mono [OF close_if_no_fork]
  ensures_mono2 [OF terminal_no_fork2(1)] ensures_mono [OF terminal_no_fork2(2)]
  ensures_job_add_no_fork ensures_process_add_no_fork ensures_add_processes_no_fork ensures_ctx_remove_no_fork
  ensures_mono [OF rollback_single_made] ensures_mono [OF rollback_pipeline_made]

text \<open>\<open>settles S w s w'\<close>: where the start answers a failure, the calls of \<open>S\<close> were made.\<close>

definition settles :: "syscall set \<Rightarrow> world \<Rightarrow> int + nat \<Rightarrow> world \<Rightarrow> bool" where
  "settles S w s w' \<longleftrightarrow> (case s of Inl r \<Rightarrow> made S w w' | Inr i \<Rightarrow> True)"

lemma settles_simps [simp]: "settles S w (Inl r) w' = made S w w'" "settles S w (Inr i) w'"
  by (simp_all add: settles_def)

lemma launch_single_disposes:
  "ensures (launch_single com ctx gate ta pid w) (\<lambda>(s, ctx', w'). settles (disposal [pid]) w s w')"
  unfolding launch_single_def
  by (intro launch_paths; simp)
    ((drule (1) calls_only_trans)+, drule (1) made_before, (assumption | erule (1) made_after))+

lemma launch_pipeline_disposes:
  "ensures (launch_pipeline com ctx gate ta pids pgid pipe_fd w) (\<lambda>(s, ctx', w'). settles (disposal pids) w s w')"
  unfolding launch_pipeline_def
  by (intro launch_paths; simp)
    ((drule (1) calls_only_trans)+, drule (1) made_before, (assumption | erule (1) made_after))+

text \<open>
  The start loop: a child it forked is among those it disposes of when it fails. \<open>forks_within\<close>: all
  children forked on the way are in the set.
\<close>

definition forks_within :: "int set \<Rightarrow> world \<Rightarrow> world \<Rightarrow> bool" where
  "forks_within F w w' \<longleftrightarrow>
     (\<exists>t. w_trace w' = w_trace w @ t \<and> (\<forall>a. (Sys_fork, a) \<in> set t \<longrightarrow> 0 < a_ret a \<longrightarrow> a_ret a \<in> F))"

lemma forks_trans: "forks_within F u v \<Longrightarrow> forks_within G v w \<Longrightarrow> forks_within (F \<union> G) u w"
  by (fastforce simp: forks_within_def)

lemma no_fork_within: "no_fork u v \<Longrightarrow> forks_within F u v"
  by (fastforce simp: forks_within_def calls_only_def)

lemma forks_before: "no_fork u v \<Longrightarrow> forks_within F v w \<Longrightarrow> forks_within F u w"
  using forks_trans [of "{}" u v F w] no_fork_within by simp

lemma forks_after: "forks_within F u v \<Longrightarrow> no_fork v w \<Longrightarrow> forks_within F u w"
  using forks_trans [of F u v "{}" w] no_fork_within by simp

lemma fork_within: "called Sys_fork a w w' \<Longrightarrow> 0 < a_ret a \<Longrightarrow> forks_within {a_ret a} w w'"
  by (simp add: forks_within_def called_def)

lemma fork_none: "called Sys_fork a w w' \<Longrightarrow> \<not> 0 < a_ret a \<Longrightarrow> forks_within {} w w'"
  by (simp add: forks_within_def called_def)

lemma kill_logged_no_fork: "ensures (kill_logged p m w) (\<lambda>w'. no_fork w w')"
  unfolding kill_logged_def by (intro no_fork_paths) auto

lemma reap_pid_no_fork: "ensures (reap_pid p w) (\<lambda>w'. no_fork w w')"
  unfolding reap_pid_def by (intro no_fork_paths) auto

lemma kill_pids_no_fork: "ensures (kill_pids ps w) (\<lambda>w'. no_fork w w')"
proof (induction ps arbitrary: w)
  case (Cons p ps)
  show ?case unfolding kill_pids.simps
    by (intro no_fork_paths ensures_mono [OF kill_logged_no_fork] ensures_mono [OF Cons])
      (auto intro: calls_only_trans)
qed (simp add: ensures_def)

lemma reap_pids_no_fork: "ensures (reap_pids ps w) (\<lambda>w'. no_fork w w')"
proof (induction ps arbitrary: w)
  case (Cons p ps)
  show ?case unfolding reap_pids.simps
    by (intro no_fork_paths ensures_mono [OF reap_pid_no_fork] ensures_mono [OF Cons])
      (auto intro: calls_only_trans)
qed (simp add: ensures_def)

lemma rollback_pipeline_no_fork: "ensures (rollback_pipeline g ps w) (\<lambda>w'. no_fork w w')"
  unfolding rollback_pipeline_def
  by (intro no_fork_paths ensures_mono [OF kill_logged_no_fork] ensures_mono [OF kill_pids_no_fork]
      ensures_mono [OF reap_pids_no_fork])
    (auto intro: calls_only_trans)

lemma abandon_both:
  "ensures (abandon_pipeline gate pipefd k g pids w) (\<lambda>w'. no_fork w w' \<and> made (disposal pids) w w')"
proof -
  have roll: "ensures (rollback_pipeline g pids v) (\<lambda>w'. no_fork v w' \<and> made (disposal pids) v w')" for v
    using rollback_pipeline_no_fork [of g pids v] rollback_pipeline_made [of g pids v] by (simp add: ensures_def)
  show ?thesis
    unfolding abandon_pipeline_def
    by (intro no_fork_paths ensures_mono [OF close_if_no_fork] ensures_mono [OF roll])
      (simp_all, (drule (1) calls_only_trans)+, auto intro: made_before calls_only_trans)
qed

definition start_settles :: "int list \<Rightarrow> world \<Rightarrow> pipeline_start \<Rightarrow> world \<Rightarrow> bool" where
  "start_settles pids w s w' \<longleftrightarrow>
     (\<forall>r. s = Pipeline_failed r \<longrightarrow> (\<exists>ps. forks_within (set ps) w w' \<and> made (disposal (pids @ ps)) w w'))"

lemma start_settles_simps [simp]:
  "start_settles pids w Pipeline_child w'" "start_settles pids w (Pipeline_started a b c) w'"
  "start_settles pids w s (log_error m w') = start_settles pids w s w'"
  by (simp_all add: start_settles_def forks_within_def)

lemma settle_now: "no_fork u v \<Longrightarrow> made (disposal pids) u v \<Longrightarrow> start_settles pids u (Pipeline_failed r) v"
  by (auto simp: start_settles_def intro!: exI [of _ "[]"] no_fork_within)

lemma start_settles_before:
  "no_fork u v \<Longrightarrow> start_settles pids v s w \<Longrightarrow> start_settles pids u s w"
  unfolding start_settles_def by (blast intro: forks_before made_before)

lemma start_settles_fork:
  assumes "called Sys_fork a u v" and "\<not> a_ret a < 0" and "a_ret a \<noteq> 0" and "start_settles (pids @ [a_ret a]) v s w"
  shows "start_settles pids u s w"
  unfolding start_settles_def
proof (intro allI impI)
  fix r assume "s = Pipeline_failed r"
  with assms(4) obtain ps where ps: "forks_within (set ps) v w" "made (disposal ((pids @ [a_ret a]) @ ps)) v w"
    by (auto simp: start_settles_def)
  have pos: "0 < a_ret a" using assms(2,3) by simp
  have "forks_within (set (a_ret a # ps)) u w"
    using forks_trans [OF fork_within [OF assms(1) pos] ps(1)] by simp
  moreover have "made (disposal (pids @ a_ret a # ps)) u w"
    using made_trans [OF made_nothing [OF calls_only_called [OF assms(1), of "\<lambda>_. True"]] ps(2)] by simp
  ultimately show "\<exists>ps. forks_within (set ps) u w \<and> made (disposal (pids @ ps)) u w" by blast
qed

lemma start_settles_no_child:
  assumes "called Sys_fork a u v" and "a_ret a < 0" and "start_settles pids v s w"
  shows "start_settles pids u s w"
proof -
  have "forks_within {} u v" "made {} u v"
    using assms(1,2) made_nothing [OF calls_only_called [OF assms(1), of "\<lambda>_. True"]] by (simp_all add: fork_none)
  with assms(3) show ?thesis
    unfolding start_settles_def by (metis forks_trans made_trans sup_bot_left)
qed

lemma ensures_fork:
  "(\<And>a w'. called Sys_fork a w w' \<Longrightarrow> Q (a, w')) \<Longrightarrow> ensures (sys Sys_fork w) Q"
  by (rule ensures_sys)

lemma start_pipeline_disposes:
  "ensures (start_pipeline gate cs pids pgid k w) (\<lambda>(s, w'). start_settles pids w s w')"
proof (induction cs arbitrary: pids pgid k w)
  case (Cons c rest)
  have child: "ensures (child_pipeline c b gate p k pgid v) (\<lambda>w'. True)" for b p v by (simp add: ensures_def)
  show ?case
    unfolding start_pipeline.simps
    by (intro ensures_fork no_fork_paths ensures_option ensures_mono [OF abandon_both] ensures_mono [OF child]
        ensures_mono2 [OF setpgid_parent_no_fork] ensures_mono [OF close_if_no_fork] ensures_mono2 [OF Cons]; simp;
        (elim conjE)?;
        (erule (1) settle_now | erule start_settles_before | erule (1) start_settles_no_child
          | erule (2) start_settles_fork | assumption)+)
qed (simp add: ensures_def)

end
