(* ===== verification/Executor_Properties.thy ===== *)
theory Executor_Properties
  imports Executor_Facts Executor_Calls
begin

text \<open>
  What a caller of \<^verbatim>\<open>execute_command\<close> may rely on: descriptors, heap and job table after every
  outcome, the limit of active jobs, and that a failed start leaves no child behind.
\<close>

section \<open>The parent after execute\_command\<close>

lemma check_job_limit_eff:
  "check_job_limit ctx w = (r, w') \<Longrightarrow> calm w w' \<and>
     (r = ERR_JOB \<and> max_job (config ctx) \<le> job_count_active (ctx_jobs ctx) \<and> w_trace w' = w_trace w \<or>
      r = OK \<and> job_count_active (ctx_jobs ctx) < max_job (config ctx) \<and> w' = w)"
  by (auto simp: check_job_limit_def split: if_splits)

lemma execute_command_eff:
  assumes "table_inv n (ctx_jobs ctx) w"
  shows "ensures (execute_command cs ctx w) (parent_ok n ctx w)"
proof (cases cs)
  case Nil
  then show ?thesis using assms by (auto simp: ensures_def fds_by_def ran_def intro!: exI [of _ 0] simp: moves_def)
next
  case (Cons com rest)
  obtain r v where c: "check_job_limit ctx w = (r, v)" by (cases "check_job_limit ctx w")
  have "table_inv n (ctx_jobs ctx) v" "calm w v"
    using check_job_limit_eff [OF c] assms by (auto simp: move_simps intro: inv_calm)
  then show ?thesis
    using check_job_limit_eff [OF c] execute_single_eff [of n ctx w com] execute_pipeline_eff [of n ctx w com rest] assms
    by (auto simp: Cons c ensures_def fds_by_def ran_def calm_moves)
qed

text \<open>C4: when execute_command comes back to the shell's own process, no descriptor
  of the startup gate, of a pipe or of a redirection is left open and none is closed twice, the
  heap holds the job table and nothing else of it, the table satisfies its invariant and has at most
  one new job, in front; an error leaves no new job, unless the terminal could not be given back,
  which is an error that stops the shell and leaves the job in the table; and a return value that is no
  error is an exit status.\<close>

theorem execute_command_parent:
  assumes "table_ok (ctx_jobs ctx)" and "execute_command cs ctx w = Some (Parent (r, ctx'), w')"
  shows "fd_bal w' fd = fd_bal w fd \<and>
     w_live w' - table_blocks (ctx_jobs ctx') = w_live w - table_blocks (ctx_jobs ctx) \<and>
     table_ok (ctx_jobs ctx') \<and>
     (jobs (ctx_jobs ctx') = jobs (ctx_jobs ctx) \<or>
        (\<exists>j. jobs (ctx_jobs ctx') = j # jobs (ctx_jobs ctx)) \<and> (running ctx' \<longrightarrow> 0 \<le> r)) \<and>
     (0 \<le> r \<longrightarrow> r \<le> 255)"
proof -
  have "table_inv (w_live w - table_blocks (ctx_jobs ctx)) (ctx_jobs ctx) w"
    using assms(1) by (simp add: table_inv_def)
  from ensures_D [OF assms(2) execute_command_eff [OF this]] show ?thesis
    by (auto simp: table_inv_def fds_by_def moves_fd ran_def)
qed


text \<open>A shell with an empty table starts \<^verbatim>\<open>ls\<close> as process 7 and waits for it.\<close>

definition demo_ls :: Command where
  "demo_ls = command_init\<lparr>argv := [''ls'']\<rparr>"

definition demo_start :: world where
  "demo_start = init_world ([(ok 0)\<lparr>a_fds := [10, 11]\<rparr>, ok 0, ok 0, ok 0, ok 0, ok 7] @ replicate 2 (ok 0) @ [ok 1, ok 0, ok 7] @ replicate 10 (ok 0))"

lemma demo_run:
  obtains ctx' w' where "execute_command [demo_ls] blank_context demo_start = Some (Parent (0, ctx'), w')"
proof -
  have "(case execute_command [demo_ls] blank_context demo_start of
      Some (Parent (r, c), v) \<Rightarrow> r = 0 | _ \<Rightarrow> False)" by code_simp
  then have "\<exists>c v. execute_command [demo_ls] blank_context demo_start = Some (Parent (0, c), v)"
    by (auto simp del: execute_command.simps split: option.splits outcome.splits)
  then show thesis using that by blast
qed

theorem execute_command_parent_witness:
  "\<exists>ctx' w'. execute_command [demo_ls] blank_context demo_start = Some (Parent (0, ctx'), w') \<and>
     fd_bal w' 10 = 0 \<and> w_live w' = table_blocks (ctx_jobs ctx') \<and> table_ok (ctx_jobs ctx')"
proof -
  obtain ctx' w' where run: "execute_command [demo_ls] blank_context demo_start = Some (Parent (0, ctx'), w')"
    by (rule demo_run)
  have "table_ok (ctx_jobs blank_context)" and "table_blocks (ctx_jobs blank_context) = 0"
    by (simp_all add: blank_context_def jobmanager_init_def table_ok_def table_blocks_def)
  with execute_command_parent [OF this(1) run, of 10] run show ?thesis
    by (auto simp: demo_start_def init_world_def simp del: execute_command.simps)
qed

section \<open>The limit of active jobs\<close>

lemma count_from: "foldl (\<lambda>count job. if job_active job then count + 1 else count) k js =
    k + foldl (\<lambda>count job. if job_active job then count + 1 else count) (0 :: int) js"
proof (induction js arbitrary: k)
  case (Cons j js)
  show ?case using Cons [of "k + 1"] Cons [of 1] Cons [of k] by simp
qed simp

lemma count_new_job:
  "jobs m' = j # jobs m \<Longrightarrow> job_count_active m' \<le> job_count_active m + 1"
  using count_from [of 1 "jobs m"] by (simp add: job_count_active_def)

text \<open>C26: with as many active jobs as the configuration allows, execute_command starts nothing: it
  answers ERR_JOB without a single system call and leaves table and context alone. So a table
  within the limit is within it after every command.\<close>

theorem job_limit:
  assumes "table_ok (ctx_jobs ctx)" and "cs \<noteq> []"
    and "execute_command cs ctx w = Some (Parent (r, ctx'), w')"
  shows "(max_job (config ctx) \<le> job_count_active (ctx_jobs ctx) \<longrightarrow>
            r = ERR_JOB \<and> ctx' = ctx \<and> w_trace w' = w_trace w) \<and>
         (job_count_active (ctx_jobs ctx) \<le> max_job (config ctx) \<longrightarrow>
            job_count_active (ctx_jobs ctx') \<le> max_job (config ctx'))"
proof -
  have "table_inv (w_live w - table_blocks (ctx_jobs ctx)) (ctx_jobs ctx) w"
    using assms(1) by (simp add: table_inv_def)
  from ensures_D [OF assms(3) execute_command_eff [OF this]]
  have same: "config ctx' = config ctx" and
    grown: "jobs (ctx_jobs ctx') = jobs (ctx_jobs ctx) \<or> (\<exists>j. jobs (ctx_jobs ctx') = j # jobs (ctx_jobs ctx))"
    by (auto simp: kept_def ran_def)
  have full: "max_job (config ctx) \<le> job_count_active (ctx_jobs ctx) \<Longrightarrow>
      r = ERR_JOB \<and> ctx' = ctx \<and> w_trace w' = w_trace w"
    using assms(2,3) by (cases cs) (auto simp: check_job_limit_def)
  have "job_count_active (ctx_jobs ctx') \<le> job_count_active (ctx_jobs ctx) + 1"
    using grown count_new_job by (auto simp: job_count_active_def)
  then show ?thesis using full same by (cases "job_count_active (ctx_jobs ctx) = max_job (config ctx)") auto
qed

theorem job_limit_witness:
  "\<exists>ctx' w'. execute_command [demo_ls] blank_context demo_start = Some (Parent (0, ctx'), w') \<and>
     job_count_active (ctx_jobs ctx') \<le> max_job (config ctx')"
proof -
  obtain ctx' w' where run: "execute_command [demo_ls] blank_context demo_start = Some (Parent (0, ctx'), w')"
    by (rule demo_run)
  have "table_ok (ctx_jobs blank_context)"
    by (simp add: blank_context_def jobmanager_init_def table_ok_def)
  moreover have "job_count_active (ctx_jobs blank_context) \<le> max_job (config blank_context)" by code_simp
  ultimately show ?thesis using job_limit [OF _ _ run] run
    by (auto simp del: execute_command.simps)
qed

section \<open>No child is left behind\<close>

text \<open>C8: when the parent gives up a start after its forks (no job slot, no memory, no
  terminal, the gate cannot be written), it has sent SIGKILL to every child it had forked and
  waited for every one of them.\<close>

theorem launch_disposes:
  assumes "launch_single com ctx gate ta pid w = Some (Inl r, ctx', w') \<and> pids = [pid] \<or>
      launch_pipeline com ctx gate ta pids pgid pipe_fd w = Some (Inl r, ctx', w')"
    and "w_trace w' = w_trace w @ t" and "p \<in> set pids" and "0 < p"
  shows "Sys_kill p SIGKILL \<in> fst ` set t \<and> Sys_waitpid p [] \<in> fst ` set t"
proof -
  have "made (disposal pids) w w'"
    using assms(1)
  proof
    assume l: "launch_single com ctx gate ta pid w = Some (Inl r, ctx', w') \<and> pids = [pid]"
    from ensures_D3 [OF conjunct1 [OF l] launch_single_disposes] l show ?thesis by simp
  next
    assume l: "launch_pipeline com ctx gate ta pids pgid pipe_fd w = Some (Inl r, ctx', w')"
    from ensures_D3 [OF l launch_pipeline_disposes] show ?thesis by simp
  qed
  then show ?thesis
    using assms(2-4) by (auto simp: made_def disposal_def kills_def waits_def)
qed

text \<open>When the loop of execute_pipeline fails part of the way (too many commands, no pipe, no
  fork, no process group), it has killed and waited for every child that its forks had produced.\<close>

theorem start_disposes:
  assumes "start_pipeline gate cs [] 0 pipe_fd w = Some (Pipeline_failed r, w')"
    and "w_trace w' = w_trace w @ t" and "(Sys_fork, a) \<in> set t" and "0 < a_ret a"
  shows "Sys_kill (a_ret a) SIGKILL \<in> fst ` set t \<and> Sys_waitpid (a_ret a) [] \<in> fst ` set t"
proof -
  obtain ps where "forks_within (set ps) w w'" and "made (disposal ps) w w'"
    using ensures_D2 [OF assms(1) start_pipeline_disposes] by (auto simp: start_settles_def)
  then show ?thesis
    using assms(2-4) by (auto simp: made_def forks_within_def disposal_def kills_def waits_def)
qed


theorem launch_disposes_witness:
  "\<exists>r ctx' w'. launch_single demo_ls blank_context (10, 11) False 7
       (init_world ([ok 0, ok 0, fail EIO] @ replicate 10 (ok 0))) = Some (Inl r, ctx', w') \<and>
     Sys_kill 7 SIGKILL \<in> fst ` set (w_trace w') \<and> Sys_waitpid 7 [] \<in> fst ` set (w_trace w')"
proof -
  let ?w = "init_world ([ok 0, ok 0, fail EIO] @ replicate 10 (ok 0))"
  have "(case launch_single demo_ls blank_context (10, 11) False 7 ?w of Some (Inl r, _) \<Rightarrow> True | _ \<Rightarrow> False)"
    by code_simp
  then obtain r ctx' w' where run: "launch_single demo_ls blank_context (10, 11) False 7 ?w = Some (Inl r, ctx', w')"
    by (auto split: option.splits sum.splits)
  have "w_trace w' = w_trace ?w @ w_trace w'" by (simp add: init_world_def)
  from launch_disposes [OF disjI1 [OF conjI [OF run refl]] this, of 7] run show ?thesis by auto
qed

theorem start_disposes_witness:
  "\<exists>r w'. start_pipeline (10, 11) [demo_ls, demo_ls] [] 0 (-1)
       (init_world ([(ok 0)\<lparr>a_fds := [12, 13]\<rparr>, ok 7, ok 0, ok 0, fail EAGAIN] @ replicate 10 (ok 0))) =
       Some (Pipeline_failed r, w') \<and>
     Sys_kill 7 SIGKILL \<in> fst ` set (w_trace w') \<and> Sys_waitpid 7 [] \<in> fst ` set (w_trace w')"
proof -
  let ?w = "init_world ([(ok 0)\<lparr>a_fds := [12, 13]\<rparr>, ok 7, ok 0, ok 0, fail EAGAIN] @ replicate 10 (ok 0))"
  have "(case start_pipeline (10, 11) [demo_ls, demo_ls] [] 0 (-1) ?w of
      Some (Pipeline_failed r, v) \<Rightarrow> (Sys_fork, ok 7) \<in> set (w_trace v) | _ \<Rightarrow> False)"
    by code_simp
  then obtain s w' where "start_pipeline (10, 11) [demo_ls, demo_ls] [] 0 (-1) ?w = Some (s, w')"
    and s: "case s of Pipeline_failed r \<Rightarrow> (Sys_fork, ok 7) \<in> set (w_trace w') | _ \<Rightarrow> False"
    by (cases "start_pipeline (10, 11) [demo_ls, demo_ls] [] 0 (-1) ?w") (auto simp del: start_pipeline.simps)
  then obtain r where run: "start_pipeline (10, 11) [demo_ls, demo_ls] [] 0 (-1) ?w = Some (Pipeline_failed r, w')"
    and f: "(Sys_fork, ok 7) \<in> set (w_trace w')" by (cases s) auto
  have "w_trace w' = w_trace ?w @ w_trace w'" by (simp add: init_world_def)
  from start_disposes [OF run this f] show ?thesis using run by (simp add: ok_def del: start_pipeline.simps)
qed

end
