(* ===== verification/Signal_Delivery.thy ===== *)
theory Signal_Delivery
  imports Sig
begin

text \<open>
  How a signal reaches the select loop: the handler of \<^verbatim>\<open>src/sig.c\<close>, which may interrupt the
  program between any two steps, against \<^verbatim>\<open>event_drain\<close>, \<^verbatim>\<open>signal_take_events\<close> and the
  event branch of \<^verbatim>\<open>shell_run\<close>. Elsewhere in the development a handler runs as a whole during a
  call; here its memory accesses and its write to the pipe are steps of their own, because whether an
  event can be lost is a question of their order.

  Three things are parameters: the \<^verbatim>\<open>sa_mask\<close> both handlers are installed with (\<open>k_sa_mask\<close>; the
  code's is \<open>handler_mask\<close>, which keeps each handler from interrupting the other), whether
  \<^verbatim>\<open>sigprocmask\<close> may fail (\<open>k_mask_fails\<close>; it is documented to fail for invalid arguments only), and
  how many bytes the pipe holds (\<open>k_room\<close>).
\<close>

record kernel =
  k_sa_mask :: "signal list"
  k_mask_fails :: bool
  k_room :: nat

text \<open>
  A handler in progress: before it reads \<^verbatim>\<open>pending_events\<close>, before it stores what it computed from
  the value it read, before it writes its byte.
\<close>

datatype handler_pc = H_load signal | H_store signal int | H_notify signal

fun handled :: "handler_pc \<Rightarrow> signal" where
  "handled (H_load sig) = sig"
| "handled (H_store sig v) = sig"
| "handled (H_notify sig) = sig"

text \<open>
  Where the loop is: anywhere outside the event branch (\<open>L_select\<close>), before a read of
  \<^verbatim>\<open>event_drain\<close>, before the three steps of \<^verbatim>\<open>signal_take_events\<close>, or behind it with the
  events it took. The sets are ghosts: the signals whose handlers had stored when the events were
  taken.
\<close>

datatype loop_pc =
    L_select | L_drain | L_block | L_take | L_restore int "signal set" | L_act int "signal set"

record delivery =
  d_pipe :: nat
  d_pending :: int
  d_masked :: bool
  d_handlers :: "handler_pc list"  \<comment> \<open>the innermost first\<close>
  d_loop :: loop_pc
  d_due :: "signal set"  \<comment> \<open>ghost: the signals stored since events were last taken\<close>

definition delivery_init :: delivery where
  "delivery_init = \<lparr>d_pipe = 0, d_pending = SIGNAL_EVENT_NONE, d_masked = False, d_handlers = [],
     d_loop = L_select, d_due = {}\<rparr>"

section \<open>The steps\<close>

text \<open>
  While a handler runs, its own signal is blocked and those of the mask it was installed with; while the
  loop takes the events, both are.
\<close>

inductive handler_step :: "kernel \<Rightarrow> delivery \<Rightarrow> delivery \<Rightarrow> bool" for k where
  arrive: "sig \<in> {SIGCHLD, SIGINT} \<Longrightarrow> \<not> d_masked s \<Longrightarrow> sig \<notin> handled ` set (d_handlers s) \<Longrightarrow>
    d_handlers s = [] \<or> sig \<notin> set (k_sa_mask k) \<Longrightarrow>
    handler_step k s (s\<lparr>d_handlers := H_load sig # d_handlers s\<rparr>)"
| load: "d_handlers s = H_load sig # hs \<Longrightarrow>
    handler_step k s (s\<lparr>d_handlers := H_store sig (d_pending s) # hs\<rparr>)"
| store: "d_handlers s = H_store sig v # hs \<Longrightarrow>
    handler_step k s (s\<lparr>d_pending := note_signal v sig, d_due := insert sig (d_due s),
      d_handlers := H_notify sig # hs\<rparr>)"
| notify: "d_handlers s = H_notify sig # hs \<Longrightarrow>
    handler_step k s (s\<lparr>d_pipe := min (max (d_pipe s) (k_room k)) (Suc (d_pipe s)), d_handlers := hs\<rparr>)"

text \<open>The loop moves when no handler has interrupted it.\<close>

inductive loop_step :: "kernel \<Rightarrow> delivery \<Rightarrow> delivery \<Rightarrow> bool" for k where
  wake: "d_handlers s = [] \<Longrightarrow> d_loop s = L_select \<Longrightarrow> 0 < d_pipe s \<Longrightarrow>
    loop_step k s (s\<lparr>d_loop := L_drain\<rparr>)"
| read: "d_handlers s = [] \<Longrightarrow> d_loop s = L_drain \<Longrightarrow> 0 < d_pipe s \<Longrightarrow>
    loop_step k s (s\<lparr>d_pipe := d_pipe s - 64\<rparr>)"
| empty: "d_handlers s = [] \<Longrightarrow> d_loop s = L_drain \<Longrightarrow> d_pipe s = 0 \<Longrightarrow>
    loop_step k s (s\<lparr>d_loop := L_block\<rparr>)"
| block: "d_handlers s = [] \<Longrightarrow> d_loop s = L_block \<Longrightarrow>
    loop_step k s (s\<lparr>d_masked := True, d_loop := L_take\<rparr>)"
| block_fails: "d_handlers s = [] \<Longrightarrow> d_loop s = L_block \<Longrightarrow> k_mask_fails k \<Longrightarrow>
    loop_step k s (s\<lparr>d_loop := L_act SIGNAL_EVENT_NONE {}\<rparr>)"
| take: "d_handlers s = [] \<Longrightarrow> d_loop s = L_take \<Longrightarrow>
    loop_step k s (s\<lparr>d_pending := SIGNAL_EVENT_NONE, d_due := {}, d_loop := L_restore (d_pending s) (d_due s)\<rparr>)"
| restore: "d_handlers s = [] \<Longrightarrow> d_loop s = L_restore e D \<Longrightarrow>
    loop_step k s (s\<lparr>d_masked := False, d_loop := L_act e D\<rparr>)"
| act: "d_handlers s = [] \<Longrightarrow> d_loop s = L_act e D \<Longrightarrow> loop_step k s (s\<lparr>d_loop := L_select\<rparr>)"

definition delivery_step :: "kernel \<Rightarrow> delivery \<Rightarrow> delivery \<Rightarrow> bool" where
  "delivery_step k s s' \<longleftrightarrow> handler_step k s s' \<or> loop_step k s s'"

definition delivery_reachable :: "kernel \<Rightarrow> delivery \<Rightarrow> bool" where
  "delivery_reachable k s = rtranclp (delivery_step k) delivery_init s"

inductive_cases handler_stepE: "handler_step k s s'"
inductive_cases loop_stepE: "loop_step k s s'"

text \<open>An invariant is one that holds at the start and that both kinds of step preserve.\<close>

lemma delivery_invariant:
  assumes "delivery_reachable k s" and "I delivery_init"
    and "\<And>s s'. I s \<Longrightarrow> handler_step k s s' \<Longrightarrow> I s'" and "\<And>s s'. I s \<Longrightarrow> loop_step k s s' \<Longrightarrow> I s'"
  shows "I s"
  using assms(1) unfolding delivery_reachable_def
  by (induction rule: rtranclp_induct) (auto simp: delivery_step_def intro: assms)

section \<open>Bits\<close>

text \<open>The tests of the loop: \<^verbatim>\<open>events & SIGNAL_EVENT_CHILD\<close>, \<^verbatim>\<open>events & SIGNAL_EVENT_INTERRUPT\<close>.\<close>

unbundle bit_operations_syntax

definition has_event :: "int \<Rightarrow> signal \<Rightarrow> bool" where
  "has_event events sig \<longleftrightarrow>
     (if sig = SIGCHLD then events AND SIGNAL_EVENT_CHILD \<noteq> 0 else events AND SIGNAL_EVENT_INTERRUPT \<noteq> 0)"

lemma and_two_bit: "(e :: int) AND 2 \<noteq> 0 \<longleftrightarrow> bit e 1"
  by (metis and_exp_eq_0_iff_not_bit power_one_right)

lemma and_one_bit: "(e :: int) AND 1 \<noteq> 0 \<longleftrightarrow> bit e 0"
  by (simp add: and_one_eq bit_0 odd_iff_mod_2_eq_one)

lemma has_event_bit: "has_event e sig = (if sig = SIGCHLD then bit e 0 else bit e 1)"
  by (simp add: has_event_def and_one_bit and_two_bit)

lemma note_has: "sig \<in> {SIGCHLD, SIGINT} \<Longrightarrow> has_event (note_signal v sig) sig"
  by (auto simp: has_event_bit note_signal_def bit_or_iff)

lemma note_keeps: "has_event v t \<Longrightarrow> has_event (note_signal v sig) t"
  by (auto simp: has_event_bit note_signal_def bit_or_iff split: if_splits)

section \<open>A run\<close>

text \<open>A run, state by state.\<close>

fun follow :: "kernel \<Rightarrow> delivery \<Rightarrow> delivery list \<Rightarrow> bool" where
  "follow k s [] = True"
| "follow k s (t # ts) = (delivery_step k s t \<and> follow k t ts)"

lemma follow_reachable:
  "follow k s ts \<Longrightarrow> rtranclp (delivery_step k) s (last (s # ts))"
proof (induction ts arbitrary: s)
  case (Cons t ts)
  then have "delivery_step k s t" and "rtranclp (delivery_step k) t (last (t # ts))" by auto
  then show ?case by (simp add: converse_rtranclp_into_rtranclp)
qed simp

lemma step_arrive:
  "sig \<in> {SIGCHLD, SIGINT} \<Longrightarrow> \<not> d_masked s \<Longrightarrow> sig \<notin> handled ` set (d_handlers s) \<Longrightarrow>
    d_handlers s = [] \<or> sig \<notin> set (k_sa_mask k) \<Longrightarrow> delivery_step k s (s\<lparr>d_handlers := H_load sig # d_handlers s\<rparr>)"
  unfolding delivery_step_def by (blast intro: handler_step.arrive)

lemmas step_simps = delivery_step_def handler_step.simps loop_step.simps note_signal_def delivery_init_def

text \<open>The kernel with the mask of the code, and a SIGCHLD whose handler has run.\<close>

definition code_kernel :: kernel where
  "code_kernel = \<lparr>k_sa_mask = handler_mask, k_mask_fails = False, k_room = 65536\<rparr>"

definition one_signal :: delivery where
  "one_signal = delivery_init\<lparr>d_pipe := 1, d_pending := 1, d_due := {SIGCHLD}\<rparr>"

lemma one_signal_reachable: "delivery_reachable code_kernel one_signal"
proof -
  let ?a = "delivery_init\<lparr>d_handlers := [H_load SIGCHLD]\<rparr>"
  let ?b = "?a\<lparr>d_handlers := [H_store SIGCHLD 0]\<rparr>"
  let ?c = "?b\<lparr>d_pending := 1, d_due := {SIGCHLD}, d_handlers := [H_notify SIGCHLD]\<rparr>"
  have "follow code_kernel delivery_init [?a, ?b, ?c, one_signal]"
    by (simp add: step_simps code_kernel_def one_signal_def)
  from follow_reachable [OF this] show ?thesis by (simp add: delivery_reachable_def)
qed

section \<open>No wakeup is lost\<close>

text \<open>
  While a stored event is not taken, the pipe is readable, or its handler is about to write, or the
  loop is on its way to take it.
\<close>

fun critical :: "loop_pc \<Rightarrow> bool" where
  "critical L_take = True"
| "critical (L_restore e D) = True"
| "critical _ = False"

fun notifying :: "handler_pc \<Rightarrow> bool" where
  "notifying (H_notify sig) = True"
| "notifying _ = False"

fun taken :: "loop_pc \<Rightarrow> bool" where
  "taken (L_restore e D) = True"
| "taken _ = False"

definition woken :: "delivery \<Rightarrow> bool" where
  "woken s \<longleftrightarrow>
     (d_due s \<noteq> {} \<longrightarrow>
        0 < d_pipe s \<or> list_ex notifying (d_handlers s) \<or> d_loop s \<in> {L_drain, L_block, L_take}) \<and>
     (d_masked s \<longleftrightarrow> critical (d_loop s)) \<and> (d_masked s \<longrightarrow> d_handlers s = []) \<and>
     (taken (d_loop s) \<longrightarrow> d_due s = {})"

lemma taken_critical: "taken pc \<Longrightarrow> critical pc"
  by (cases pc) auto

lemma woken_handler: "woken s \<Longrightarrow> handler_step k s s' \<Longrightarrow> 0 < k_room k \<Longrightarrow> woken s'"
  by (erule handler_step.cases) (auto simp: woken_def dest: taken_critical)

lemma woken_loop: "woken s \<Longrightarrow> loop_step k s s' \<Longrightarrow> \<not> k_mask_fails k \<Longrightarrow> woken s'"
  by (erule loop_step.cases) (auto simp: woken_def)

lemma woken_reachable:
  assumes "delivery_reachable k s" and "0 < k_room k" and "\<not> k_mask_fails k"
  shows "woken s"
  using assms(1)
proof (rule delivery_invariant)
  show "woken delivery_init" by (simp add: woken_def delivery_init_def)
qed (use assms(2,3) woken_handler woken_loop in blast)+

text \<open>C6: no wakeup is lost, however signals, handlers and the steps of the loop interleave,
  for the signal mask of the code and any other: whenever the shell sits in its select with no handler in progress, every event that a
  handler has stored and the loop has not yet taken has a byte in the pipe, so select returns.\<close>

theorem signal_no_lost_wakeup:
  assumes "delivery_reachable k s" and "0 < k_room k" and "\<not> k_mask_fails k"
    and "d_loop s = L_select" and "d_handlers s = []" and "d_due s \<noteq> {}"
  shows "0 < d_pipe s \<and> loop_step k s (s\<lparr>d_loop := L_drain\<rparr>)"
proof -
  have "0 < d_pipe s" using woken_reachable [OF assms(1-3)] assms(4-6) by (auto simp: woken_def)
  with assms(4,5) show ?thesis by (auto intro: loop_step.wake)
qed

theorem signal_no_lost_wakeup_witness:
  "0 < d_pipe one_signal \<and> loop_step code_kernel one_signal (one_signal\<lparr>d_loop := L_drain\<rparr>)"
  by (rule signal_no_lost_wakeup [OF one_signal_reachable])
    (simp_all add: code_kernel_def one_signal_def delivery_init_def)

section \<open>What the loop is told\<close>

text \<open>
  The mask of the code lets one handler run at a time, and then the flags are exactly kept: a handler
  stores into the value it read.
\<close>

fun load_ok :: "int \<Rightarrow> handler_pc list \<Rightarrow> bool" where
  "load_ok v [] = True"
| "load_ok v [H_store sig u] = (u = v)"
| "load_ok v [h] = True"
| "load_ok v (h # h' # hs) = False"

fun announces :: "loop_pc \<Rightarrow> bool" where
  "announces (L_restore e D) = (\<forall>sig\<in>D. has_event e sig)"
| "announces (L_act e D) = (\<forall>sig\<in>D. has_event e sig)"
| "announces _ = True"

definition kept_events :: "delivery \<Rightarrow> bool" where
  "kept_events s \<longleftrightarrow> (\<forall>sig\<in>d_due s. has_event (d_pending s) sig) \<and> load_ok (d_pending s) (d_handlers s) \<and>
     handled ` set (d_handlers s) \<subseteq> {SIGCHLD, SIGINT} \<and> announces (d_loop s)"

lemma load_ok_Cons: "load_ok v (h # hs) \<longleftrightarrow> hs = [] \<and> (\<forall>sig u. h = H_store sig u \<longrightarrow> u = v)"
  by (cases hs; cases h) auto

lemma kept_handler: "kept_events s \<Longrightarrow> handler_step k s s' \<Longrightarrow> k_sa_mask k = handler_mask \<Longrightarrow> kept_events s'"
  by (erule handler_step.cases)
    (auto simp: kept_events_def load_ok_Cons note_has note_keeps handler_mask_def)

lemma kept_loop: "kept_events s \<Longrightarrow> loop_step k s s' \<Longrightarrow> kept_events s'"
  by (erule loop_step.cases) (auto simp: kept_events_def)

lemma kept_reachable:
  assumes "delivery_reachable k s" and "k_sa_mask k = handler_mask"
  shows "kept_events s"
  using assms(1)
proof (rule delivery_invariant)
  show "kept_events delivery_init" by (simp add: kept_events_def delivery_init_def)
qed (use assms(2) kept_handler kept_loop in blast)+

text \<open>The loop alone, from a readable pipe to the events.\<close>

lemma drain_steps:
  "d_handlers s = [] \<Longrightarrow> d_loop s = L_drain \<Longrightarrow>
     rtranclp (loop_step k) s (s\<lparr>d_pipe := 0, d_loop := L_block\<rparr>)"
proof (induction "d_pipe s" arbitrary: s rule: less_induct)
  case less
  show ?case
  proof (cases "d_pipe s")
    case 0
    have "loop_step k s (s\<lparr>d_loop := L_block\<rparr>)" using less.prems 0 by (intro loop_step.empty)
    moreover have "s\<lparr>d_pipe := 0, d_loop := L_block\<rparr> = s\<lparr>d_loop := L_block\<rparr>" using 0 by (cases s) simp
    ultimately show ?thesis by auto
  next
    case (Suc n)
    let ?t = "s\<lparr>d_pipe := d_pipe s - 64\<rparr>"
    have "loop_step k s ?t" using less.prems Suc by (intro loop_step.read) auto
    also have "rtranclp (loop_step k) ?t (?t\<lparr>d_pipe := 0, d_loop := L_block\<rparr>)"
      using less.prems Suc by (intro less.hyps) auto
    finally show ?thesis by simp
  qed
qed

lemma take_steps:
  assumes "d_handlers s = []" and "d_loop s = L_select" and "0 < d_pipe s"
  shows "rtranclp (loop_step k) s (s\<lparr>d_pipe := 0, d_pending := SIGNAL_EVENT_NONE, d_due := {}, d_masked := False,
    d_loop := L_act (d_pending s) (d_due s)\<rparr>)"
proof -
  let ?a = "s\<lparr>d_loop := L_drain\<rparr>" and ?b = "s\<lparr>d_pipe := 0, d_loop := L_block\<rparr>"
  let ?c = "?b\<lparr>d_masked := True, d_loop := L_take\<rparr>"
  let ?d = "?c\<lparr>d_pending := SIGNAL_EVENT_NONE, d_due := {}, d_loop := L_restore (d_pending s) (d_due s)\<rparr>"
  have "loop_step k s ?a" using assms by (intro loop_step.wake)
  also have "rtranclp (loop_step k) ?a ?b" using drain_steps [of ?a k] assms by simp
  also have "loop_step k ?b ?c" using assms by (intro loop_step.block) auto
  also have "loop_step k ?c ?d" using loop_step.take [of ?c k] assms by simp
  also have "loop_step k ?d (?d\<lparr>d_masked := False, d_loop := L_act (d_pending s) (d_due s)\<rparr>)"
    using assms by (intro loop_step.restore) auto
  finally show ?thesis by simp
qed

text \<open>C20: with the signal mask of the code, no event is lost: from any state in which
  the shell sits in its select and events are stored, the steps of the loop alone lead to the branch
  that acts on them, with the flag of every stored signal set.\<close>

theorem signal_reported:
  assumes "delivery_reachable k s" and "0 < k_room k" and "\<not> k_mask_fails k" and "k_sa_mask k = handler_mask"
    and "d_loop s = L_select" and "d_handlers s = []" and "d_due s \<noteq> {}"
  shows "\<exists>s' e. rtranclp (loop_step k) s s' \<and> d_loop s' = L_act e (d_due s) \<and> (\<forall>sig\<in>d_due s. has_event e sig)"
proof -
  have "0 < d_pipe s" using woken_reachable [OF assms(1-3)] assms(5-7) by (auto simp: woken_def)
  moreover have "\<forall>sig\<in>d_due s. has_event (d_pending s) sig"
    using kept_reachable [OF assms(1,4)] by (simp add: kept_events_def)
  moreover from calculation(1) have "rtranclp (loop_step k) s (s\<lparr>d_pipe := 0, d_pending := SIGNAL_EVENT_NONE,
      d_due := {}, d_masked := False, d_loop := L_act (d_pending s) (d_due s)\<rparr>)"
    by (rule take_steps [OF assms(6,5)])
  ultimately show ?thesis by fastforce
qed

theorem signal_reported_witness:
  "\<exists>s' e. rtranclp (loop_step code_kernel) one_signal s' \<and> d_loop s' = L_act e {SIGCHLD} \<and> has_event e SIGCHLD"
proof -
  have "\<exists>s' e. rtranclp (loop_step code_kernel) one_signal s' \<and> d_loop s' = L_act e (d_due one_signal) \<and>
      (\<forall>sig\<in>d_due one_signal. has_event e sig)"
    by (rule signal_reported [OF one_signal_reachable])
      (simp_all add: code_kernel_def one_signal_def delivery_init_def)
  then show ?thesis by (simp add: one_signal_def)
qed

text \<open>C21: with the mask the handlers are installed with, they never interrupt one another, and no
  flag is lost between the read and the write of \<^verbatim>\<open>pending_events |= ...\<close>: at every moment at most one
  handler is in progress, and every signal that has been stored and not yet taken has its flag set.\<close>

theorem signal_flags_kept:
  assumes "delivery_reachable k s" and "k_sa_mask k = handler_mask"
  shows "length (d_handlers s) \<le> 1 \<and> (\<forall>sig\<in>d_due s. has_event (d_pending s) sig)"
  using kept_reachable [OF assms]
  by (cases "d_handlers s") (auto simp: kept_events_def load_ok_Cons)

theorem signal_flags_kept_witness:
  "d_due one_signal = {SIGCHLD} \<and> has_event (d_pending one_signal) SIGCHLD"
  using signal_flags_kept [OF one_signal_reachable]
  by (simp add: code_kernel_def one_signal_def delivery_init_def)

section \<open>Why the mask is needed\<close>

text \<open>
  \<^verbatim>\<open>pending_events |= X\<close> reads and then stores. Were the handlers installed with an empty mask, a SIGCHLD
  could arrive between the two accesses of the handler of SIGINT, and the outer store would overwrite
  the flag of the inner handler. The code does not allow this run.
\<close>

definition nesting :: kernel where
  "nesting = \<lparr>k_sa_mask = [], k_mask_fails = False, k_room = 65536\<rparr>"

text \<open>The interrupted increment, state by state.\<close>

definition race :: "delivery list" where
  "race = (let s0 = delivery_init;
      s1 = s0\<lparr>d_handlers := [H_load SIGINT]\<rparr>;
      s2 = s1\<lparr>d_handlers := [H_store SIGINT 0]\<rparr>;
      s3 = s2\<lparr>d_handlers := [H_load SIGCHLD, H_store SIGINT 0]\<rparr>;
      s4 = s3\<lparr>d_handlers := [H_store SIGCHLD 0, H_store SIGINT 0]\<rparr>;
      s5 = s4\<lparr>d_pending := 1, d_due := {SIGCHLD}, d_handlers := [H_notify SIGCHLD, H_store SIGINT 0]\<rparr>;
      s6 = s5\<lparr>d_pipe := 1, d_handlers := [H_store SIGINT 0]\<rparr>;
      s7 = s6\<lparr>d_pending := 2, d_due := {SIGINT, SIGCHLD}, d_handlers := [H_notify SIGINT]\<rparr>;
      s8 = s7\<lparr>d_pipe := 2, d_handlers := []\<rparr>
    in [s1, s2, s3, s4, s5, s6, s7, s8])"

lemma race_follows: "follow nesting delivery_init race"
  by (simp add: race_def step_simps nesting_def)

lemma race_reachable: "delivery_reachable nesting (last race)"
proof -
  have "race \<noteq> []" by (simp add: race_def)
  then show ?thesis
    using follow_reachable [OF race_follows] by (simp add: delivery_reachable_def)
qed

lemma empty_mask_loses:
  "\<exists>s e D. delivery_reachable nesting s \<and> d_loop s = L_act e D \<and> SIGCHLD \<in> D \<and> \<not> has_event e SIGCHLD"
proof -
  let ?s = "last race"
  have s: "d_handlers ?s = []" "d_loop ?s = L_select" "d_pipe ?s = 2" "d_pending ?s = 2" "SIGCHLD \<in> d_due ?s"
    by (simp_all add: race_def delivery_init_def)
  have "rtranclp (delivery_step nesting) delivery_init ?s"
    using race_reachable by (simp add: delivery_reachable_def)
  also have "rtranclp (delivery_step nesting) ?s (?s\<lparr>d_pipe := 0, d_pending := SIGNAL_EVENT_NONE, d_due := {},
      d_masked := False, d_loop := L_act (d_pending ?s) (d_due ?s)\<rparr>)" (is "rtranclp _ _ ?t")
    using take_steps [OF s(1,2), of nesting] s(3)
    by (rule_tac rtranclp_mono [THEN predicate2D]) (auto simp: delivery_step_def)
  finally have "delivery_reachable nesting ?t" by (simp add: delivery_reachable_def)
  then show ?thesis using s(4,5) by (intro exI conjI) (auto simp: has_event_def)
qed

end
