(* ===== verification/Text_Files.thy ===== *)
theory Text_Files
  imports Config "HOL-Library.Word"
begin

text \<open>
  What the readers of procfs share: the lines that a loop over \<^verbatim>\<open>fgets\<close> sees, the conversions of
  \<^verbatim>\<open>sscanf\<close> they use, and the test for a process directory. \<^verbatim>\<open>%lu\<close> and \<^verbatim>\<open>%llu\<close> convert
  as \<^verbatim>\<open>strtoul\<close> does (white space, a sign, digits; a value out of range is clamped), \<^verbatim>\<open>%u\<close>
  keeps the low 32 bits.
\<close>

section \<open>Lines\<close>

lemma fgets_rest_less: "fgets n data = Some (line, rest, eof) \<Longrightarrow> 2 \<le> n \<Longrightarrow> length rest < length data"
proof -
  assume f: "fgets n data = Some (line, rest, eof)" and n: "2 \<le> n"
  then have d: "data \<noteq> []" by (auto simp: fgets_def split: if_splits)
  let ?window = "take (n - 1) data" and ?body = "takeWhile (\<lambda>c. c \<noteq> LF) (take (n - 1) data)"
  have "?window \<noteq> []" using d n by (cases data) auto
  then have "0 < (if length ?body < length ?window then Suc (length ?body) else length ?body)"
    by (cases "length ?body < length ?window") (auto simp: length_greater_0_conv [symmetric] simp del: length_greater_0_conv)
  with f d show ?thesis by (auto simp: fgets_def Let_def split: if_splits)
qed

function fgets_lines :: "nat \<Rightarrow> string \<Rightarrow> string list" where
  "fgets_lines n data =
     (if n < 2 then []
      else case fgets n data of
        None \<Rightarrow> []
      | Some (line, rest, eof) \<Rightarrow> cstr line # fgets_lines n rest)"
  by pat_completeness auto
termination
  by (relation "measure (\<lambda>(n, data). length data)") (auto dest: fgets_rest_less)

declare fgets_lines.simps [simp del]

section \<open>Conversions\<close>

definition scan_unsigned :: "string \<Rightarrow> (int \<times> string) option" where
  "scan_unsigned s = (let r = strtoul s in if st_conv r then Some (st_value r, st_end r) else None)"

text \<open>\<^verbatim>\<open>sscanf(line, "label %lu")\<close>\<close>

definition scan_field :: "string \<Rightarrow> string \<Rightarrow> int option" where
  "scan_field label line =
     (if starts_with line label then map_option fst (scan_unsigned (drop (length label) line)) else None)"

text \<open>Up to \<open>n\<close> numbers in a row.\<close>

fun scan_numbers :: "nat \<Rightarrow> string \<Rightarrow> int list" where
  "scan_numbers 0 s = []"
| "scan_numbers (Suc n) s =
     (case scan_unsigned s of None \<Rightarrow> [] | Some (v, rest) \<Rightarrow> v # scan_numbers n rest)"

lemma scan_numbers_length: "length (scan_numbers n s) \<le> n"
  by (induction n s rule: scan_numbers.induct) (auto split: option.splits)

lemma strtoul_range: "0 \<le> st_value (strtoul s) \<and> st_value (strtoul s) \<le> ULONG_MAX"
proof -
  have "0 \<le> x mod 18446744073709551616" "x mod 18446744073709551616 \<le> ULONG_MAX" for x :: int
    using pos_mod_bound [of 18446744073709551616 x] by auto
  then show ?thesis by (auto simp: strtoul_def Let_def split: prod.splits)
qed

definition is_pid_name :: "string \<Rightarrow> bool" where
  "is_pid_name name \<longleftrightarrow> name \<noteq> [] \<and> list_all isdigit name"

end
