(* ===== verification/Runtime_Monitor.thy ===== *)
theory Runtime_Monitor
  imports Text_Files
begin

text \<open>
  \<^verbatim>\<open>src/runtime_monitor.c\<close>: processor, memory, load, uptime and number of processes, from procfs.
  The counters of the processor are 64-bit words, and the sums over them wrap as in C. A function
  that fails returns its error as \<open>Inl\<close>; what it may have stored before is not looked at by its
  callers.
\<close>

record CpuSnapshot =
  cs_total :: "64 word"
  cs_idle :: "64 word"

record RuntimeMonitor =
  rm_cpu_usage :: double
  rm_memory_usage :: double
  rm_load_average :: "double \<times> double \<times> double"
  rm_process_count :: "32 word"
  rm_uptime :: double

text \<open>The eight numbers behind \<^verbatim>\<open>cpu\<close>; those that are missing are 0.\<close>

definition cpu_fields :: "string \<Rightarrow> 64 word list" where
  "cpu_fields line =
     (if starts_with line ''cpu'' then map word_of_int (scan_numbers 8 (drop 3 line)) else [])"

definition cpu_snapshot_of :: "64 word list \<Rightarrow> CpuSnapshot" where
  "cpu_snapshot_of values =
     (let f = (\<lambda>i. if i < length values then values ! i else 0) in
      \<lparr>cs_total = f 0 + f 1 + f 2 + f 3 + f 4 + f 5 + f 6 + f 7, cs_idle = f 3 + f 4\<rparr>)"

definition read_cpu_snapshot :: "world \<Rightarrow> ((int + CpuSnapshot) \<times> world) option" where
  "read_cpu_snapshot w = do {
     (fp, w) \<leftarrow> sys (Sys_fopen ''/proc/stat'') w;
     if a_ret fp < 0 then Some (Inl ERR_OPEN, w)
     else do {
       w \<leftarrow> sysv (Sys_fclose (a_ret fp)) w;
       case fgets 256 (a_bytes fp) of
         None \<Rightarrow> Some (Inl ERR_UNKNOWN, w)
       | Some (line, rest, eof) \<Rightarrow>
           let values = cpu_fields (cstr line); snapshot = cpu_snapshot_of values in
           if length values < 4 then Some (Inl ERR_UNKNOWN, w)
           else if cs_total snapshot = 0 then Some (Inl ERR_UNKNOWN, w)
           else Some (Inr snapshot, w) } }"

definition wait_cpu_sample :: "world \<Rightarrow> (int \<times> world) option" where
  "wait_cpu_sample w = do {
     (a, w) \<leftarrow> sys_retry Sys_nanosleep w;
     Some (if a_ret a < 0 then ERR_UNKNOWN else OK, w) }"

text \<open>A share in percent.\<close>

definition percent :: "64 word \<Rightarrow> 64 word \<Rightarrow> double" where
  "percent part whole = of_nat (unat part) * 100 / of_nat (unat whole)"

definition cpu_usage :: "CpuSnapshot \<Rightarrow> CpuSnapshot \<Rightarrow> int + double" where
  "cpu_usage before after =
     (if cs_total after \<le> cs_total before \<or> cs_idle after < cs_idle before then Inl ERR_UNKNOWN
      else
        let total_delta = cs_total after - cs_total before;
            idle_delta = cs_idle after - cs_idle before
        in if total_delta < idle_delta then Inl ERR_UNKNOWN
           else Inr (percent (total_delta - idle_delta) total_delta))"

definition read_cpu :: "world \<Rightarrow> ((int + double) \<times> world) option" where
  "read_cpu w = do {
     (before, w) \<leftarrow> read_cpu_snapshot w;
     case before of
       Inl r \<Rightarrow> Some (Inl r, w)
     | Inr before \<Rightarrow> do {
         (r, w) \<leftarrow> wait_cpu_sample w;
         if r \<noteq> OK then Some (Inl r, w)
         else do {
           (after, w) \<leftarrow> read_cpu_snapshot w;
           case after of
             Inl r \<Rightarrow> Some (Inl r, w)
           | Inr after \<Rightarrow> Some (cpu_usage before after, w) } } }"

text \<open>One line of \<^verbatim>\<open>/proc/meminfo\<close>, on the pair of total and available.\<close>

definition memory_line :: "64 word \<times> 64 word \<Rightarrow> string \<Rightarrow> 64 word \<times> 64 word" where
  "memory_line m line =
     (case scan_field ''MemTotal:'' line of
        Some v \<Rightarrow> (word_of_int v, snd m)
      | None \<Rightarrow>
          (case scan_field ''MemAvailable:'' line of
             Some v \<Rightarrow> (fst m, word_of_int v)
           | None \<Rightarrow> m))"

definition read_memory :: "world \<Rightarrow> ((int + double) \<times> world) option" where
  "read_memory w = do {
     (fp, w) \<leftarrow> sys (Sys_fopen ''/proc/meminfo'') w;
     if a_ret fp < 0 then Some (Inl ERR_OPEN, w)
     else do {
       let (total, available) = foldl memory_line (0, 0) (fgets_lines 256 (a_bytes fp));
       w \<leftarrow> sysv (Sys_fclose (a_ret fp)) w;
       if total = 0 \<or> total < available then Some (Inl ERR_UNKNOWN, w)
       else Some (Inr (percent (total - available) total), w) } }"

text \<open>\<^verbatim>\<open>fscanf\<close> of \<open>n\<close> doubles: what was converted is in the answer.\<close>

definition scan_doubles :: "string \<Rightarrow> nat \<Rightarrow> world \<Rightarrow> ((int + double list) \<times> world) option" where
  "scan_doubles path n w = do {
     (fp, w) \<leftarrow> sys (Sys_fopen path) w;
     if a_ret fp < 0 then Some (Inl ERR_OPEN, w)
     else do {
       (a, w) \<leftarrow> sys (Sys_fscanf n) w;
       w \<leftarrow> sysv (Sys_fclose (a_ret fp)) w;
       Some (if a_ret a = int n then Inr (take n (a_doubles a @ replicate n 0)) else Inl ERR_UNKNOWN, w) } }"

definition read_load :: "world \<Rightarrow> ((int + double \<times> double \<times> double) \<times> world) option" where
  "read_load w = do {
     (r, w) \<leftarrow> scan_doubles ''/proc/loadavg'' 3 w;
     Some (case r of Inl e \<Rightarrow> Inl e | Inr l \<Rightarrow> Inr (l ! 0, l ! 1, l ! 2), w) }"

definition read_uptime :: "world \<Rightarrow> ((int + double) \<times> world) option" where
  "read_uptime w = do {
     (r, w) \<leftarrow> scan_doubles ''/proc/uptime'' 1 w;
     Some (case r of Inl e \<Rightarrow> Inl e | Inr l \<Rightarrow> Inr (l ! 0), w) }"

definition read_process_count :: "world \<Rightarrow> ((int + 32 word) \<times> world) option" where
  "read_process_count w = do {
     (dir, w) \<leftarrow> sys (Sys_opendir ''/proc'') w;
     if a_ret dir < 0 then Some (Inl ERR_OPEN, w)
     else do {
       let result = foldl (\<lambda>count name. if is_pid_name (cstr name) then count + 1 else count) 0 (a_names dir);
       w \<leftarrow> sysv (Sys_closedir (a_ret dir)) w;
       Some (Inr result, w) } }"

definition runtime_monitor_collect :: "world \<Rightarrow> ((int + RuntimeMonitor) \<times> world) option" where
  "runtime_monitor_collect w = do {
     (cpu, w) \<leftarrow> read_cpu w;
     case cpu of Inl r \<Rightarrow> Some (Inl r, w) | Inr cpu \<Rightarrow> do {
     (memory, w) \<leftarrow> read_memory w;
     case memory of Inl r \<Rightarrow> Some (Inl r, w) | Inr memory \<Rightarrow> do {
     (load, w) \<leftarrow> read_load w;
     case load of Inl r \<Rightarrow> Some (Inl r, w) | Inr load \<Rightarrow> do {
     (uptime, w) \<leftarrow> read_uptime w;
     case uptime of Inl r \<Rightarrow> Some (Inl r, w) | Inr uptime \<Rightarrow> do {
     (processes, w) \<leftarrow> read_process_count w;
     Some (case processes of
         Inl r \<Rightarrow> Inl r
       | Inr n \<Rightarrow> Inr \<lparr>rm_cpu_usage = cpu, rm_memory_usage = memory, rm_load_average = load,
                       rm_process_count = n, rm_uptime = uptime\<rparr>, w) } } } } }"

section \<open>Effects\<close>

text \<open>A reading is calm, and what it yields satisfies a bound.\<close>

definition reads :: "('a \<Rightarrow> bool) \<Rightarrow> world \<Rightarrow> (int + 'a) \<times> world \<Rightarrow> bool" where
  "reads P w res \<longleftrightarrow> calm w (snd res) \<and> (\<forall>x. fst res = Inr x \<longrightarrow> P x)"

lemma reads_simps [simp]:
  "reads P w (Inl r, w') = calm w w'" "reads P w (Inr x, w') \<longleftrightarrow> calm w w' \<and> P x"
  by (auto simp: reads_def)

definition percentage :: "double \<Rightarrow> bool" where
  "percentage u \<longleftrightarrow> 0 \<le> u \<and> u \<le> 100"

lemma percent_rat: "0 < t \<Longrightarrow> 0 \<le> p \<Longrightarrow> p \<le> (t :: double) \<Longrightarrow> 0 \<le> p * 100 / t \<and> p * 100 / t \<le> 100"
  by (simp add: divide_le_eq)

lemma percent_range: "part \<le> whole \<Longrightarrow> percentage (percent part whole)"
proof (cases "unat whole = 0")
  case False
  then have "(0 :: double) < of_nat (unat whole)" by (simp only: of_nat_0_less_iff)
  moreover assume "part \<le> whole"
  then have "(of_nat (unat part) :: double) \<le> of_nat (unat whole)"
    by (intro of_nat_mono) (simp add: word_le_nat_alt)
  moreover have "(0 :: double) \<le> of_nat (unat part)" by (rule of_nat_0_le_iff)
  ultimately show ?thesis unfolding percentage_def percent_def by (intro percent_rat)
qed (simp add: percentage_def percent_def)

lemma reads_mono:
  "ensures m (reads P w) \<Longrightarrow> (\<And>e v. calm w v \<Longrightarrow> Q (Inl e, v)) \<Longrightarrow>
     (\<And>x v. calm w v \<Longrightarrow> P x \<Longrightarrow> Q (Inr x, v)) \<Longrightarrow> ensures m Q"
  by (simp add: ensures_def reads_def) (metis sum.exhaust)

lemmas reads_paths = vcg ensures_split

lemma read_cpu_snapshot_eff: "ensures (read_cpu_snapshot w) (reads (\<lambda>s. True) w)"
  unfolding read_cpu_snapshot_def
  by (intro vcg ensures_option ensures_split) (auto simp: effects ensures_def)

lemma wait_cpu_sample_eff: "ensures (wait_cpu_sample w) (\<lambda>(r, w'). calm w w')"
  unfolding wait_cpu_sample_def by (intro vcg) auto

lemma cpu_usage_range: "cpu_usage before after = Inr u \<Longrightarrow> percentage u"
  by (auto simp: cpu_usage_def Let_def not_less split: if_splits
      intro!: percent_range word_sub_le)


lemma read_cpu_eff: "ensures (read_cpu w) (reads percentage w)"
  unfolding read_cpu_def
  by (intro vcg ensures_sum reads_mono [OF read_cpu_snapshot_eff] ensures_mono2 [OF wait_cpu_sample_eff])
    (auto simp: reads_def intro: calm_trans cpu_usage_range)

lemma read_memory_eff: "ensures (read_memory w) (reads percentage w)"
  unfolding read_memory_def
  by (intro vcg ensures_split) (auto simp: effects not_less intro!: percent_range word_sub_le)

lemma scan_doubles_eff: "ensures (scan_doubles path n w) (reads (\<lambda>l. length l = n) w)"
  unfolding scan_doubles_def by (intro vcg) (auto simp: effects)

lemma read_load_eff: "ensures (read_load w) (reads (\<lambda>l. True) w)"
  unfolding read_load_def by (intro vcg reads_mono [OF scan_doubles_eff]) (auto simp: reads_def split: sum.splits)

lemma read_uptime_eff: "ensures (read_uptime w) (reads (\<lambda>l. True) w)"
  unfolding read_uptime_def by (intro vcg reads_mono [OF scan_doubles_eff]) (auto simp: reads_def split: sum.splits)

lemma read_process_count_eff: "ensures (read_process_count w) (reads (\<lambda>n. True) w)"
  unfolding read_process_count_def by (intro vcg) (auto simp: effects)

definition monitor_ok :: "RuntimeMonitor \<Rightarrow> bool" where
  "monitor_ok m \<longleftrightarrow> percentage (rm_cpu_usage m) \<and> percentage (rm_memory_usage m)"

lemma runtime_monitor_collect_eff: "ensures (runtime_monitor_collect w) (reads monitor_ok w)"
  unfolding runtime_monitor_collect_def
  by (intro vcg ensures_sum reads_mono [OF read_cpu_eff] reads_mono [OF read_memory_eff]
      reads_mono [OF read_load_eff] reads_mono [OF read_uptime_eff] reads_mono [OF read_process_count_eff])
    (auto simp: reads_def monitor_ok_def move_simps split: sum.splits)

section \<open>Properties\<close>

text \<open>C39: the share of busy time between two samples is computed without any wrap-around: with
  the counters read as natural numbers, there is a result exactly when time has passed, the idle
  counter has not gone back and has not outrun the total, and then it is the busy part of the time
  that has passed, in percent and so between 0 and 100.\<close>

theorem cpu_usage_exact:
  "cpu_usage before after = Inr u \<longleftrightarrow>
     (let t = unat (cs_total after) - unat (cs_total before); i = unat (cs_idle after) - unat (cs_idle before) in
      unat (cs_total before) < unat (cs_total after) \<and> unat (cs_idle before) \<le> unat (cs_idle after) \<and> i \<le> t \<and>
      u = of_nat (t - i) * 100 / of_nat t \<and> 0 \<le> u \<and> u \<le> 100)"
proof -
  have u: "cpu_usage before after = Inr u \<Longrightarrow> 0 \<le> u \<and> u \<le> 100"
    using cpu_usage_range by (simp add: percentage_def)
  show ?thesis
  proof (cases "cs_total before < cs_total after \<and> cs_idle before \<le> cs_idle after")
    case True
    then have t: "unat (cs_total after - cs_total before) = unat (cs_total after) - unat (cs_total before)"
      and i: "unat (cs_idle after - cs_idle before) = unat (cs_idle after) - unat (cs_idle before)"
      by (simp_all add: unat_sub less_imp_le)
    have "unat (t' - i') = unat t' - unat i'" if "i' \<le> t'" for t' i' :: "64 word" using that by (rule unat_sub)
    then show ?thesis
      using True u t i
      by (auto simp: cpu_usage_def Let_def percent_def word_less_nat_alt word_le_nat_alt not_less not_le
          simp del: of_nat_unat split: if_splits)
  next
    case False
    then show ?thesis
      by (auto simp: cpu_usage_def Let_def word_less_nat_alt word_le_nat_alt)
  qed
qed


text \<open>C38: a runtime report that is produced shows shares of processor and memory between 0
  and 100 percent, whatever procfs holds and however its counters wrap; producing it, or failing to,
  leaves no block, no descriptor and no static of the shell changed.\<close>

theorem runtime_monitor_bounds:
  assumes "runtime_monitor_collect w = Some (r, w')"
  shows "(\<forall>m. r = Inr m \<longrightarrow> 0 \<le> rm_cpu_usage m \<and> rm_cpu_usage m \<le> 100 \<and>
        0 \<le> rm_memory_usage m \<and> rm_memory_usage m \<le> 100) \<and>
     w_live w' = w_live w \<and> fd_bal w' fd = fd_bal w fd \<and> same_statics w w'"
  using ensures_D [OF assms runtime_monitor_collect_eff]
  by (auto simp: reads_def monitor_ok_def percentage_def calm_moves moves_iff)

definition file_of :: "string \<Rightarrow> answer" where
  "file_of text1 = (ok 0)\<lparr>a_bytes := text1\<rparr>"

definition demo_procfs :: "answer list" where
  "demo_procfs =
     [file_of (''cpu  10 0 10 80'' @ [LF]), ok 0, ok 0, file_of (''cpu  20 0 20 160'' @ [LF]), ok 0,
      file_of (''MemTotal:  400 kB'' @ [LF] @ ''MemAvailable: 100 kB'' @ [LF]), ok 0,
      ok 0, (ok 3)\<lparr>a_doubles := [1, 2, 3]\<rparr>, ok 0, ok 0, (ok 1)\<lparr>a_doubles := [90061]\<rparr>, ok 0,
      (ok 0)\<lparr>a_names := [''1'', ''self'', ''42'']\<rparr>, ok 0]"

theorem runtime_monitor_bounds_witness:
  "\<exists>m w'. runtime_monitor_collect (init_world demo_procfs) = Some (Inr m, w') \<and>
     rm_cpu_usage m = 20 \<and> rm_memory_usage m \<le> 100"
proof -
  have "map_option (map_sum (\<lambda>_. True) rm_cpu_usage \<circ> fst) (runtime_monitor_collect (init_world demo_procfs)) = Some (Inr 20)"
    by code_simp
  then obtain r w' where "runtime_monitor_collect (init_world demo_procfs) = Some (r, w')"
    and "map_sum (\<lambda>_. True) rm_cpu_usage r = Inr 20" by auto
  moreover from this(2) obtain m where "r = Inr m" "rm_cpu_usage m = 20" by (cases r) auto
  ultimately have run: "runtime_monitor_collect (init_world demo_procfs) = Some (Inr m, w')" and m: "rm_cpu_usage m = 20"
    by auto
  from runtime_monitor_bounds [OF run, of 0] run m show ?thesis by auto
qed

end
