(* ===== verification/Sysfs_IO.thy ===== *)
theory Sysfs_IO
  imports World "HOL-Library.Word"
begin

text \<open>
  \<^verbatim>\<open>src/sysfs_io.c\<close>: small text files of sysfs and procfs, read and written with unbuffered calls,
  and the two helpers that \<^verbatim>\<open>thermal_monitor.c\<close>, \<^verbatim>\<open>network_monitor.c\<close> and
  \<^verbatim>\<open>hardware_info.c\<close> each define for themselves.

  The text a function leaves in the caller's buffer is part of its result. Callers pass zeroed memory
  or ignore the buffer of a failed read, so before a read the buffer counts as empty.
  \<^verbatim>\<open>unsigned long\<close> and \<^verbatim>\<open>unsigned long long\<close> are 64-bit words.
\<close>

section \<open>Copies and paths\<close>

definition copy_text :: "nat \<Rightarrow> string \<Rightarrow> string" where
  "copy_text dst_size src =
     (let src = cstr src;
          length = (if dst_size \<le> length src then dst_size - 1 else length src)
      in take length src)"

definition build_path :: "nat \<Rightarrow> string \<Rightarrow> string \<Rightarrow> string \<Rightarrow> string option" where
  "build_path room base name file =
     (let written = base @ ''/'' @ name @ ''/'' @ file
      in if room \<le> length written then None else Some written)"

lemma copy_text_length: "0 < n \<Longrightarrow> length (copy_text n s) < n"
  by (simp add: copy_text_def Let_def)

lemma copy_text_id: "NUL \<notin> set s \<Longrightarrow> length s < n \<Longrightarrow> copy_text n s = s"
  by (simp add: copy_text_def cstr_id)

section \<open>Reading\<close>

text \<open>What a read of at most \<open>n\<close> bytes stored: a kernel never returns more than it was asked for.\<close>

definition read_data :: "nat \<Rightarrow> answer \<Rightarrow> string" where
  "read_data n a = (let k = min n (nat (a_ret a)) in take k (a_bytes a @ replicate k NUL))"

lemma length_read_data: "length (read_data n a) = min n (nat (a_ret a))"
  by (simp add: read_data_def Let_def)

definition eol_stripped :: "string \<Rightarrow> string" where
  "eol_stripped buffer = rev (dropWhile (\<lambda>c. c = LF \<or> c = CR) (rev buffer))"

text \<open>The loop; false when a read failed, the file is closed then.\<close>

function sysfs_read_loop :: "int \<Rightarrow> nat \<Rightarrow> string \<Rightarrow> world \<Rightarrow> (bool \<times> string \<times> world) option" where
  "sysfs_read_loop fd room buffer w =
     (if room - 1 \<le> length buffer then Some (True, buffer, w)
      else
        (case sys (Sys_read fd (room - length buffer - 1)) w of
           None \<Rightarrow> None
         | Some (count, w) \<Rightarrow>
             if a_ret count < 0
             then (if a_err count = EINTR then sysfs_read_loop fd room buffer w
                   else do {
                     w \<leftarrow> sysv (Sys_close fd) w;
                     Some (False, buffer, w) })
             else if a_ret count = 0 then Some (True, buffer, w)
             else sysfs_read_loop fd room (buffer @ read_data (room - length buffer - 1) count) w))"
  by pat_completeness auto
termination
  by (relation "measure (\<lambda>(fd, room, buffer, w). length (w_script w))") (auto dest: sys_script_less)

declare sysfs_read_loop.simps [simp del]

definition sysfs_read_text :: "string \<Rightarrow> nat \<Rightarrow> world \<Rightarrow> (int \<times> string \<times> world) option" where
  "sysfs_read_text path room w =
     (if room < 2 then Some (-1, [], w)
      else do {
        (fd, w) \<leftarrow> sys (Sys_open path [O_RDONLY, O_CLOEXEC]) w;
        if a_ret fd < 0 then Some (-1, [], w)
        else do {
          (complete, buffer, w) \<leftarrow> sysfs_read_loop (a_ret fd) room [] w;
          if \<not> complete then Some (-1, cstr buffer, w)
          else do {
            (r, w) \<leftarrow> sys (Sys_close (a_ret fd)) w;
            if a_ret r < 0 then Some (-1, cstr buffer, w)
            else Some (0, cstr (eol_stripped buffer), w) } } })"

text \<open>A number: \<open>None\<close> where the code returns -1 and leaves the variable alone.\<close>

definition sysfs_read_long :: "string \<Rightarrow> world \<Rightarrow> (int option \<times> world) option" where
  "sysfs_read_long path w = do {
     (r, buffer, w) \<leftarrow> sysfs_read_text path 64 w;
     if r < 0 then Some (None, w)
     else
       let result = strtol buffer in
       if st_range result \<or> \<not> st_conv result \<or> st_end result \<noteq> [] then Some (None, w)
       else Some (Some (st_value result), w) }"

definition sysfs_read_ulong :: "string \<Rightarrow> world \<Rightarrow> (64 word option \<times> world) option" where
  "sysfs_read_ulong path w = do {
     (r, buffer, w) \<leftarrow> sysfs_read_text path 64 w;
     if r < 0 then Some (None, w)
     else if take 1 buffer = ''-'' then Some (None, w)
     else
       let result = strtoul buffer in
       if st_range result \<or> \<not> st_conv result \<or> st_end result \<noteq> [] then Some (None, w)
       else Some (Some (word_of_int (st_value result)), w) }"

definition sysfs_read_ull :: "string \<Rightarrow> world \<Rightarrow> (64 word option \<times> world) option" where
  "sysfs_read_ull path w = do {
     (r, buffer, w) \<leftarrow> sysfs_read_text path 64 w;
     if r < 0 then Some (None, w)
     else if take 1 buffer = ''-'' then Some (None, w)
     else
       let result = strtoul buffer in
       if st_range result \<or> \<not> st_conv result \<or> st_end result \<noteq> [] then Some (None, w)
       else Some (Some (word_of_int (st_value result)), w) }"

section \<open>Writing\<close>

definition sysfs_write_text :: "string \<Rightarrow> string \<Rightarrow> world \<Rightarrow> (int \<times> world) option" where
  "sysfs_write_text path value w =
     (if value = [] then Some (-1, w)
      else do {
        (fd, w) \<leftarrow> sys (Sys_open path [O_WRONLY, O_CLOEXEC]) w;
        if a_ret fd < 0 then Some (-1, w)
        else do {
          (written, w) \<leftarrow> sys_retry (Sys_write (a_ret fd) value) w;
          if a_ret written < 0 \<or> a_ret written \<noteq> int (length value)
          then do {
            w \<leftarrow> sysv (Sys_close (a_ret fd)) w;
            Some (-1, w) }
          else do {
            (r, w) \<leftarrow> sys (Sys_close (a_ret fd)) w;
            if a_ret r < 0 then Some (-1, w) else Some (0, w) } } })"

section \<open>Effects\<close>

lemma called_view:
  "called c a w w' \<Longrightarrow>
     length (w_script w') < length (w_script w) \<and> view w' = vmove 0 (fd_delta c a) (view w)"
  using called_moves by (auto simp: called_def moves_def)

lemma read_loop_eff:
  "ensures (sysfs_read_loop fd room buffer w)
     (\<lambda>(complete, b, w'). moves 0 (\<lambda>k. if complete then 0 else - of_bool (k = fd)) w w')"
proof (induction w arbitrary: buffer rule: script_induct)
  case (less w)
  show ?case
    by (subst sysfs_read_loop.simps, intro vcg ensures_mono3 [OF less])
      (auto dest!: called_view simp: moves_def)
qed

lemma sysfs_read_text_calm: "ensures (sysfs_read_text path room w) (\<lambda>(r, text, w'). calm w w' \<and> r \<in> {0, -1})"
  unfolding sysfs_read_text_def
  by (intro vcg ensures_mono3 [OF read_loop_eff]) (auto dest!: called_view simp: move_simps)

lemmas sysfs_text [vcg] = ensures_mono3 [OF sysfs_read_text_calm]

lemma sysfs_read_long_calm: "ensures (sysfs_read_long path w) (\<lambda>(v, w'). calm w w')"
  unfolding sysfs_read_long_def by (intro vcg) auto

lemma sysfs_read_ulong_calm: "ensures (sysfs_read_ulong path w) (\<lambda>(v, w'). calm w w')"
  unfolding sysfs_read_ulong_def by (intro vcg) auto

lemma sysfs_read_ull_calm: "ensures (sysfs_read_ull path w) (\<lambda>(v, w'). calm w w')"
  unfolding sysfs_read_ull_def by (intro vcg) auto

lemma sysfs_write_text_calm: "ensures (sysfs_write_text path value w) (\<lambda>(r, w'). calm w w' \<and> r \<in> {0, -1})"
  unfolding sysfs_write_text_def
  by (intro vcg) (auto dest!: called_view simp: move_simps)

lemmas sysfs_calm [vcg] =
  ensures_mono2 [OF sysfs_read_long_calm] ensures_mono2 [OF sysfs_read_ulong_calm]
  ensures_mono2 [OF sysfs_read_ull_calm] ensures_mono2 [OF sysfs_write_text_calm]


section \<open>What is read\<close>

text \<open>The bytes that the reads of a trace have stored.\<close>

definition trace_data :: "trace \<Rightarrow> string" where
  "trace_data t = concat (map (\<lambda>(c, a). case c of Sys_read fd n \<Rightarrow> read_data n a | _ \<Rightarrow> []) t)"

lemma trace_data_simps [simp]:
  "trace_data [] = []" "trace_data (s @ t) = trace_data s @ trace_data t"
  "trace_data ((Sys_read fd n, a) # t) = read_data n a @ trace_data t"
  "trace_data ((Sys_open p l, a) # t) = trace_data t" "trace_data ((Sys_close fd, a) # t) = trace_data t"
  by (simp_all add: trace_data_def)

lemma read_data_none: "a_ret a \<le> 0 \<Longrightarrow> read_data n a = []"
  by (simp add: read_data_def)

definition reads_only :: "int \<Rightarrow> trace \<Rightarrow> bool" where
  "reads_only fd t \<longleftrightarrow> (\<forall>(c, a)\<in>set t. (\<exists>n. c = Sys_read fd n) \<or> c = Sys_close fd)"

lemma reads_only_simps [simp]:
  "reads_only fd []" "reads_only fd ((Sys_read fd n, a) # t) = reads_only fd t"
  "reads_only fd ((Sys_close fd, a) # t) = reads_only fd t"
  "reads_only fd (s @ t) = (reads_only fd s \<and> reads_only fd t)"
  by (auto simp: reads_only_def)

lemma read_loop_data:
  "ensures (sysfs_read_loop fd room buffer w) (\<lambda>(complete, b, w').
     \<exists>t. w_trace w' = w_trace w @ t \<and> b = buffer @ trace_data t \<and> reads_only fd t \<and>
         (length buffer < room \<longrightarrow> length b < room))"
proof (induction w arbitrary: buffer rule: script_induct)
  case (less w)
  show ?case
    by (subst sysfs_read_loop.simps, intro vcg ensures_mono3 [OF less])
      (auto simp: called_def read_data_none length_read_data)
qed

lemma eol_stripped_length: "length (eol_stripped b) \<le> length b"
  using length_dropWhile_le [of _ "rev b"] by (simp add: eol_stripped_def)

lemma sysfs_read_text_data:
  "ensures (sysfs_read_text path room w) (\<lambda>(r, text, w'). r = 0 \<longrightarrow>
     (\<exists>a t. w_trace w' = w_trace w @ (Sys_open path [O_RDONLY, O_CLOEXEC], a) # t \<and> reads_only (a_ret a) t \<and>
        text = cstr (eol_stripped (trace_data t)) \<and> length (trace_data t) < room))"
  unfolding sysfs_read_text_def
  by (intro paths ensures_sys ensures_sysv ensures_mono3 [OF read_loop_data]) (auto simp: called_def)

text \<open>C35: a text file read with success is the concatenation of what the reads of the one
  descriptor returned, short and interrupted reads included, cut before the first NUL and without
  its trailing line ends; it fits the buffer with its NUL, and the descriptor is closed again.\<close>

theorem sysfs_read_text_file:
  assumes "sysfs_read_text path room w = Some (0, text, w')"
  shows "(\<exists>a t. w_trace w' = w_trace w @ (Sys_open path [O_RDONLY, O_CLOEXEC], a) # t \<and> reads_only (a_ret a) t \<and>
        text = cstr (eol_stripped (trace_data t)) \<and> length (trace_data t) < room) \<and>
     length text < room \<and> fd_bal w' fd = fd_bal w fd"
proof -
  obtain a t where t: "w_trace w' = w_trace w @ (Sys_open path [O_RDONLY, O_CLOEXEC], a) # t"
      "reads_only (a_ret a) t" "text = cstr (eol_stripped (trace_data t))" "length (trace_data t) < room"
    using ensures_D3 [OF assms sysfs_read_text_data] by auto
  have "length text \<le> length (trace_data t)"
    using t(3) cstr_length le_trans eol_stripped_length by metis
  moreover have "fd_bal w' fd = fd_bal w fd"
    using ensures_D3 [OF assms sysfs_read_text_calm] by (auto simp: calm_def quiet_def)
  ultimately show ?thesis using t by auto
qed

text \<open>A file read in two pieces with an interruption between them.\<close>

definition demo_file :: "answer list" where
  "demo_file = [ok 5, (ok 2)\<lparr>a_bytes := ''42''\<rparr>, fail EINTR, (ok 2)\<lparr>a_bytes := ''7'' @ [LF]\<rparr>, ok 0, ok 0]"

theorem sysfs_read_text_file_witness:
  "\<exists>w'. sysfs_read_text ''temp'' 64 (init_world demo_file) = Some (0, ''427'', w') \<and> fd_bal w' 5 = 0"
proof -
  have "map_option (\<lambda>(r, text, w). (r, text)) (sysfs_read_text ''temp'' 64 (init_world demo_file)) = Some (0, ''427'')"
    by code_simp
  then obtain w' where run: "sysfs_read_text ''temp'' 64 (init_world demo_file) = Some (0, ''427'', w')" by auto
  from sysfs_read_text_file [OF run, of 5] run show ?thesis by (simp add: init_world_def)
qed

lemma strtoul_show_nat:
  "strtoul (show_nat n) =
     (if ULONG_MAX < int n then \<lparr>st_value = ULONG_MAX, st_range = True, st_conv = True, st_end = []\<rparr>
      else \<lparr>st_value = int n, st_range = False, st_conv = True, st_end = []\<rparr>)"
  by (simp add: strtoul_def dropWhile_space_show_nat split_sign_show_nat dec_value_show_nat)

lemma show_nat_no_minus: "take 1 (show_nat n) \<noteq> ''-''"
  using hd_show_nat [of n] by (cases "show_nat n") (auto dest: isdigit_sign)

text \<open>C36: a counter printed in decimal is read back exactly while it fits 64 bits, and rejected
  beyond: neither of the two readers ever wraps or clamps what a decimal number says.\<close>

theorem sysfs_counters:
  assumes "sysfs_read_text path 64 w = Some (0, show_nat n, w')"
  shows "sysfs_read_ulong path w = Some (if n < 2 ^ 64 then Some (of_nat n) else None, w') \<and>
     sysfs_read_ull path w = Some (if n < 2 ^ 64 then Some (of_nat n) else None, w')"
  using assms show_nat_no_minus
  by (auto simp: sysfs_read_ulong_def sysfs_read_ull_def strtoul_show_nat)

theorem sysfs_counters_witness:
  "\<exists>w'. sysfs_read_ull ''rx_bytes'' (init_world demo_file) = Some (Some 427, w')"
proof -
  have "map_option (\<lambda>(r, text, w). (r, text)) (sysfs_read_text ''rx_bytes'' 64 (init_world demo_file)) =
      Some (0, show_nat 427)" by code_simp
  then obtain w' where run: "sysfs_read_text ''rx_bytes'' 64 (init_world demo_file) = Some (0, show_nat 427, w')"
    by auto
  from sysfs_counters [OF run] show ?thesis by simp
qed






end
