(* ===== verification/Directory.thy ===== *)
theory Directory
  imports Sysfs_IO
begin

text \<open>
  The shape that the board monitors share: open a directory, look at its entries one by one, read the
  attribute files of those that matter into a table of fixed size, close the directory. The locale
  \<open>collector\<close> is what such a monitor owes, and what it gets for it.
\<close>

section \<open>Attributes\<close>

text \<open>
  \<^verbatim>\<open>if (build_path(path, sizeof(path), base, name, file) == 0) ...\<close>: an attribute whose path is too
  long is skipped. A text that cannot be read is what the read left in the zeroed buffer; a number that
  cannot be read leaves the field and its \<^verbatim>\<open>has_\<close> flag zero, together \<open>None\<close>.
\<close>

abbreviation (input) PATH_SIZE :: nat where "PATH_SIZE \<equiv> 512"

definition attr_text :: "string \<Rightarrow> string \<Rightarrow> string \<Rightarrow> nat \<Rightarrow> world \<Rightarrow> (string \<times> world) option" where
  "attr_text base name file room w =
     (case build_path PATH_SIZE base name file of
        None \<Rightarrow> Some ([], w)
      | Some path \<Rightarrow> do {
          (r, text, w) \<leftarrow> sysfs_read_text path room w;
          Some (text, w) })"

definition attr_long :: "string \<Rightarrow> string \<Rightarrow> string \<Rightarrow> world \<Rightarrow> (int option \<times> world) option" where
  "attr_long base name file w =
     (case build_path PATH_SIZE base name file of
        None \<Rightarrow> Some (None, w)
      | Some path \<Rightarrow> sysfs_read_long path w)"

definition attr_ulong :: "string \<Rightarrow> string \<Rightarrow> string \<Rightarrow> world \<Rightarrow> (64 word option \<times> world) option" where
  "attr_ulong base name file w =
     (case build_path PATH_SIZE base name file of
        None \<Rightarrow> Some (None, w)
      | Some path \<Rightarrow> sysfs_read_ulong path w)"

definition attr_ull :: "string \<Rightarrow> string \<Rightarrow> string \<Rightarrow> world \<Rightarrow> (64 word option \<times> world) option" where
  "attr_ull base name file w =
     (case build_path PATH_SIZE base name file of
        None \<Rightarrow> Some (None, w)
      | Some path \<Rightarrow> sysfs_read_ull path w)"

lemma attr_calm:
  "ensures (attr_text base name file room w) (\<lambda>(t, w'). calm w w')"
  "ensures (attr_long base name file w) (\<lambda>(v, w'). calm w w')"
  "ensures (attr_ulong base name file w) (\<lambda>(u, w'). calm w w')"
  "ensures (attr_ull base name file w) (\<lambda>(u, w'). calm w w')"
  unfolding attr_text_def attr_long_def attr_ulong_def attr_ull_def
  by (intro vcg ensures_option; auto)+

lemmas attr_vcg [vcg] =
  ensures_mono2 [OF attr_calm(1)] ensures_mono2 [OF attr_calm(2)]
  ensures_mono2 [OF attr_calm(3)] ensures_mono2 [OF attr_calm(4)]

section \<open>Entries\<close>

text \<open>The loop over \<^verbatim>\<open>readdir\<close>; a probe that gives nothing does not count its entry.\<close>

fun collect_entries ::
  "(string \<Rightarrow> bool) \<Rightarrow> nat \<Rightarrow> (string \<Rightarrow> world \<Rightarrow> ('a option \<times> world) option) \<Rightarrow> string list \<Rightarrow> 'a list \<Rightarrow> world \<Rightarrow>
   ('a list \<times> world) option" where
  "collect_entries keep limit probe [] found w = Some (found, w)"
| "collect_entries keep limit probe (name # names) found w =
     (if \<not> keep name then collect_entries keep limit probe names found w
      else if limit \<le> length found then Some (found, w)
      else do {
        (entry, w) \<leftarrow> probe name w;
        collect_entries keep limit probe names (case entry of None \<Rightarrow> found | Some x \<Rightarrow> found @ [x]) w })"

text \<open>\<open>None\<close>: the directory cannot be opened.\<close>

definition collect_directory ::
  "string \<Rightarrow> (string \<Rightarrow> bool) \<Rightarrow> nat \<Rightarrow> (string \<Rightarrow> world \<Rightarrow> ('a option \<times> world) option) \<Rightarrow> world \<Rightarrow>
   ('a list option \<times> world) option" where
  "collect_directory base keep limit probe w = do {
     (dir, w) \<leftarrow> sys (Sys_opendir base) w;
     if a_ret dir < 0 then Some (None, w)
     else do {
       (found, w) \<leftarrow> collect_entries keep limit probe (map cstr (a_names dir)) [] w;
       w \<leftarrow> sysv (Sys_closedir (a_ret dir)) w;
       Some (Some found, w) } }"

text \<open>
  What a monitor owes: reading an entry is calm and what it yields is good for that entry. \<open>good\<close>
  relates a directory name to the entry of the table.
\<close>

locale collector =
  fixes keep :: "string \<Rightarrow> bool" and limit :: nat
    and probe :: "string \<Rightarrow> world \<Rightarrow> ('a option \<times> world) option"
    and good :: "string \<Rightarrow> 'a \<Rightarrow> bool"
  assumes probe: "keep name \<Longrightarrow>
    ensures (probe name w) (\<lambda>(x, w'). calm w w' \<and> (\<forall>y. x = Some y \<longrightarrow> good name y))"
begin

definition collected :: "string list \<Rightarrow> 'a list \<Rightarrow> bool" where
  "collected names xs \<longleftrightarrow> (\<forall>x\<in>set xs. \<exists>name\<in>set names. keep name \<and> good name x)"

lemma entries_eff:
  "ensures (collect_entries keep limit probe names found w)
     (\<lambda>(xs, w'). calm w w' \<and> length xs \<le> max limit (length found) \<and>
        (\<exists>ys. xs = found @ ys \<and> collected names ys))"
proof (induction names arbitrary: found w)
  case Nil
  then show ?case by (simp add: ensures_def collected_def)
next
  case (Cons name names)
  show ?case
  proof (cases "keep name \<and> length found < limit")
    case True
    have "ensures (collect_entries keep limit probe names (case x of None \<Rightarrow> found | Some y \<Rightarrow> found @ [y]) v)
        (\<lambda>(xs, w'). calm w w' \<and> length xs \<le> max limit (length found) \<and>
          (\<exists>ys. xs = found @ ys \<and> collected (name # names) ys))"
      if "calm w v" and "\<forall>y. x = Some y \<longrightarrow> good name y" for x v
      using that True Cons [of "case x of None \<Rightarrow> found | Some y \<Rightarrow> found @ [y]" v]
      by (cases x) (auto elim!: ensures_mono2 simp: collected_def intro: calm_trans)
    then show ?thesis
      using True unfolding collect_entries.simps
      by (intro vcg ensures_mono2 [OF probe]) auto
  next
    case False
    then show ?thesis
      using Cons [of found w] by (auto simp: ensures_def collected_def)
  qed
qed

lemma collected_good: "collected names xs \<Longrightarrow> \<forall>x\<in>set xs. \<exists>name. keep name \<and> good name x"
  by (auto simp: collected_def)

lemma directory_eff:
  "ensures (collect_directory base keep limit probe w)
     (\<lambda>(found, w'). calm w w' \<and> (\<forall>xs. found = Some xs \<longrightarrow> length xs \<le> limit \<and>
        (\<forall>x\<in>set xs. \<exists>name. keep name \<and> good name x)))"
  unfolding collect_directory_def
  by (intro vcg ensures_mono2 [OF entries_eff]) (auto dest!: called_view collected_good simp: move_simps)

end

end
