(* ===== verification/Thermal_Monitor.thy ===== *)
theory Thermal_Monitor
  imports Directory "HOL-Library.List_Lexorder" "HOL-Library.Multiset"
begin

text \<open>
  \<^verbatim>\<open>src/thermal_monitor.c\<close>: the temperatures of the thermal zones, and the hottest of them. The
  order on strings is the one of \<^verbatim>\<open>strcmp\<close> (lexicographic, by unsigned character); where two
  truncated names are equal, \<^verbatim>\<open>qsort\<close> is taken to keep their order.
\<close>

abbreviation (input) THERMAL_MONITOR_MAX_ZONES :: nat where "THERMAL_MONITOR_MAX_ZONES \<equiv> 16"

text \<open>\<^verbatim>\<open>temperature\<close> and \<^verbatim>\<open>has_temperature\<close> are one option.\<close>

record ThermalRuntimeInfo =
  tz_name :: string
  tz_type :: string
  tz_temperature :: "double option"

type_synonym ThermalMonitor = "ThermalRuntimeInfo list"

text \<open>\<^verbatim>\<open>(double)temperature / 1000.0\<close>\<close>

definition millidegrees :: "int \<Rightarrow> double" where
  "millidegrees t = of_int t / 1000"

definition is_thermal_zone :: "string \<Rightarrow> bool" where
  "is_thermal_zone name = starts_with name ''thermal_zone''"

definition thermal_probe :: "string \<Rightarrow> string \<Rightarrow> world \<Rightarrow> (ThermalRuntimeInfo option \<times> world) option" where
  "thermal_probe base name w = do {
     (type1, w) \<leftarrow> attr_text base name ''type'' 64 w;
     (temperature, w) \<leftarrow> attr_long base name ''temp'' w;
     Some (Some \<lparr>tz_name = copy_text 64 name, tz_type = type1,
                 tz_temperature = map_option millidegrees temperature\<rparr>, w) }"

definition thermal_sorted :: "ThermalMonitor \<Rightarrow> ThermalMonitor" where
  "thermal_sorted zones = (if 1 < length zones then sort_key tz_name zones else zones)"

definition thermal_monitor_collect_from ::
  "string \<Rightarrow> world \<Rightarrow> (int \<times> ThermalMonitor \<times> world) option" where
  "thermal_monitor_collect_from base w =
     (if base = [] then Some (ERR_UNKNOWN, [], w)
      else do {
        (zones, w) \<leftarrow>
          collect_directory base is_thermal_zone THERMAL_MONITOR_MAX_ZONES (thermal_probe base) w;
        case zones of
          None \<Rightarrow> Some (ERR_OPEN, [], w)
        | Some zs \<Rightarrow> Some (OK, thermal_sorted zs, w) })"

definition thermal_monitor_collect :: "world \<Rightarrow> (int \<times> ThermalMonitor \<times> world) option" where
  "thermal_monitor_collect w = thermal_monitor_collect_from ''/sys/class/thermal'' w"

definition hotter :: "ThermalRuntimeInfo option \<Rightarrow> ThermalRuntimeInfo \<Rightarrow> ThermalRuntimeInfo option" where
  "hotter hottest info =
     (case tz_temperature info of
        None \<Rightarrow> hottest
      | Some t \<Rightarrow>
          (case hottest of
             None \<Rightarrow> Some info
           | Some h \<Rightarrow> if the (tz_temperature h) < t then Some info else hottest))"

definition thermal_monitor_hottest :: "ThermalMonitor \<Rightarrow> ThermalRuntimeInfo option" where
  "thermal_monitor_hottest monitor = foldl hotter None monitor"

section \<open>Collecting\<close>

lemma copy_text_starts: "starts_with name p \<Longrightarrow> NUL \<notin> set p \<Longrightarrow> length p < n \<Longrightarrow> starts_with (copy_text n name) p"
proof -
  assume s: "starts_with name p" and p: "NUL \<notin> set p" "length p < n"
  then obtain r where r: "name = p @ r" by (metis append_take_drop_id starts_with_def)
  have "cstr name = p @ cstr r" unfolding cstr_def r by (rule takeWhile_append2) (use p(1) in auto)
  then show ?thesis using p(2) by (auto simp: copy_text_def Let_def starts_with_def min_def)
qed

definition zone_of :: "string \<Rightarrow> ThermalRuntimeInfo \<Rightarrow> bool" where
  "zone_of name info \<longleftrightarrow> tz_name info = copy_text 64 name \<and> starts_with (tz_name info) ''thermal_zone''"

interpretation thermal: collector is_thermal_zone THERMAL_MONITOR_MAX_ZONES "thermal_probe base" zone_of for base
  by unfold_locales
    (unfold thermal_probe_def, intro vcg, auto simp: zone_of_def is_thermal_zone_def intro: calm_trans copy_text_starts)

lemma set_thermal_sorted [simp]:
  "set (thermal_sorted zs) = set zs" "length (thermal_sorted zs) = length zs" "mset (thermal_sorted zs) = mset zs"
  by (simp_all add: thermal_sorted_def)

lemma sorted_thermal_sorted: "sorted (map tz_name (thermal_sorted zs))"
proof (cases "1 < length zs")
  case False
  then consider "zs = []" | z where "zs = [z]" by (cases zs; cases "tl zs") auto
  then show ?thesis by cases (simp_all add: thermal_sorted_def)
qed (simp add: thermal_sorted_def)

lemma thermal_collect_eff:
  "ensures (thermal_monitor_collect_from base w) (\<lambda>(r, zs, w'). calm w w' \<and> r \<in> {OK, ERR_UNKNOWN, ERR_OPEN} \<and>
     (r \<noteq> OK \<longrightarrow> zs = []) \<and> length zs \<le> 16 \<and> sorted (map tz_name zs) \<and>
     (\<forall>z\<in>set zs. \<exists>name. zone_of name z))"
  unfolding thermal_monitor_collect_from_def
  by (intro vcg ensures_option ensures_mono2 [OF thermal.directory_eff])
    (auto simp: sorted_thermal_sorted)

lemmas thermal_vcg [vcg] = ensures_mono3 [OF thermal_collect_eff]

lemma thermal_monitor_collect_calm:
  "ensures (thermal_monitor_collect w) (\<lambda>(r, zs, w'). calm w w')"
  unfolding thermal_monitor_collect_def by (intro vcg) auto

section \<open>The hottest zone\<close>

definition hottest_of :: "ThermalRuntimeInfo list \<Rightarrow> ThermalRuntimeInfo option \<Rightarrow> bool" where
  "hottest_of zs h \<longleftrightarrow>
     (case h of
        None \<Rightarrow> \<forall>z\<in>set zs. tz_temperature z = None
      | Some z \<Rightarrow> z \<in> set zs \<and>
          (\<exists>t. tz_temperature z = Some t \<and> (\<forall>y\<in>set zs. \<forall>u. tz_temperature y = Some u \<longrightarrow> u \<le> t)))"

lemma hottest_step: "hottest_of zs h \<Longrightarrow> hottest_of (zs @ [z]) (hotter h z)"
  by (cases h; cases "tz_temperature z") (fastforce simp: hottest_of_def hotter_def)+

lemma hottest_fold: "hottest_of ys h \<Longrightarrow> hottest_of (ys @ zs) (foldl hotter h zs)"
proof (induction zs arbitrary: ys h)
  case (Cons z zs)
  from Cons.IH [OF hottest_step [OF Cons.prems, of z]] show ?case by simp
qed simp

definition demo_zone :: "nat \<Rightarrow> int \<Rightarrow> ThermalRuntimeInfo" where
  "demo_zone n t = \<lparr>tz_name = ''thermal_zone'' @ show_nat n, tz_type = ''soc-thermal'',
     tz_temperature = Some (millidegrees t)\<rparr>"

text \<open>The hottest zone is one of the table with a temperature, and no zone has a higher one;
  there is none only if no zone has a temperature.\<close>

theorem thermal_hottest:
  "case thermal_monitor_hottest zones of
     None \<Rightarrow> \<forall>z\<in>set zones. tz_temperature z = None
   | Some z \<Rightarrow> z \<in> set zones \<and>
       (\<exists>t. tz_temperature z = Some t \<and> (\<forall>y\<in>set zones. \<forall>u. tz_temperature y = Some u \<longrightarrow> u \<le> t))"
  using hottest_fold [of "[]" None zones] by (simp add: thermal_monitor_hottest_def hottest_of_def)

theorem thermal_hottest_witness:
  "thermal_monitor_hottest [demo_zone 1 45000, demo_zone 2 51500, demo_zone 3 51500] = Some (demo_zone 2 51500) \<and>
   (\<forall>u. tz_temperature (demo_zone 1 45000) = Some u \<longrightarrow> u \<le> 515 / 10)"
proof -
  have h: "thermal_monitor_hottest [demo_zone 1 45000, demo_zone 2 51500, demo_zone 3 51500] = Some (demo_zone 2 51500)"
    by (simp add: thermal_monitor_hottest_def hotter_def demo_zone_def millidegrees_def)
  from thermal_hottest [of "[demo_zone 1 45000, demo_zone 2 51500, demo_zone 3 51500]"] h show ?thesis
    by (simp add: demo_zone_def millidegrees_def)
qed

end
