(* ===== verification/Network_Monitor.thy ===== *)
theory Network_Monitor
  imports Directory "HOL-Library.List_Lexorder" "HOL-Library.Multiset"
begin

text \<open>
  \<^verbatim>\<open>src/network_monitor.c\<close>: the counters of the network interfaces, and the interface that the
  monitor shows. The counters are 64-bit words; each with its \<^verbatim>\<open>has_\<close> flag is one option.
\<close>

abbreviation (input) NETWORK_MONITOR_MAX_INTERFACES :: nat where "NETWORK_MONITOR_MAX_INTERFACES \<equiv> 16"

record NetworkRuntimeInfo =
  nw_name :: string
  nw_state :: string
  nw_rx_bytes :: "64 word option"
  nw_tx_bytes :: "64 word option"

type_synonym NetworkMonitor = "NetworkRuntimeInfo list"

definition is_interface :: "string \<Rightarrow> bool" where
  "is_interface name \<longleftrightarrow> take 1 name \<noteq> ''.''"

definition network_probe :: "string \<Rightarrow> string \<Rightarrow> world \<Rightarrow> (NetworkRuntimeInfo option \<times> world) option" where
  "network_probe base name w = do {
     (state, w) \<leftarrow> attr_text base name ''operstate'' 32 w;
     (rx, w) \<leftarrow> attr_ull base name ''statistics/rx_bytes'' w;
     (tx, w) \<leftarrow> attr_ull base name ''statistics/tx_bytes'' w;
     Some (Some \<lparr>nw_name = copy_text 64 name, nw_state = state, nw_rx_bytes = rx, nw_tx_bytes = tx\<rparr>, w) }"

definition network_sorted :: "NetworkMonitor \<Rightarrow> NetworkMonitor" where
  "network_sorted interfaces = (if 1 < length interfaces then sort_key nw_name interfaces else interfaces)"

definition network_monitor_collect_from ::
  "string \<Rightarrow> world \<Rightarrow> (int \<times> NetworkMonitor \<times> world) option" where
  "network_monitor_collect_from base w =
     (if base = [] then Some (ERR_UNKNOWN, [], w)
      else do {
        (interfaces, w) \<leftarrow>
          collect_directory base is_interface NETWORK_MONITOR_MAX_INTERFACES (network_probe base) w;
        case interfaces of
          None \<Rightarrow> Some (ERR_OPEN, [], w)
        | Some is \<Rightarrow> Some (OK, network_sorted is, w) })"

definition network_monitor_collect :: "world \<Rightarrow> (int \<times> NetworkMonitor \<times> world) option" where
  "network_monitor_collect w = network_monitor_collect_from ''/sys/class/net'' w"

definition network_monitor_primary :: "NetworkMonitor \<Rightarrow> NetworkRuntimeInfo option" where
  "network_monitor_primary monitor =
     (if monitor = [] then None
      else case find (\<lambda>i. nw_name i \<noteq> ''lo'' \<and> nw_state i = ''up'') monitor of
        Some i \<Rightarrow> Some i
      | None \<Rightarrow>
          (case find (\<lambda>i. nw_name i \<noteq> ''lo'') monitor of
             Some i \<Rightarrow> Some i
           | None \<Rightarrow> Some (hd monitor)))"

section \<open>Collecting\<close>

definition interface_of :: "string \<Rightarrow> NetworkRuntimeInfo \<Rightarrow> bool" where
  "interface_of name info \<longleftrightarrow> nw_name info = copy_text 64 name"

interpretation network: collector is_interface NETWORK_MONITOR_MAX_INTERFACES "network_probe base" interface_of for base
  by unfold_locales
    (unfold network_probe_def, intro vcg, auto simp: interface_of_def intro: calm_trans)

lemma network_sorted_simps [simp]:
  "set (network_sorted zs) = set zs" "length (network_sorted zs) = length zs" "mset (network_sorted zs) = mset zs"
  by (simp_all add: network_sorted_def)

lemma sorted_network_sorted: "sorted (map nw_name (network_sorted zs))"
proof (cases "1 < length zs")
  case False
  then consider "zs = []" | z where "zs = [z]" by (cases zs; cases "tl zs") auto
  then show ?thesis by cases (simp_all add: network_sorted_def)
qed (simp add: network_sorted_def)

lemma network_collect_eff:
  "ensures (network_monitor_collect_from base w) (\<lambda>(r, zs, w'). calm w w' \<and> r \<in> {OK, ERR_UNKNOWN, ERR_OPEN} \<and>
     (r \<noteq> OK \<longrightarrow> zs = []) \<and> length zs \<le> 16 \<and> sorted (map nw_name zs) \<and>
     (\<forall>z\<in>set zs. \<exists>name. interface_of name z))"
  unfolding network_monitor_collect_from_def
  by (intro vcg ensures_option ensures_mono2 [OF network.directory_eff])
    (auto simp: sorted_network_sorted)

lemmas network_vcg [vcg] = ensures_mono3 [OF network_collect_eff]

lemma network_monitor_collect_calm: "ensures (network_monitor_collect w) (\<lambda>(r, zs, w'). calm w w')"
  unfolding network_monitor_collect_def by (intro vcg) auto

section \<open>The primary interface\<close>

text \<open>How much an interface deserves to be shown.\<close>

definition rank :: "NetworkRuntimeInfo \<Rightarrow> nat" where
  "rank i = (if nw_name i = ''lo'' then 0 else if nw_state i = ''up'' then 2 else 1)"

lemma find_first: "find P xs = Some x \<Longrightarrow> \<exists>ys zs. xs = ys @ x # zs \<and> P x \<and> (\<forall>y\<in>set ys. \<not> P y)"
proof (induction xs)
  case (Cons y xs)
  show ?case
  proof (cases "P y")
    case True
    with Cons.prems show ?thesis by (intro exI [of _ "[]"] exI [of _ xs]) auto
  next
    case False
    with Cons obtain ys zs where "xs = ys @ x # zs" "P x" "\<forall>y\<in>set ys. \<not> P y" by auto
    with False show ?thesis by (intro exI [of _ "y # ys"] exI [of _ zs]) auto
  qed
qed simp

lemma find_none: "find P xs = None \<longleftrightarrow> (\<forall>x\<in>set xs. \<not> P x)"
  by (induction xs) auto

text \<open>The interface shown is the first of the best of the table: one that is up and not the
  loopback if there is any, else one that is not the loopback, else the first; there is none only in
  an empty table.\<close>

theorem network_primary:
  "case network_monitor_primary monitor of
     None \<Rightarrow> monitor = []
   | Some i \<Rightarrow> \<exists>before after. monitor = before @ i # after \<and>
       (\<forall>j\<in>set before. rank j < rank i) \<and> (\<forall>j\<in>set after. rank j \<le> rank i)"
proof (cases "monitor = []")
  case False
  let ?up = "find (\<lambda>i. nw_name i \<noteq> ''lo'' \<and> nw_state i = ''up'') monitor"
  let ?other = "find (\<lambda>i. nw_name i \<noteq> ''lo'') monitor"
  show ?thesis
  proof (cases ?up)
    case (Some i)
    from find_first [OF Some] obtain b a where m: "monitor = b @ i # a" and i: "nw_name i \<noteq> ''lo''" "nw_state i = ''up''"
      and before: "\<forall>j\<in>set b. \<not> (nw_name j \<noteq> ''lo'' \<and> nw_state j = ''up'')" by blast
    from before have "\<forall>j\<in>set b. rank j < 2" by (auto simp: rank_def)
    moreover have "rank i = 2" using i by (simp add: rank_def)
    moreover have "rank j \<le> 2" for j by (simp add: rank_def)
    ultimately show ?thesis using False Some m by (auto simp: network_monitor_primary_def)
  next
    case None
    then have up: "\<forall>j\<in>set monitor. rank j \<le> 1" by (auto simp: find_none rank_def)
    show ?thesis
    proof (cases ?other)
      case (Some i)
      from find_first [OF Some] obtain b a where m: "monitor = b @ i # a" and i: "nw_name i \<noteq> ''lo''"
        and before: "\<forall>j\<in>set b. nw_name j = ''lo''" by blast
      from before have "\<forall>j\<in>set b. rank j < 1" by (simp add: rank_def)
      moreover have "1 \<le> rank i" using i by (simp add: rank_def)
      ultimately show ?thesis using False None Some up m by (fastforce simp: network_monitor_primary_def)
    next
      case other: None
      then have "\<forall>j\<in>set monitor. rank j = 0" by (auto simp: find_none rank_def)
      moreover obtain i a where "monitor = i # a" using False by (cases monitor) auto
      ultimately show ?thesis using None other by (auto simp: network_monitor_primary_def intro!: exI [of _ "[]"])
    qed
  qed
qed (simp add: network_monitor_primary_def)

definition demo_interface :: "string \<Rightarrow> string \<Rightarrow> NetworkRuntimeInfo" where
  "demo_interface name state = \<lparr>nw_name = name, nw_state = state, nw_rx_bytes = Some 10, nw_tx_bytes = None\<rparr>"

theorem network_primary_witness:
  "\<exists>i. network_monitor_primary [demo_interface ''eth0'' ''down'', demo_interface ''lo'' ''up'', demo_interface ''wlan0'' ''up''] =
     Some i \<and> rank (demo_interface ''eth0'' ''down'') < rank i"
proof -
  let ?m = "[demo_interface ''eth0'' ''down'', demo_interface ''lo'' ''up'', demo_interface ''wlan0'' ''up'']"
  have p: "network_monitor_primary ?m = Some (demo_interface ''wlan0'' ''up'')" by code_simp
  from network_primary [of ?m] p obtain before after where
    "?m = before @ demo_interface ''wlan0'' ''up'' # after" "\<forall>j\<in>set before. rank j < rank (demo_interface ''wlan0'' ''up'')"
    by auto
  then show ?thesis using p by (auto simp: Cons_eq_append_conv demo_interface_def)
qed

end
