(* ===== verification/Runtime_Snapshot.thy ===== *)
theory Runtime_Snapshot
  imports Runtime_Monitor Thermal_Monitor Network_Monitor
begin

text \<open>
  \<^verbatim>\<open>src/runtime_snapshot.c\<close>: one report from the three monitors. The source of the system figures
  must answer; the thermal and the network source may fail, and the report says which did.
\<close>

unbundle bit_operations_syntax

abbreviation (input) RUNTIME_SNAPSHOT_SOURCE_SYSTEM :: "32 word" where "RUNTIME_SNAPSHOT_SOURCE_SYSTEM \<equiv> 1"
abbreviation (input) RUNTIME_SNAPSHOT_SOURCE_THERMAL :: "32 word" where "RUNTIME_SNAPSHOT_SOURCE_THERMAL \<equiv> 2"
abbreviation (input) RUNTIME_SNAPSHOT_SOURCE_NETWORK :: "32 word" where "RUNTIME_SNAPSHOT_SOURCE_NETWORK \<equiv> 4"

record RuntimeSnapshot =
  rs_runtime :: RuntimeMonitor
  rs_thermal :: ThermalMonitor
  rs_network :: NetworkMonitor
  rs_available :: "32 word"
  rs_failed :: "32 word"

text \<open>\<^verbatim>\<open>memset(snapshot, 0, sizeof(*snapshot))\<close>\<close>

definition blank_snapshot :: RuntimeSnapshot where
  "blank_snapshot =
     \<lparr>rs_runtime = \<lparr>rm_cpu_usage = 0, rm_memory_usage = 0, rm_load_average = (0, 0, 0),
                    rm_process_count = 0, rm_uptime = 0\<rparr>,
      rs_thermal = [], rs_network = [], rs_available = 0, rs_failed = 0\<rparr>"

definition note_source :: "32 word \<Rightarrow> int \<Rightarrow> RuntimeSnapshot \<Rightarrow> RuntimeSnapshot" where
  "note_source source ret s =
     (if ret = OK then s\<lparr>rs_available := rs_available s OR source\<rparr>
      else s\<lparr>rs_failed := rs_failed s OR source\<rparr>)"

definition runtime_snapshot_collect :: "world \<Rightarrow> (int \<times> RuntimeSnapshot \<times> world) option" where
  "runtime_snapshot_collect w = do {
     (runtime, w) \<leftarrow> runtime_monitor_collect w;
     case runtime of
       Inl ret \<Rightarrow> Some (ret, note_source RUNTIME_SNAPSHOT_SOURCE_SYSTEM ret blank_snapshot, w)
     | Inr runtime \<Rightarrow> do {
         let s = note_source RUNTIME_SNAPSHOT_SOURCE_SYSTEM OK (blank_snapshot\<lparr>rs_runtime := runtime\<rparr>);
         (ret, thermal, w) \<leftarrow> thermal_monitor_collect w;
         let s = note_source RUNTIME_SNAPSHOT_SOURCE_THERMAL ret (s\<lparr>rs_thermal := thermal\<rparr>);
         (ret, network, w) \<leftarrow> network_monitor_collect w;
         let s = note_source RUNTIME_SNAPSHOT_SOURCE_NETWORK ret (s\<lparr>rs_network := network\<rparr>);
         Some (OK, s, w) } }"

definition runtime_snapshot_hottest_thermal :: "RuntimeSnapshot \<Rightarrow> ThermalRuntimeInfo option" where
  "runtime_snapshot_hottest_thermal s =
     (if rs_available s AND RUNTIME_SNAPSHOT_SOURCE_THERMAL = 0 then None
      else thermal_monitor_hottest (rs_thermal s))"

definition runtime_snapshot_primary_network :: "RuntimeSnapshot \<Rightarrow> NetworkRuntimeInfo option" where
  "runtime_snapshot_primary_network s =
     (if rs_available s AND RUNTIME_SNAPSHOT_SOURCE_NETWORK = 0 then None
      else network_monitor_primary (rs_network s))"

section \<open>Effects\<close>

text \<open>Each source is accounted for once, and a source that failed left no entries.\<close>

definition sources_ok :: "RuntimeSnapshot \<Rightarrow> bool" where
  "sources_ok s \<longleftrightarrow>
     rs_available s OR rs_failed s = 7 \<and> rs_available s AND rs_failed s = 0 \<and>
     (\<forall>source\<in>{1, 2, 4}. rs_failed s AND source \<noteq> 0 \<longrightarrow> rs_available s AND source = 0) \<and>
     (rs_available s AND RUNTIME_SNAPSHOT_SOURCE_THERMAL = 0 \<longrightarrow> rs_thermal s = []) \<and>
     (rs_available s AND RUNTIME_SNAPSHOT_SOURCE_NETWORK = 0 \<longrightarrow> rs_network s = [])"

lemma thermal_monitor_collect_eff:
  "ensures (thermal_monitor_collect w) (\<lambda>(r, zs, w'). calm w w' \<and> (r \<noteq> OK \<longrightarrow> zs = []))"
  unfolding thermal_monitor_collect_def by (intro vcg) auto

lemma network_monitor_collect_eff:
  "ensures (network_monitor_collect w) (\<lambda>(r, zs, w'). calm w w' \<and> (r \<noteq> OK \<longrightarrow> zs = []))"
  unfolding network_monitor_collect_def by (intro vcg) auto

text \<open>The error of a monitor that fails is negative.\<close>

definition errs :: "(int + 'a) \<times> world \<Rightarrow> bool" where
  "errs res \<longleftrightarrow> (\<forall>e. fst res = Inl e \<longrightarrow> e < OK)"

lemma errs_simps [simp]: "errs (Inl e, w) \<longleftrightarrow> e < OK" "errs (Inr x, w)"
  by (simp_all add: errs_def)

lemma errs_mono: "ensures m errs \<Longrightarrow> (\<And>r w. errs (r, w) \<Longrightarrow> Q (r, w)) \<Longrightarrow> ensures m Q"
  by (auto simp: ensures_def)

lemma errs_parts:
  "ensures (read_cpu_snapshot w) errs" "ensures (read_memory w) errs"
  "ensures (scan_doubles path n w) errs" "ensures (read_process_count w) errs"
  "ensures (wait_cpu_sample w) (\<lambda>(r, w'). r \<le> OK)"
  unfolding read_cpu_snapshot_def read_memory_def scan_doubles_def read_process_count_def wait_cpu_sample_def
  by (intro vcg ensures_option ensures_split; auto simp: errs_def Let_def split: option.splits)+

lemma errs_cpu_usage: "errs (cpu_usage before after, w)"
  by (simp add: cpu_usage_def Let_def)

lemma errs_cpu: "ensures (read_cpu w) errs"
  unfolding read_cpu_def
  by (intro vcg ensures_sum errs_mono [OF errs_parts(1)] ensures_mono2 [OF errs_parts(5)])
    (simp_all add: errs_cpu_usage)

lemma errs_load: "ensures (read_load w) errs" "ensures (read_uptime w) errs"
  unfolding read_load_def read_uptime_def
  by (intro vcg errs_mono [OF errs_parts(3)]; auto simp: errs_def split: sum.splits)+

lemma errs_runtime: "ensures (runtime_monitor_collect w) errs"
  unfolding runtime_monitor_collect_def
  by (intro vcg ensures_sum errs_mono [OF errs_cpu] errs_mono [OF errs_parts(2)]
      errs_mono [OF errs_load(1)] errs_mono [OF errs_load(2)] errs_mono [OF errs_parts(4)])
    (auto simp: errs_def split: sum.splits)

lemma runtime_monitor_errors:
  "ensures (runtime_monitor_collect w)
     (\<lambda>(r, w'). calm w w' \<and> (\<forall>m. r = Inr m \<longrightarrow> monitor_ok m) \<and> (\<forall>e. r = Inl e \<longrightarrow> e < OK))"
  using runtime_monitor_collect_eff [of w] errs_runtime [of w] by (auto simp: ensures_def reads_def errs_def)

lemma runtime_snapshot_collect_eff:
  "ensures (runtime_snapshot_collect w) (\<lambda>(r, s, w'). calm w w' \<and> r \<le> OK \<and>
     (if r = OK
      then sources_ok s \<and> rs_available s AND RUNTIME_SNAPSHOT_SOURCE_SYSTEM \<noteq> 0 \<and> monitor_ok (rs_runtime s)
      else rs_available s = 0 \<and> rs_failed s = RUNTIME_SNAPSHOT_SOURCE_SYSTEM))"
  unfolding runtime_snapshot_collect_def
  by (intro vcg ensures_sum ensures_mono2 [OF runtime_monitor_errors]
      ensures_mono3 [OF thermal_monitor_collect_eff] ensures_mono3 [OF network_monitor_collect_eff])
    (auto simp: note_source_def sources_ok_def blank_snapshot_def move_simps)

section \<open>Properties\<close>

text \<open>
  A report accounts for every source exactly once, as available or as failed; it
  is a success exactly when the system figures are there, and a thermal or network source that
  failed shows no zone and no interface. Nothing of the shell's state is touched.
\<close>
theorem snapshot_sources:
  assumes "runtime_snapshot_collect w = Some (r, s, w')"
  shows "(r = OK \<longleftrightarrow> rs_available s AND RUNTIME_SNAPSHOT_SOURCE_SYSTEM \<noteq> 0) \<and>
     rs_available s AND rs_failed s = 0 \<and> (r = OK \<longrightarrow> rs_available s OR rs_failed s = 7) \<and>
     (rs_failed s AND RUNTIME_SNAPSHOT_SOURCE_THERMAL \<noteq> 0 \<longrightarrow> runtime_snapshot_hottest_thermal s = None) \<and>
     (rs_failed s AND RUNTIME_SNAPSHOT_SOURCE_NETWORK \<noteq> 0 \<longrightarrow> runtime_snapshot_primary_network s = None) \<and>
     calm w w'"
  using ensures_D3 [OF assms runtime_snapshot_collect_eff]
  by (cases "r = OK")
    (auto simp: sources_ok_def runtime_snapshot_hottest_thermal_def runtime_snapshot_primary_network_def
      thermal_monitor_hottest_def network_monitor_primary_def)

definition demo_snapshot :: "answer list" where
  "demo_snapshot = demo_procfs @ [fail ENOENT, (ok 0)\<lparr>a_names := [''.'', ''..'']\<rparr>, ok 0]"

theorem snapshot_sources_witness:
  "\<exists>s w'. runtime_snapshot_collect (init_world demo_snapshot) = Some (OK, s, w') \<and>
     rs_failed s = RUNTIME_SNAPSHOT_SOURCE_THERMAL \<and> runtime_snapshot_hottest_thermal s = None"
proof -
  have "map_option (\<lambda>(r, s, w'). (r, rs_failed s)) (runtime_snapshot_collect (init_world demo_snapshot)) = Some (OK, 2)"
    by code_simp
  then obtain s w' where run: "runtime_snapshot_collect (init_world demo_snapshot) = Some (OK, s, w')"
    and "rs_failed s = 2" by auto
  with snapshot_sources [OF run] show ?thesis by auto
qed

end
