(* ===== verification/Process_Monitor.thy ===== *)
theory Process_Monitor
  imports Text_Files "HOL-Library.Multiset"
begin

text \<open>
  \<^verbatim>\<open>src/process_monitor.c\<close>: the status of one process, and the table of all of them in an array
  that grows by doubling. The array with its count is a list; \<^verbatim>\<open>*list == NULL\<close> is the empty one.
\<close>

abbreviation (input) PROCESS_NAME_LENGTH :: nat where "PROCESS_NAME_LENGTH \<equiv> 64"

record ProcessInfo =
  ps_pid :: int
  ps_name :: string
  ps_state :: char
  ps_rss_kb :: "64 word"
  ps_threads :: "32 word"

definition blank_char :: "char \<Rightarrow> bool" where
  "blank_char c \<longleftrightarrow> c = SPACE \<or> c = TAB"

definition copy_status_text :: "nat \<Rightarrow> string \<Rightarrow> string" where
  "copy_status_text dst_size src =
     (let src = takeWhile (\<lambda>c. c \<noteq> CR \<and> c \<noteq> LF) (dropWhile blank_char src);
          length = (if dst_size \<le> length src then dst_size - 1 else length src)
      in take length src)"

definition status_line :: "ProcessInfo \<Rightarrow> string \<Rightarrow> ProcessInfo" where
  "status_line info line =
     (if starts_with line ''Name:'' then info\<lparr>ps_name := copy_status_text PROCESS_NAME_LENGTH (drop 5 line)\<rparr>
      else if starts_with line ''State:'' then
        (case dropWhile blank_char (drop 6 line) of
           [] \<Rightarrow> info
         | c # _ \<Rightarrow> info\<lparr>ps_state := c\<rparr>)
      else if starts_with line ''VmRSS:'' then
        (case scan_unsigned (drop 6 line) of
           None \<Rightarrow> info
         | Some (v, _) \<Rightarrow> info\<lparr>ps_rss_kb := word_of_int v\<rparr>)
      else if starts_with line ''Threads:'' then
        (case scan_unsigned (drop 8 line) of
           None \<Rightarrow> info
         | Some (v, _) \<Rightarrow> info\<lparr>ps_threads := word_of_int v\<rparr>)
      else info)"

definition process_monitor_get :: "int \<Rightarrow> world \<Rightarrow> ((int + ProcessInfo) \<times> world) option" where
  "process_monitor_get pid w =
     (let path = ''/proc/'' @ show_int pid @ ''/status'' in
      if pid \<le> 0 then Some (Inl ERR_UNKNOWN, w)
      else if \<not> snprintf_fits 64 path then Some (Inl ERR_UNKNOWN, w)
      else do {
        (fp, w) \<leftarrow> sys (Sys_fopen path) w;
        if a_ret fp < 0 then Some (Inl ERR_OPEN, w)
        else do {
          let info = foldl status_line
            \<lparr>ps_pid = pid, ps_name = [], ps_state = CHR ''?'', ps_rss_kb = 0, ps_threads = 0\<rparr>
            (fgets_lines 256 (a_bytes fp));
          w \<leftarrow> sysv (Sys_fclose (a_ret fp)) w;
          Some (if ps_name info = [] then Inl ERR_UNKNOWN else Inr info, w) } })"

text \<open>\<^verbatim>\<open>realloc\<close>: a failure leaves the old block, success replaces it.\<close>

definition realloc :: "world \<Rightarrow> bool \<times> world" where
  "realloc w = (case malloc w of (got, w) \<Rightarrow> (got, if got then free_blocks 1 w else w))"

text \<open>The process id that an entry of \<^verbatim>\<open>/proc\<close> names.\<close>

definition entry_pid :: "string \<Rightarrow> int option" where
  "entry_pid name =
     (let value = strtol name in
      if \<not> is_pid_name name then None
      else if st_range value \<or> st_end value \<noteq> [] \<or> st_value value \<le> 0 \<or> INT_MAX < st_value value then None
      else Some (st_value value))"

text \<open>The loop over the entries; \<open>None\<close> when the array cannot grow, it is freed then.\<close>

fun process_entries ::
  "string list \<Rightarrow> ProcessInfo list \<Rightarrow> nat \<Rightarrow> world \<Rightarrow> (ProcessInfo list option \<times> world) option" where
  "process_entries [] result capacity w = Some (Some result, w)"
| "process_entries (name # names) result capacity w =
     (case entry_pid name of
        None \<Rightarrow> process_entries names result capacity w
      | Some pid \<Rightarrow> do {
          (info, w) \<leftarrow> process_monitor_get pid w;
          case info of
            Inl r \<Rightarrow> process_entries names result capacity w
          | Inr info \<Rightarrow>
              if length result = capacity
              then (case realloc w of (expanded, w) \<Rightarrow>
                      if \<not> expanded then Some (None, free_blocks 1 w)
                      else process_entries names (result @ [info]) (capacity * 2) w)
              else process_entries names (result @ [info]) capacity w })"

definition process_monitor_collect :: "world \<Rightarrow> (int \<times> ProcessInfo list \<times> world) option" where
  "process_monitor_collect w = do {
     (dir, w) \<leftarrow> sys (Sys_opendir ''/proc'') w;
     if a_ret dir < 0 then Some (ERR_OPEN, [], w)
     else
       case malloc w of (got, w) \<Rightarrow>
         if \<not> got
         then do {
           w \<leftarrow> sysv (Sys_closedir (a_ret dir)) w;
           Some (ERR_MEMORY, [], w) }
         else do {
           (result, w) \<leftarrow> process_entries (map cstr (a_names dir)) [] 64 w;
           w \<leftarrow> sysv (Sys_closedir (a_ret dir)) w;
           case result of
             None \<Rightarrow> Some (ERR_MEMORY, [], w)
           | Some result \<Rightarrow>
               if result = [] then Some (OK, [], free_blocks 1 w)
               else Some (OK, sort_key ps_pid result, snd (realloc w)) } }"

text \<open>
  \<^verbatim>\<open>qsort\<close> with \<^verbatim>\<open>process_info_compare\<close>: sorting by the ids is a sorting in the
  order of the comparison, which tells equal ids apart from all others.
\<close>

definition process_info_compare :: "ProcessInfo \<Rightarrow> ProcessInfo \<Rightarrow> int" where
  "process_info_compare a b =
     (if ps_pid a < ps_pid b then -1 else if ps_pid b < ps_pid a then 1 else 0)"

lemma process_info_compare_sorts:
  "sorted_wrt (\<lambda>a b. process_info_compare a b \<le> 0) (sort_key ps_pid xs)"
proof -
  have "(\<lambda>a b. process_info_compare a b \<le> 0) = (\<lambda>a b. ps_pid a \<le> ps_pid b)"
    by (auto simp: process_info_compare_def fun_eq_iff)
  then show ?thesis using sorted_sort_key [of ps_pid xs] by (simp add: sorted_map)
qed

lemma process_info_compare_swap: "process_info_compare b a = - process_info_compare a b"
  by (simp add: process_info_compare_def)

definition process_monitor_free :: "ProcessInfo list \<Rightarrow> world \<Rightarrow> world" where
  "process_monitor_free list w = free_blocks (if list = [] then 0 else 1) w"

section \<open>Effects\<close>

lemma copy_status_text_length: "0 < n \<Longrightarrow> length (copy_status_text n s) < n"
  by (simp add: copy_status_text_def Let_def)

definition info_ok :: "int \<Rightarrow> ProcessInfo \<Rightarrow> bool" where
  "info_ok pid info \<longleftrightarrow> ps_pid info = pid \<and> length (ps_name info) < PROCESS_NAME_LENGTH"

lemma status_line_ok: "info_ok pid info \<Longrightarrow> info_ok pid (status_line info line)"
  by (auto simp: info_ok_def status_line_def copy_status_text_length split: list.splits option.splits)

lemma status_lines_ok: "info_ok pid info \<Longrightarrow> info_ok pid (foldl status_line info lines)"
  by (induction lines arbitrary: info) (auto simp: status_line_ok)

lemma status_info_ok:
  "info_ok pid (foldl status_line
     \<lparr>ps_pid = pid, ps_name = [], ps_state = CHR ''?'', ps_rss_kb = 0, ps_threads = 0\<rparr> lines)"
  by (rule status_lines_ok) (simp add: info_ok_def)

lemma process_monitor_get_eff:
  "ensures (process_monitor_get pid w) (\<lambda>(r, w'). calm w w' \<and>
     (\<forall>info. r = Inr info \<longrightarrow> info_ok pid info \<and> ps_name info \<noteq> [] \<and> 0 < pid))"
  unfolding process_monitor_get_def
  by (intro vcg) (auto simp: effects status_info_ok)

lemma process_get_paths:
  "(\<And>e v. calm w v \<Longrightarrow> Q (Inl e, v)) \<Longrightarrow>
     (\<And>info v. calm w v \<Longrightarrow> info_ok pid info \<Longrightarrow> ps_name info \<noteq> [] \<Longrightarrow> 0 < pid \<Longrightarrow> Q (Inr info, v)) \<Longrightarrow>
     ensures (process_monitor_get pid w) Q"
  using process_monitor_get_eff [of pid w] by (simp add: ensures_def) (metis sum.exhaust)

text \<open>A complete entry of the table.\<close>

definition listed :: "ProcessInfo \<Rightarrow> bool" where
  "listed info \<longleftrightarrow> 0 < ps_pid info \<and> ps_name info \<noteq> [] \<and> length (ps_name info) < PROCESS_NAME_LENGTH"

lemma view_malloc: "malloc w = (got, v) \<Longrightarrow> w_script v = w_script w \<and> view v = vmove (if got then 1 else 0) (\<lambda>_. 0) (view w)"
  by (auto simp: malloc_def view_def vmove_def split: list.splits)

lemma view_realloc: "realloc w = (got, v) \<Longrightarrow> w_script v = w_script w \<and> view v = view w"
  by (auto simp: realloc_def split: prod.splits if_splits dest!: view_malloc)

lemma view_snd_realloc [simp]: "w_script (snd (realloc w)) = w_script w" "view (snd (realloc w)) = view w"
  using view_realloc [of w "fst (realloc w)" "snd (realloc w)"] by simp_all

lemma sort_key_Nil [simp]: "sort_key f xs = [] \<longleftrightarrow> xs = []"
  by (metis length_0_conv length_sort)

lemma process_entries_eff:
  "ensures (process_entries names result capacity w) (\<lambda>(r, w').
     moves (if r = None then -1 else 0) (\<lambda>_. 0) w w' \<and>
     (list_all listed result \<longrightarrow> (\<forall>xs. r = Some xs \<longrightarrow> list_all listed xs)))"
proof (induction names arbitrary: result capacity w)
  case (Cons name names)
  show ?case
    unfolding process_entries.simps
    by (intro vcg ensures_option ensures_split ensures_sum process_get_paths ensures_mono2 [OF Cons])
      (auto simp: move_simps listed_def info_ok_def ensures_def dest!: view_realloc)
qed (simp add: ensures_def moves_def)

lemma process_monitor_collect_eff:
  "ensures (process_monitor_collect w) (\<lambda>(r, xs, w'). moves (if xs = [] then 0 else 1) (\<lambda>_. 0) w w' \<and>
     r \<in> {OK, ERR_OPEN, ERR_MEMORY} \<and> (r \<noteq> OK \<longrightarrow> xs = []) \<and> list_all listed xs \<and> sorted (map ps_pid xs))"
  unfolding process_monitor_collect_def
  by (intro vcg ensures_option ensures_split ensures_mono2 [OF process_entries_eff])
    (auto simp: move_simps ensures_def list_all_iff dest!: view_malloc view_realloc called_moves)

text \<open>C32: however \<^verbatim>\<open>/proc\<close> looks while it is read, \<^verbatim>\<open>process_monitor_collect\<close>
  yields complete entries only (a positive id, a name that is not empty and fits its field), in
  the order of their ids, and nothing after an error; once the table is freed, the heap, the
  descriptors and the statics are as before.
\<close>
theorem process_list:
  assumes "process_monitor_collect w = Some (r, xs, w')"
  shows "list_all listed xs \<and> sorted (map ps_pid xs) \<and> (r \<noteq> OK \<longrightarrow> xs = []) \<and>
    calm w (process_monitor_free xs w')"
  using ensures_D3 [OF assms process_monitor_collect_eff]
  by (auto simp: move_simps process_monitor_free_def)

definition demo_status :: "string \<Rightarrow> answer" where
  "demo_status name = (ok 5)\<lparr>a_bytes := ''Name:'' @ [TAB] @ name @ [LF] @ ''VmRSS:     12 kB'' @ [LF]\<rparr>"

definition demo_proc :: "answer list" where
  "demo_proc = [(ok 3)\<lparr>a_names := [''.'', ''42'', ''self'', ''7'', ''9'']\<rparr>,
     demo_status ''cat'', ok 0, demo_status ''init'', ok 0, fail ENOENT, ok 0]"

theorem process_list_witness:
  "\<exists>a b w'. process_monitor_collect (init_world demo_proc) = Some (OK, [a, b], w') \<and>
     ps_name a = ''init'' \<and> ps_name b = ''cat'' \<and> ps_pid a \<le> ps_pid b \<and>
     w_live (process_monitor_free [a, b] w') = 0"
proof -
  have "map_option (\<lambda>(r, xs, w'). (r, map ps_name xs)) (process_monitor_collect (init_world demo_proc)) =
      Some (OK, [''init'', ''cat''])"
    by code_simp
  then obtain a b w' where run: "process_monitor_collect (init_world demo_proc) = Some (OK, [a, b], w')"
    and names: "ps_name a = ''init''" "ps_name b = ''cat''"
    by auto
  from process_list [OF run] have "w_live (process_monitor_free [a, b] w') = 0" "ps_pid a \<le> ps_pid b"
    by (auto simp: calm_moves moves_iff init_world_def)
  with run names show ?thesis by blast
qed

end
