(* ===== verification/Output.thy ===== *)
theory Output
  imports World "HOL-Library.Word"
begin

text \<open>
  The conversions of \<^verbatim>\<open>printf\<close> that the reports use: fixed-point numbers, padded columns, and a run of
  calls to \<^verbatim>\<open>printf\<close>. A \<^verbatim>\<open>double\<close> is a rational number here, so where the number to print lies
  exactly between two decimals the last digit is the even one.
\<close>

definition round_half_even :: "rat \<Rightarrow> int" where
  "round_half_even x =
     (let f = \<lfloor>x\<rfloor>; d = x - of_int f in
      if d < 1 / 2 then f else if 1 / 2 < d then f + 1 else if even f then f else f + 1)"

definition pad_zero :: "nat \<Rightarrow> string \<Rightarrow> string" where
  "pad_zero n s = replicate (n - length s) (CHR ''0'') @ s"

text \<open>\<^verbatim>\<open>%-<n>s\<close>\<close>

definition pad_right :: "nat \<Rightarrow> string \<Rightarrow> string" where
  "pad_right n s = s @ replicate (n - length s) SPACE"

text \<open>\<^verbatim>\<open>%.<n>f\<close>\<close>

definition show_fixed :: "nat \<Rightarrow> double \<Rightarrow> string" where
  "show_fixed n x =
     (let m = nat (round_half_even (\<bar>x\<bar> * 10 ^ n));
          digits = show_nat (m div 10 ^ n) @ ''.'' @ pad_zero n (show_nat (m mod 10 ^ n))
      in if x < 0 then CHR ''-'' # digits else digits)"

text \<open>\<^verbatim>\<open>%lu\<close> and its kin\<close>

definition show_word :: "'a::len word \<Rightarrow> string" where
  "show_word x = show_nat (unat x)"

text \<open>\<^verbatim>\<open>text[0] ? text : "N/A"\<close>\<close>

definition or_na :: "string \<Rightarrow> string" where
  "or_na s = (if s = [] then ''N/A'' else s)"

definition printf_all :: "string list \<Rightarrow> world \<Rightarrow> world" where
  "printf_all xs w = foldl (\<lambda>w s. printf s w) w xs"

lemma w_out_printf_all: "w_out (printf_all xs w) = w_out w @ xs"
  by (induction xs arbitrary: w) (simp_all add: printf_all_def printf_def)

lemma printf_all_frame: "printf_all xs w = w\<lparr>w_out := w_out w @ xs\<rparr>"
  by (induction xs arbitrary: w) (simp_all add: printf_all_def printf_def)

lemma printf_all_simps [simp]:
  "w_script (printf_all xs w) = w_script w" "w_trace (printf_all xs w) = w_trace w"
  "w_live (printf_all xs w) = w_live w" "view (printf_all xs w) = view w"
  by (simp_all add: printf_all_frame view_def)

lemma calm_printf_all [simp]: "calm u (printf_all xs w) = calm u w"
  by (simp add: move_simps)

lemma length_pad: "length (pad_right n s) = max n (length s)" "length (pad_zero n s) = max n (length s)"
  by (auto simp: pad_right_def pad_zero_def)

text \<open>The number that is printed is off by half a unit of the last place at most.\<close>

lemma round_half_even_error: "\<bar>of_int (round_half_even x) - x\<bar> \<le> 1 / 2"
proof -
  have "of_int \<lfloor>x\<rfloor> \<le> x" "x < of_int \<lfloor>x\<rfloor> + 1" by linarith+
  then show ?thesis by (auto simp: round_half_even_def Let_def)
qed

end
