(* ===== verification/Cmd_Runtime.thy ===== *)
theory Cmd_Runtime
  imports Runtime_Snapshot Process_Monitor Output Shell_Context
begin

text \<open>
  \<^verbatim>\<open>src/commands/cmd_runtime.c\<close>: the commands \<^verbatim>\<open>monitor\<close> and \<^verbatim>\<open>psinfo\<close>. What a command
  prints is a list of texts, one per call to \<^verbatim>\<open>printf\<close>.
\<close>

text \<open>The conversion of the uptime to an integer truncates; the kernel's is never negative.\<close>

definition print_uptime :: "double \<Rightarrow> string list" where
  "print_uptime uptime =
     (let total_seconds = nat \<lfloor>uptime\<rfloor> mod 2 ^ 64;
          days = total_seconds div 86400;
          hours = total_seconds mod 86400 div 3600;
          minutes = total_seconds mod 3600 div 60;
          seconds = total_seconds mod 60;
          clock = pad_zero 2 (show_nat hours) @ '':'' @ pad_zero 2 (show_nat minutes) @ '':'' @
                  pad_zero 2 (show_nat seconds)
      in if 0 < days then [show_nat days @ ''d '' @ clock] else [clock])"

definition print_counter :: "string \<Rightarrow> 64 word option \<Rightarrow> string" where
  "print_counter label counter = label @ (case counter of Some n \<Rightarrow> show_word n | None \<Rightarrow> ''N/A'') @ [LF]"

definition print_runtime_snapshot :: "RuntimeSnapshot \<Rightarrow> string list" where
  "print_runtime_snapshot snapshot =
     (let runtime = rs_runtime snapshot; (load1, load5, load15) = rm_load_average runtime in
      [[LF] @ ''========== Runtime Monitor =========='' @ [LF],
       ''CPU Usage       : '' @ show_fixed 1 (rm_cpu_usage runtime) @ '' %'' @ [LF],
       ''Memory Usage    : '' @ show_fixed 1 (rm_memory_usage runtime) @ '' %'' @ [LF],
       ''Load Average    : '' @ show_fixed 2 load1 @ '' '' @ show_fixed 2 load5 @ '' '' @ show_fixed 2 load15 @ [LF]] @
      (case runtime_snapshot_hottest_thermal snapshot of
         None \<Rightarrow> [''Temperature     : N/A'' @ [LF]]
       | Some thermal \<Rightarrow>
           [''Temperature     : '' @ show_fixed 1 (case tz_temperature thermal of Some t \<Rightarrow> t | None \<Rightarrow> 0) @ '' C''] @
           (if tz_type thermal = [] then [] else ['' ('' @ tz_type thermal @ '')'']) @ [[LF]]) @
      [''Process Count   : '' @ show_word (rm_process_count runtime) @ [LF]] @
      (case runtime_snapshot_primary_network snapshot of
         None \<Rightarrow> [''Network         : N/A'' @ [LF], ''RX Bytes        : N/A'' @ [LF], ''TX Bytes        : N/A'' @ [LF]]
       | Some network \<Rightarrow>
           [''Network         : '' @ nw_name network @ '' ('' @ or_na (nw_state network) @ '')'' @ [LF],
            print_counter ''RX Bytes        : '' (nw_rx_bytes network),
            print_counter ''TX Bytes        : '' (nw_tx_bytes network)]) @
      [''Uptime          : ''] @ print_uptime (rm_uptime runtime) @
      [[LF], ''====================================='' @ [LF, LF]])"

definition print_process_info :: "ProcessInfo \<Rightarrow> string list" where
  "print_process_info info =
     [[LF] @ ''========== Process Information =========='' @ [LF, LF],
      ''PID             : '' @ show_int (ps_pid info) @ [LF],
      ''Name            : '' @ ps_name info @ [LF],
      ''State           : '' @ [ps_state info] @ [LF],
      ''RSS             : '' @ show_word (ps_rss_kb info) @ '' KB'' @ [LF],
      ''Threads         : '' @ show_word (ps_threads info) @ [LF],
      [LF] @ ''========================================='' @ [LF, LF]]"

text \<open>A row of the table of processes.\<close>

definition process_row :: "string \<Rightarrow> string \<Rightarrow> string \<Rightarrow> string \<Rightarrow> string \<Rightarrow> string" where
  "process_row pid name state rss threads =
     pad_right 8 pid @ '' '' @ pad_right 24 name @ '' '' @ pad_right 7 state @ '' '' @ pad_right 12 rss @ '' '' @
     pad_right 8 threads @ [LF]"

definition print_process_list :: "ProcessInfo list \<Rightarrow> string list" where
  "print_process_list list =
     (if list = [] then [''no processes found'' @ [LF]]
      else
        [[LF] @ ''========== Process Information =========='' @ [LF, LF],
         process_row ''PID'' ''NAME'' ''STATE'' ''RSS(KB)'' ''THREADS'',
         replicate 64 (CHR ''-'') @ [LF]] @
        map (\<lambda>p. process_row (show_int (ps_pid p)) (ps_name p) [ps_state p] (show_word (ps_rss_kb p))
                   (show_word (ps_threads p))) list @
        [[LF] @ ''Total: '' @ show_nat (length list) @ '' processes'' @ [LF],
         ''========================================='' @ [LF, LF]])"

definition psinfo_usage :: "string list" where
  "psinfo_usage = [''usage:'' @ [LF], ''  psinfo'' @ [LF], ''  psinfo <pid>'' @ [LF]]"

definition parse_pid :: "string \<Rightarrow> int option" where
  "parse_pid text1 =
     (let value = strtol text1 in
      if st_range value \<or> st_end value \<noteq> [] \<or> st_value value \<le> 0 \<or> INT_MAX < st_value value then None
      else Some (st_value value))"

definition cmd_monitor :: "Command \<Rightarrow> ShellContext \<Rightarrow> world \<Rightarrow> (int \<times> ShellContext \<times> world) option" where
  "cmd_monitor cmd ctx w =
     (if argc cmd \<noteq> 1 then Some (ERR_PARSE, ctx, eprintf (''usage: monitor'' @ [LF]) w)
      else do {
        (ret, snapshot, w) \<leftarrow> runtime_snapshot_collect w;
        if ret \<noteq> OK
        then Some (ret, ctx, eprintf (''monitor: failed to collect runtime information'' @ [LF]) w)
        else Some (OK, ctx, printf_all (print_runtime_snapshot snapshot) w) })"

definition cmd_psinfo :: "Command \<Rightarrow> ShellContext \<Rightarrow> world \<Rightarrow> (int \<times> ShellContext \<times> world) option" where
  "cmd_psinfo cmd ctx w =
     (if argc cmd < 1 \<or> 2 < argc cmd then Some (ERR_PARSE, ctx, printf_all psinfo_usage w)
      else if argc cmd = 2 then
        (case parse_pid (argv cmd ! 1) of
           None \<Rightarrow> Some (ERR_PARSE, ctx, eprintf (''psinfo: invalid pid: '' @ argv cmd ! 1 @ [LF]) w)
         | Some pid \<Rightarrow> do {
             (info, w) \<leftarrow> process_monitor_get pid w;
             case info of
               Inl ret \<Rightarrow> Some (ret, ctx, eprintf (''psinfo: unable to read process '' @ show_int pid @ [LF]) w)
             | Inr info \<Rightarrow> Some (OK, ctx, printf_all (print_process_info info) w) })
      else do {
        (ret, list, w) \<leftarrow> process_monitor_collect w;
        if ret \<noteq> OK
        then Some (ret, ctx, eprintf (''psinfo: failed to collect process information'' @ [LF]) w)
        else
          let w = printf_all (print_process_list list) w
          in Some (OK, ctx, process_monitor_free list w) })"

section \<open>Effects\<close>

text \<open>What such a command does: nothing to descriptors, heap, statics and context.\<close>

lemma cmd_monitor_eff: "ensures (cmd_monitor cmd ctx w) (\<lambda>(r, ctx', w'). calm w w' \<and> ctx' = ctx \<and> r \<le> OK)"
  unfolding cmd_monitor_def
  by (intro vcg ensures_mono3 [OF runtime_snapshot_collect_eff]) auto

lemma process_monitor_get_errs: "ensures (process_monitor_get pid w) errs"
  unfolding process_monitor_get_def by (intro vcg) (auto simp: errs_def)

lemma process_monitor_get_result:
  "ensures (process_monitor_get pid w) (\<lambda>(r, w'). calm w w' \<and> (\<forall>e. r = Inl e \<longrightarrow> e < OK))"
  using process_monitor_get_eff [of pid w] process_monitor_get_errs [of pid w] by (auto simp: ensures_def errs_def)

lemma cmd_psinfo_eff: "ensures (cmd_psinfo cmd ctx w) (\<lambda>(r, ctx', w'). calm w w' \<and> ctx' = ctx \<and> r \<le> OK)"
  unfolding cmd_psinfo_def
  by (intro vcg ensures_option ensures_sum ensures_mono2 [OF process_monitor_get_result]
      ensures_mono3 [OF process_monitor_collect_eff])
    (auto simp: process_monitor_free_def move_simps split: if_splits)

end
