(* ===== verification/Led_Control.thy ===== *)
theory Led_Control
  imports Sysfs_IO
begin

text \<open>
  \<^verbatim>\<open>src/led_control.c\<close>: switching a LED through sysfs. Every change is read back, and a name or
  trigger from the command line is checked before it becomes part of a path or of a write.
\<close>

definition LED_SYSFS_BASE :: string where "LED_SYSFS_BASE = ''/sys/class/leds''"
abbreviation (input) LED_PATH_SIZE :: nat where "LED_PATH_SIZE \<equiv> 512"
abbreviation (input) LED_TRIGGER_BUFFER_SIZE :: nat where "LED_TRIGGER_BUFFER_SIZE \<equiv> 2048"

definition led_name_valid :: "string \<Rightarrow> bool" where
  "led_name_valid name \<longleftrightarrow>
     name \<noteq> [] \<and> name \<noteq> ''.'' \<and> name \<noteq> ''..'' \<and>
     list_all (\<lambda>c. \<not> (c = CHR ''/'' \<or> code c < 32 \<or> code c = 127)) name"

definition led_trigger_valid :: "string \<Rightarrow> bool" where
  "led_trigger_valid trigger \<longleftrightarrow>
     trigger \<noteq> [] \<and>
     list_all (\<lambda>c. \<not> (c = CHR ''/'' \<or> isspace c \<or> code c < 32 \<or> code c = 127)) trigger"

definition led_build_path :: "string \<Rightarrow> string \<Rightarrow> string option" where
  "led_build_path name attribute =
     (if \<not> led_name_valid name \<or> attribute = [] then None
      else build_path LED_PATH_SIZE LED_SYSFS_BASE name attribute)"

text \<open>The text between the first \<^verbatim>\<open>[\<close> and the \<^verbatim>\<open>]\<close> behind it, if there is any.\<close>

definition bracketed :: "string \<Rightarrow> string option" where
  "bracketed buffer =
     (case dropWhile (\<lambda>c. c \<noteq> CHR ''['') buffer of
        [] \<Rightarrow> None
      | b # rest \<Rightarrow>
          let inner = takeWhile (\<lambda>c. c \<noteq> CHR '']'') rest in
          if CHR '']'' \<notin> set rest \<or> inner = [] then None else Some inner)"

definition led_read_active_trigger :: "string \<Rightarrow> nat \<Rightarrow> world \<Rightarrow> (string option \<times> world) option" where
  "led_read_active_trigger name room w =
     (if room = 0 then Some (None, w)
      else case led_build_path name ''trigger'' of
        None \<Rightarrow> Some (None, w)
      | Some path \<Rightarrow> do {
          (r, buffer, w) \<leftarrow> sysfs_read_text path LED_TRIGGER_BUFFER_SIZE w;
          if r < 0 then Some (None, w)
          else case bracketed buffer of
            None \<Rightarrow> Some (None, w)
          | Some inner \<Rightarrow> Some (if room \<le> length inner then None else Some inner, w) })"

definition led_write_trigger :: "string \<Rightarrow> string \<Rightarrow> world \<Rightarrow> (int \<times> world) option" where
  "led_write_trigger name trigger w =
     (case led_build_path name ''trigger'' of
        None \<Rightarrow> Some (-1, w)
      | Some path \<Rightarrow> do {
          (r, w) \<leftarrow> sysfs_write_text path trigger w;
          if r < 0 then Some (-1, w)
          else do {
            (actual, w) \<leftarrow> led_read_active_trigger name 64 w;
            Some (if actual = Some trigger then 0 else -1, w) } })"

definition led_read_max_brightness :: "string \<Rightarrow> world \<Rightarrow> (int option \<times> world) option" where
  "led_read_max_brightness name w =
     (case led_build_path name ''max_brightness'' of
        None \<Rightarrow> Some (None, w)
      | Some path \<Rightarrow> do {
          (v, w) \<leftarrow> sysfs_read_long path w;
          Some (case v of None \<Rightarrow> None | Some n \<Rightarrow> if n \<le> 0 then None else Some n, w) })"

definition led_write_brightness :: "string \<Rightarrow> int \<Rightarrow> world \<Rightarrow> (int \<times> world) option" where
  "led_write_brightness name value w =
     (case led_build_path name ''brightness'' of
        None \<Rightarrow> Some (-1, w)
      | Some path \<Rightarrow>
          let text = show_int value in
          if \<not> snprintf_fits 32 text then Some (-1, w)
          else do {
            (r, w) \<leftarrow> sysfs_write_text path text w;
            if r < 0 then Some (-1, w)
            else do {
              (actual, w) \<leftarrow> sysfs_read_long path w;
              Some (if actual = Some value then 0 else -1, w) } })"

definition led_control_set_on :: "string \<Rightarrow> world \<Rightarrow> (int \<times> world) option" where
  "led_control_set_on name w =
     (if \<not> led_name_valid name then Some (ERR_UNKNOWN, log_error ''invalid LED name'' w)
      else do {
        (max_brightness, w) \<leftarrow> led_read_max_brightness name w;
        case max_brightness of
          None \<Rightarrow> Some (ERR_UNKNOWN, log_error ''failed read LED max brightness: %s'' w)
        | Some brightness \<Rightarrow> do {
            (r, w) \<leftarrow> led_write_trigger name ''none'' w;
            if r < 0 then Some (ERR_UNKNOWN, log_error ''failed set LED manual mode: %s'' w)
            else do {
              (r, w) \<leftarrow> led_write_brightness name brightness w;
              if r < 0 then Some (ERR_UNKNOWN, log_error ''failed turn LED on: %s'' w)
              else Some (OK, w) } } })"

definition led_control_set_off :: "string \<Rightarrow> world \<Rightarrow> (int \<times> world) option" where
  "led_control_set_off name w =
     (if \<not> led_name_valid name then Some (ERR_UNKNOWN, log_error ''invalid LED name'' w)
      else do {
        (r, w) \<leftarrow> led_write_trigger name ''none'' w;
        if r < 0 then Some (ERR_UNKNOWN, log_error ''failed set LED manual mode: %s'' w)
        else do {
          (r, w) \<leftarrow> led_write_brightness name 0 w;
          if r < 0 then Some (ERR_UNKNOWN, log_error ''failed turn LED off: %s'' w)
          else Some (OK, w) } })"

definition led_control_set_trigger :: "string \<Rightarrow> string \<Rightarrow> world \<Rightarrow> (int \<times> world) option" where
  "led_control_set_trigger name trigger w =
     (if \<not> led_name_valid name \<or> \<not> led_trigger_valid trigger
      then Some (ERR_UNKNOWN, log_error ''invalid LED trigger'' w)
      else do {
        (r, w) \<leftarrow> led_write_trigger name trigger w;
        if r < 0 then Some (ERR_UNKNOWN, log_error ''failed set LED trigger: %s'' w)
        else Some (OK, w) })"

section \<open>Effects\<close>

lemma led_read_active_trigger_calm: "ensures (led_read_active_trigger name room w) (\<lambda>(t, w'). calm w w')"
  unfolding led_read_active_trigger_def by (intro vcg ensures_option) auto

lemmas led_calm1 [vcg] = ensures_mono2 [OF led_read_active_trigger_calm]

lemma led_write_trigger_calm: "ensures (led_write_trigger name t w) (\<lambda>(r, w'). calm w w')"
  unfolding led_write_trigger_def by (intro vcg ensures_option) (auto intro: calm_trans)

lemma led_read_max_brightness_calm: "ensures (led_read_max_brightness name w) (\<lambda>(v, w'). calm w w')"
  unfolding led_read_max_brightness_def by (intro vcg ensures_option) (auto intro: calm_trans)

lemma led_write_brightness_calm: "ensures (led_write_brightness name v w) (\<lambda>(r, w'). calm w w')"
  unfolding led_write_brightness_def by (intro vcg ensures_option) (auto intro: calm_trans)

lemmas led_calm2 [vcg] =
  ensures_mono2 [OF led_write_trigger_calm] ensures_mono2 [OF led_read_max_brightness_calm]
  ensures_mono2 [OF led_write_brightness_calm]

definition led_result :: "int \<Rightarrow> bool" where
  "led_result r \<longleftrightarrow> r = OK \<or> r = ERR_UNKNOWN"

lemma led_control_calm:
  "ensures (led_control_set_on name w) (\<lambda>(r, w'). calm w w' \<and> led_result r)"
  "ensures (led_control_set_off name w) (\<lambda>(r, w'). calm w w' \<and> led_result r)"
  "ensures (led_control_set_trigger name t w) (\<lambda>(r, w'). calm w w' \<and> led_result r)"
  unfolding led_control_set_on_def led_control_set_off_def led_control_set_trigger_def
  by (intro vcg ensures_option; auto simp: led_result_def intro: calm_trans)+

lemmas led_calm3 [vcg] =
  ensures_mono2 [OF led_control_calm(1)] ensures_mono2 [OF led_control_calm(2)] ensures_mono2 [OF led_control_calm(3)]

section \<open>Paths\<close>

text \<open>The files of one LED.\<close>

definition led_file :: "string \<Rightarrow> string \<Rightarrow> bool" where
  "led_file name path \<longleftrightarrow>
     (\<exists>attribute\<in>{''trigger'', ''brightness'', ''max_brightness''}.
        path = LED_SYSFS_BASE @ ''/'' @ name @ ''/'' @ attribute) \<and>
     CHR ''/'' \<notin> set name \<and> name \<notin> {[], ''.'', ''..''}"

fun led_call :: "string \<Rightarrow> syscall \<Rightarrow> bool" where
  "led_call name (Sys_open path flags) = led_file name path"
| "led_call name (Sys_read fd n) = True"
| "led_call name (Sys_write fd s) = True"
| "led_call name (Sys_close fd) = True"
| "led_call name c = False"

abbreviation (input) led_only :: "string \<Rightarrow> world \<Rightarrow> world \<Rightarrow> bool" where
  "led_only name \<equiv> calls_only (led_call name)"

lemmas led_paths =
  paths ensures_option sys_calls [where P = "led_call name" for name] sysv_calls [where P = "led_call name" for name]
  sys_retry_calls [where P = "led_call name" for name]

lemma read_loop_led: "ensures (sysfs_read_loop fd room b w) (\<lambda>(c, b', w'). led_only name w w')"
proof (induction w arbitrary: b rule: script_induct)
  case (less w)
  show ?case
    by (subst sysfs_read_loop.simps, intro vcg ensures_mono3 [OF less])
      (auto simp: called_def calls_only_def)
qed

lemma sysfs_led:
  assumes "led_file name path"
  shows "ensures (sysfs_read_text path room w) (\<lambda>(r, t, w'). led_only name w w')"
    and "ensures (sysfs_write_text path value w) (\<lambda>(r, w'). led_only name w w')"
  unfolding sysfs_read_text_def sysfs_write_text_def
  using assms
  by (intro led_paths ensures_mono3 [OF read_loop_led [of _ _ _ _ name]]; auto intro: calls_only_trans)+

lemma sysfs_long_led:
  "led_file name path \<Longrightarrow> ensures (sysfs_read_long path w) (\<lambda>(v, w'). led_only name w w')"
  unfolding sysfs_read_long_def by (intro led_paths ensures_mono3 [OF sysfs_led(1)]) auto

lemma led_build_path_file:
  "led_build_path name a = Some path \<Longrightarrow> a \<in> {''trigger'', ''brightness'', ''max_brightness''} \<Longrightarrow> led_file name path"
  by (auto simp: led_build_path_def build_path_def Let_def led_file_def led_name_valid_def list_all_iff
      split: if_splits)

lemma led_trigger_led:
  "ensures (led_read_active_trigger name room w) (\<lambda>(t, w'). led_only name w w')"
  unfolding led_read_active_trigger_def
  by (intro led_paths ensures_mono3 [OF sysfs_led(1) [of name]]) (auto dest: led_build_path_file)

lemma led_steps_led:
  "ensures (led_write_trigger name t w) (\<lambda>(r, w'). led_only name w w')"
  "ensures (led_read_max_brightness name w) (\<lambda>(v, w'). led_only name w w')"
  "ensures (led_write_brightness name v w) (\<lambda>(r, w'). led_only name w w')"
  unfolding led_write_trigger_def led_read_max_brightness_def led_write_brightness_def
  by (intro led_paths ensures_mono2 [OF sysfs_led(2) [of name]] ensures_mono2 [OF led_trigger_led]
      ensures_mono2 [OF sysfs_long_led [of name]];
      auto dest: led_build_path_file intro: calls_only_trans)+


lemma led_control_led:
  "ensures (led_control_set_on name w) (\<lambda>(r, w'). led_only name w w' \<and> (led_name_valid name \<or> w_trace w' = w_trace w))"
  "ensures (led_control_set_off name w) (\<lambda>(r, w'). led_only name w w' \<and> (led_name_valid name \<or> w_trace w' = w_trace w))"
  "ensures (led_control_set_trigger name t w)
     (\<lambda>(r, w'). led_only name w w' \<and> (led_name_valid name \<or> w_trace w' = w_trace w))"
  unfolding led_control_set_on_def led_control_set_off_def led_control_set_trigger_def
  by (intro led_paths ensures_mono2 [OF led_steps_led(1)] ensures_mono2 [OF led_steps_led(2)]
      ensures_mono2 [OF led_steps_led(3)];
      auto intro: calls_only_trans)+

text \<open>C24: whatever name the user gives, the LED commands open no file but the trigger,
  brightness and max_brightness files of one directory directly below /sys/class/leds; for an
  invalid name (empty, dots, a slash, a control character) they make no call at all.\<close>

theorem led_confined:
  assumes "led_control_set_on name w = Some (r, w') \<or> led_control_set_off name w = Some (r, w') \<or>
      led_control_set_trigger name trigger w = Some (r, w')"
  shows "\<exists>t. w_trace w' = w_trace w @ t \<and> (t = [] \<or> led_name_valid name) \<and>
     (\<forall>path flags a. (Sys_open path flags, a) \<in> set t \<longrightarrow>
        (\<exists>attribute\<in>{''trigger'', ''brightness'', ''max_brightness''}.
           path = LED_SYSFS_BASE @ ''/'' @ name @ ''/'' @ attribute) \<and>
        CHR ''/'' \<notin> set name \<and> name \<notin> {[], ''.'', ''..''})"
proof -
  have "led_only name w w' \<and> (led_name_valid name \<or> w_trace w' = w_trace w)"
    using assms ensures_D2 [OF _ led_control_led(1)] ensures_D2 [OF _ led_control_led(2)]
      ensures_D2 [OF _ led_control_led(3)] by blast
  then obtain t where t: "w_trace w' = w_trace w @ t" "t = [] \<or> led_name_valid name"
    "\<forall>x\<in>set t. led_call name (fst x)" by (auto simp: calls_only_def)
  have "led_file name path" if "(Sys_open path flags, a) \<in> set t" for path flags a
    using bspec [OF t(3) that] by simp
  then show ?thesis using t(1,2) unfolding led_file_def by blast
qed

text \<open>A LED with maximal brightness 255 is switched on.\<close>

definition demo_led :: "answer list" where
  "demo_led =
     [ok 5, (ok 4)\<lparr>a_bytes := ''255'' @ [LF]\<rparr>, ok 0, ok 0] @
     [ok 5, ok 4, ok 0] @ [ok 5, (ok 15)\<lparr>a_bytes := ''[none] timer on'' @ [LF]\<rparr>, ok 0, ok 0] @
     [ok 5, ok 3, ok 0] @ [ok 5, (ok 4)\<lparr>a_bytes := ''255'' @ [LF]\<rparr>, ok 0, ok 0]"

lemma demo_led_run: obtains w' where "led_control_set_on ''work'' (init_world demo_led) = Some (OK, w')"
proof -
  have "map_option fst (led_control_set_on ''work'' (init_world demo_led)) = Some OK" by code_simp
  then show thesis using that by auto
qed

theorem led_confined_witness:
  "\<exists>w'. led_control_set_on ''work'' (init_world demo_led) = Some (OK, w') \<and>
     (\<forall>path flags a. (Sys_open path flags, a) \<in> set (w_trace w') \<longrightarrow>
        path \<in> {''/sys/class/leds/work/'' @ x | x. x \<in> {''trigger'', ''brightness'', ''max_brightness''}})"
proof -
  obtain w' where run: "led_control_set_on ''work'' (init_world demo_led) = Some (OK, w')" by (rule demo_led_run)
  from led_confined [OF disjI1 [OF run]] obtain t where
    "w_trace w' = w_trace (init_world demo_led) @ t"
    "\<forall>path flags a. (Sys_open path flags, a) \<in> set t \<longrightarrow>
        (\<exists>attribute\<in>{''trigger'', ''brightness'', ''max_brightness''}.
           path = LED_SYSFS_BASE @ ''/'' @ ''work'' @ ''/'' @ attribute)" by blast
  then show ?thesis using run by (intro exI [of _ w'] conjI) (auto simp: init_world_def LED_SYSFS_BASE_def)
qed

section \<open>Read back\<close>

text \<open>\<open>shows_brightness\<close>, \<open>shows_trigger\<close>: a read that ended in this world gave this value.\<close>

definition shows_brightness :: "string \<Rightarrow> int \<Rightarrow> world \<Rightarrow> bool" where
  "shows_brightness name v w' \<longleftrightarrow>
     (\<exists>u. sysfs_read_long (LED_SYSFS_BASE @ ''/'' @ name @ ''/brightness'') u = Some (Some v, w'))"

definition shows_trigger :: "string \<Rightarrow> string \<Rightarrow> world \<Rightarrow> bool" where
  "shows_trigger name t w' \<longleftrightarrow> (\<exists>u. led_read_active_trigger name 64 u = Some (Some t, w'))"

lemma led_path_text: "led_build_path name a = Some path \<Longrightarrow> path = LED_SYSFS_BASE @ ''/'' @ name @ ''/'' @ a"
  by (auto simp: led_build_path_def build_path_def Let_def split: if_splits)

lemma led_write_brightness_back:
  "ensures (led_write_brightness name v w) (\<lambda>(r, w'). r = 0 \<and> shows_brightness name v w' \<or> r = -1)"
  unfolding led_write_brightness_def shows_brightness_def
  by (auto simp: ensures_def bind_Some Let_def dest!: led_path_text split: option.splits if_splits prod.splits)

lemma led_write_trigger_back:
  "ensures (led_write_trigger name t w) (\<lambda>(r, w'). r = 0 \<and> shows_trigger name t w' \<or> r = -1)"
  unfolding led_write_trigger_def shows_trigger_def
  by (auto simp: ensures_def bind_Some split: option.splits if_splits)

lemma led_read_max_brightness_back:
  "ensures (led_read_max_brightness name w) (\<lambda>(v, w'). led_read_max_brightness name w = Some (v, w') \<and>
     (\<forall>b. v = Some b \<longrightarrow> 0 < b))"
proof -
  have "ensures (led_read_max_brightness name w) (\<lambda>(v, w'). \<forall>b. v = Some b \<longrightarrow> 0 < b)"
    unfolding led_read_max_brightness_def by (intro vcg ensures_option) (auto split: option.splits if_splits)
  then show ?thesis by (simp add: ensures_def)
qed

lemmas led_back =
  paths ensures_option ensures_mono2 [OF led_write_brightness_back] ensures_mono2 [OF led_write_trigger_back]
  ensures_mono2 [OF led_read_max_brightness_back]

lemma led_set_on_back:
  "ensures (led_control_set_on name w) (\<lambda>(r, w'). r = OK \<longrightarrow>
     (\<exists>b v. 0 < b \<and> led_read_max_brightness name w = Some (Some b, v) \<and> shows_brightness name b w'))"
  unfolding led_control_set_on_def
  by (intro led_back; simp; blast)

lemma led_set_off_back:
  "ensures (led_control_set_off name w) (\<lambda>(r, w'). r = OK \<longrightarrow> shows_brightness name 0 w')"
  unfolding led_control_set_off_def by (intro led_back) simp_all

lemma led_set_trigger_back:
  "ensures (led_control_set_trigger name t w) (\<lambda>(r, w'). r = OK \<longrightarrow> shows_trigger name t w')"
  unfolding led_control_set_trigger_def by (intro led_back) simp_all

text \<open>C23: success is never reported on trust: switching on ends with a read of the brightness file
  that gave exactly the positive maximum read before, switching off with one that gave 0, setting a
  trigger with one that showed the trigger in brackets.\<close>

theorem led_verified:
  "(led_control_set_on name w = Some (OK, w') \<longrightarrow>
      (\<exists>b v. 0 < b \<and> led_read_max_brightness name w = Some (Some b, v) \<and> shows_brightness name b w')) \<and>
   (led_control_set_off name w = Some (OK, w') \<longrightarrow> shows_brightness name 0 w') \<and>
   (led_control_set_trigger name trigger w = Some (OK, w') \<longrightarrow> shows_trigger name trigger w')"
  using ensures_D2 [OF _ led_set_on_back] ensures_D2 [OF _ led_set_off_back]
    ensures_D2 [OF _ led_set_trigger_back] by blast

theorem led_verified_witness:
  "\<exists>w' v. led_control_set_on ''work'' (init_world demo_led) = Some (OK, w') \<and>
     led_read_max_brightness ''work'' (init_world demo_led) = Some (Some 255, v) \<and>
     shows_brightness ''work'' 255 w'"
proof -
  obtain w' where run: "led_control_set_on ''work'' (init_world demo_led) = Some (OK, w')" by (rule demo_led_run)
  have "map_option fst (led_read_max_brightness ''work'' (init_world demo_led)) = Some (Some 255)" by code_simp
  then obtain v where v: "led_read_max_brightness ''work'' (init_world demo_led) = Some (Some 255, v)" by auto
  from led_verified [of "''work''" "init_world demo_led" w' "[]"] run obtain b u where
    "led_read_max_brightness ''work'' (init_world demo_led) = Some (Some b, u)" "shows_brightness ''work'' b w'"
    by blast
  with v run show ?thesis by auto
qed

end
