(* ===== verification/Hardware_Info.thy ===== *)
theory Hardware_Info
  imports Directory Led_Control Output
begin

text \<open>
  \<^verbatim>\<open>src/hardware_info.c\<close>: four tables of the board (thermal zones, frequency policies, network
  interfaces, LEDs), each collected from a directory of sysfs with the loop of theory \<open>Directory\<close>.
  A table that is full, or whose directory cannot be opened, is no error. A value with its
  \<^verbatim>\<open>has_\<close> flag is an option.
\<close>

abbreviation (input) HARDWARE_MAX_THERMAL_ZONES :: nat where "HARDWARE_MAX_THERMAL_ZONES \<equiv> 16"
abbreviation (input) HARDWARE_MAX_CPU_POLICIES :: nat where "HARDWARE_MAX_CPU_POLICIES \<equiv> 16"
abbreviation (input) HARDWARE_MAX_NETWORK_INTERFACES :: nat where "HARDWARE_MAX_NETWORK_INTERFACES \<equiv> 16"
abbreviation (input) HARDWARE_MAX_LEDS :: nat where "HARDWARE_MAX_LEDS \<equiv> 16"

record ThermalZoneInfo =
  th_name :: string
  th_type :: string
  th_temperature :: "double option"

record CpuFreqPolicyInfo =
  cp_name :: string
  cp_affected_cpus :: string
  cp_driver :: string
  cp_governor :: string
  cp_current_khz :: "64 word option"
  cp_scaling_min_khz :: "64 word option"
  cp_scaling_max_khz :: "64 word option"
  cp_hardware_min_khz :: "64 word option"
  cp_hardware_max_khz :: "64 word option"

record NetworkInterfaceInfo =
  ni_name :: string
  ni_state :: string
  ni_address :: string
  ni_mtu :: "64 word option"

record LedInfo =
  li_name :: string
  li_brightness :: "int option"
  li_max_brightness :: "int option"
  li_trigger :: string

record HardwareInfo =
  hw_thermal_zones :: "ThermalZoneInfo list"
  hw_cpu_policies :: "CpuFreqPolicyInfo list"
  hw_network_interfaces :: "NetworkInterfaceInfo list"
  hw_leds :: "LedInfo list"

section \<open>Collecting\<close>

definition read_led_trigger :: "string \<Rightarrow> nat \<Rightarrow> world \<Rightarrow> (string option \<times> world) option" where
  "read_led_trigger path room w = do {
     (r, line, w) \<leftarrow> sysfs_read_text path 2048 w;
     if r < 0 then Some (None, w)
     else case bracketed line of
       None \<Rightarrow> Some (None, w)
     | Some inner \<Rightarrow>
         let n = (if room \<le> length inner then room - 1 else length inner)
         in Some (Some (take n inner), w) }"

text \<open>A zone counts only if its type can be read.\<close>

definition hw_thermal_probe :: "string \<Rightarrow> string \<Rightarrow> world \<Rightarrow> (ThermalZoneInfo option \<times> world) option" where
  "hw_thermal_probe base name w =
     (case build_path PATH_SIZE base name ''type'' of
        None \<Rightarrow> Some (None, w)
      | Some path \<Rightarrow> do {
          (r, type1, w) \<leftarrow> sysfs_read_text path 64 w;
          if r < 0 then Some (None, w)
          else do {
            (temperature, w) \<leftarrow> attr_long base name ''temp'' w;
            Some (Some \<lparr>th_name = copy_text 64 name, th_type = type1,
                        th_temperature = map_option (\<lambda>t. of_int t / 1000) temperature\<rparr>, w) } })"

definition cpu_policy_probe :: "string \<Rightarrow> string \<Rightarrow> world \<Rightarrow> (CpuFreqPolicyInfo option \<times> world) option" where
  "cpu_policy_probe base name w = do {
     (cpus, w) \<leftarrow> attr_text base name ''affected_cpus'' 64 w;
     (driver, w) \<leftarrow> attr_text base name ''scaling_driver'' 64 w;
     (governor, w) \<leftarrow> attr_text base name ''scaling_governor'' 64 w;
     (current, w) \<leftarrow> attr_ulong base name ''scaling_cur_freq'' w;
     (scaling_min, w) \<leftarrow> attr_ulong base name ''scaling_min_freq'' w;
     (scaling_max, w) \<leftarrow> attr_ulong base name ''scaling_max_freq'' w;
     (hardware_min, w) \<leftarrow> attr_ulong base name ''cpuinfo_min_freq'' w;
     (hardware_max, w) \<leftarrow> attr_ulong base name ''cpuinfo_max_freq'' w;
     Some (Some \<lparr>cp_name = copy_text 32 name, cp_affected_cpus = cpus, cp_driver = driver,
                 cp_governor = governor, cp_current_khz = current, cp_scaling_min_khz = scaling_min,
                 cp_scaling_max_khz = scaling_max, cp_hardware_min_khz = hardware_min,
                 cp_hardware_max_khz = hardware_max\<rparr>, w) }"

definition hw_network_probe :: "string \<Rightarrow> string \<Rightarrow> world \<Rightarrow> (NetworkInterfaceInfo option \<times> world) option" where
  "hw_network_probe base name w = do {
     (state, w) \<leftarrow> attr_text base name ''operstate'' 32 w;
     (address, w) \<leftarrow> attr_text base name ''address'' 64 w;
     (mtu, w) \<leftarrow> attr_ulong base name ''mtu'' w;
     Some (Some \<lparr>ni_name = copy_text 64 name, ni_state = state, ni_address = address, ni_mtu = mtu\<rparr>, w) }"

definition led_probe :: "string \<Rightarrow> string \<Rightarrow> world \<Rightarrow> (LedInfo option \<times> world) option" where
  "led_probe base name w = do {
     (brightness, w) \<leftarrow> attr_long base name ''brightness'' w;
     (max_brightness, w) \<leftarrow> attr_long base name ''max_brightness'' w;
     (trigger, w) \<leftarrow>
       (case build_path PATH_SIZE base name ''trigger'' of
          None \<Rightarrow> Some (None, w)
        | Some path \<Rightarrow> read_led_trigger path 64 w);
     Some (Some \<lparr>li_name = copy_text 64 name, li_brightness = brightness, li_max_brightness = max_brightness,
                 li_trigger = (case trigger of None \<Rightarrow> [] | Some t \<Rightarrow> t)\<rparr>, w) }"

definition visible :: "string \<Rightarrow> bool" where
  "visible name \<longleftrightarrow> take 1 name \<noteq> ''.''"

definition table :: "'a list option \<Rightarrow> 'a list" where
  "table found = (case found of None \<Rightarrow> [] | Some xs \<Rightarrow> xs)"

definition collect_thermal :: "world \<Rightarrow> (ThermalZoneInfo list \<times> world) option" where
  "collect_thermal w = do {
     let base = ''/sys/class/thermal'';
     (found, w) \<leftarrow> collect_directory base (\<lambda>name. starts_with name ''thermal_zone'')
       HARDWARE_MAX_THERMAL_ZONES (hw_thermal_probe base) w;
     Some (table found, w) }"

definition collect_cpu_frequency :: "world \<Rightarrow> (CpuFreqPolicyInfo list \<times> world) option" where
  "collect_cpu_frequency w = do {
     let base = ''/sys/devices/system/cpu/cpufreq'';
     (found, w) \<leftarrow> collect_directory base (\<lambda>name. starts_with name ''policy'')
       HARDWARE_MAX_CPU_POLICIES (cpu_policy_probe base) w;
     Some (table found, w) }"

definition collect_network :: "world \<Rightarrow> (NetworkInterfaceInfo list \<times> world) option" where
  "collect_network w = do {
     let base = ''/sys/class/net'';
     (found, w) \<leftarrow> collect_directory base visible HARDWARE_MAX_NETWORK_INTERFACES (hw_network_probe base) w;
     Some (table found, w) }"

definition collect_leds :: "world \<Rightarrow> (LedInfo list \<times> world) option" where
  "collect_leds w = do {
     let base = ''/sys/class/leds'';
     (found, w) \<leftarrow> collect_directory base visible HARDWARE_MAX_LEDS (led_probe base) w;
     Some (table found, w) }"

definition hardware_info_collect :: "world \<Rightarrow> (int \<times> HardwareInfo \<times> world) option" where
  "hardware_info_collect w = do {
     (thermal, w) \<leftarrow> collect_thermal w;
     (policies, w) \<leftarrow> collect_cpu_frequency w;
     (network, w) \<leftarrow> collect_network w;
     (leds, w) \<leftarrow> collect_leds w;
     Some (OK, \<lparr>hw_thermal_zones = thermal, hw_cpu_policies = policies,
                hw_network_interfaces = network, hw_leds = leds\<rparr>, w) }"

section \<open>Printing\<close>

definition thermal_line :: "ThermalZoneInfo \<Rightarrow> string list" where
  "thermal_line zone =
     (case th_temperature zone of
        Some t \<Rightarrow> [''  '' @ pad_right 14 (th_name zone) @ '' '' @ pad_right 20 (or_na (th_type zone)) @ '' '' @
                   show_fixed 1 t @ '' C'' @ [LF]]
      | None \<Rightarrow> [''  '' @ pad_right 14 (th_name zone) @ '' '' @ pad_right 20 (or_na (th_type zone)) @ '' N/A'' @ [LF]])"

definition print_thermal :: "HardwareInfo \<Rightarrow> string list" where
  "print_thermal info = (''Thermal Zones:'' @ [LF]) #
     (if hw_thermal_zones info = [] then [''  N/A'' @ [LF]]
      else concat (map thermal_line (hw_thermal_zones info)))"

definition show_mhz :: "64 word \<Rightarrow> string" where
  "show_mhz khz = show_fixed 1 (of_nat (unat khz) / 1000)"

definition mhz_range :: "64 word option \<Rightarrow> 64 word option \<Rightarrow> string" where
  "mhz_range low high =
     (case (low, high) of
        (Some a, Some b) \<Rightarrow> show_mhz a @ '' - '' @ show_mhz b @ '' MHz''
      | _ \<Rightarrow> ''N/A'')"

definition policy_lines :: "CpuFreqPolicyInfo \<Rightarrow> string list" where
  "policy_lines policy =
     [''  '' @ cp_name policy @ [LF],
      ''    CPUs     : '' @ or_na (cp_affected_cpus policy) @ [LF],
      ''    Driver   : '' @ or_na (cp_driver policy) @ [LF],
      ''    Governor : '' @ or_na (cp_governor policy) @ [LF],
      ''    Current  : '' @
        (case cp_current_khz policy of Some k \<Rightarrow> show_mhz k @ '' MHz'' | None \<Rightarrow> ''N/A'') @ [LF],
      ''    Policy   : '' @ mhz_range (cp_scaling_min_khz policy) (cp_scaling_max_khz policy) @ [LF],
      ''    Hardware : '' @ mhz_range (cp_hardware_min_khz policy) (cp_hardware_max_khz policy) @ [LF]]"

definition print_cpu_frequency :: "HardwareInfo \<Rightarrow> string list" where
  "print_cpu_frequency info = ([LF] @ ''CPU Frequency:'' @ [LF]) #
     (if hw_cpu_policies info = [] then [''  N/A'' @ [LF]]
      else concat (map policy_lines (hw_cpu_policies info)))"

definition interface_lines :: "NetworkInterfaceInfo \<Rightarrow> string list" where
  "interface_lines network =
     [''  '' @ ni_name network @ [LF],
      ''    State : '' @ or_na (ni_state network) @ [LF],
      ''    MAC   : '' @ or_na (ni_address network) @ [LF],
      ''    MTU   : '' @ (case ni_mtu network of Some m \<Rightarrow> show_word m | None \<Rightarrow> ''N/A'') @ [LF]]"

definition print_network :: "HardwareInfo \<Rightarrow> string list" where
  "print_network info = ([LF] @ ''Network:'' @ [LF]) #
     (if hw_network_interfaces info = [] then [''  N/A'' @ [LF]]
      else concat (map interface_lines (hw_network_interfaces info)))"

definition led_lines :: "LedInfo \<Rightarrow> string list" where
  "led_lines led =
     [''  '' @ li_name led @ [LF],
      ''    Brightness : '' @
        (case (li_brightness led, li_max_brightness led) of
           (Some b, Some m) \<Rightarrow> show_int b @ ''/'' @ show_int m
         | _ \<Rightarrow> ''N/A'') @ [LF],
      ''    Trigger    : '' @ or_na (li_trigger led) @ [LF]]"

definition print_leds :: "HardwareInfo \<Rightarrow> string list" where
  "print_leds info = ([LF] @ ''LEDs:'' @ [LF]) #
     (if hw_leds info = [] then [''  N/A'' @ [LF]] else concat (map led_lines (hw_leds info)))"

definition hardware_info_print :: "HardwareInfo \<Rightarrow> world \<Rightarrow> world" where
  "hardware_info_print info =
     printf_all ([[LF], ''========== Hardware =========='' @ [LF]] @ print_thermal info @
       print_cpu_frequency info @ print_network info @ print_leds info @ [[LF]])"

section \<open>Bounds\<close>

text \<open>Whatever a file holds, the text that a read leaves fits the buffer, also when the read fails.\<close>

lemma text_fits: "length b < room \<Longrightarrow> length (cstr b) < room" "length b < room \<Longrightarrow> length (cstr (eol_stripped b)) < room"
  using cstr_length [of b] cstr_length [of "eol_stripped b"] eol_stripped_length [of b] by linarith+

lemma sysfs_read_text_fits:
  "0 < room \<Longrightarrow> ensures (sysfs_read_text path room w) (\<lambda>(r, text, w'). length text < room)"
  unfolding sysfs_read_text_def
  by (intro paths ensures_sys ensures_mono3 [OF read_loop_data]) (auto intro: text_fits)

lemma sysfs_read_text_eff:
  "0 < room \<Longrightarrow> ensures (sysfs_read_text path room w) (\<lambda>(r, text, w'). calm w w' \<and> length text < room)"
  using sysfs_read_text_fits [of room path w] sysfs_read_text_calm [of path room w] by (auto simp: ensures_def)

lemma attr_text_eff:
  "0 < room \<Longrightarrow> ensures (attr_text base name file room w) (\<lambda>(t, w'). calm w w' \<and> length t < room)"
  unfolding attr_text_def
  by (intro paths ensures_option ensures_mono3 [OF sysfs_read_text_eff]) auto

lemma read_led_trigger_eff:
  "ensures (read_led_trigger path 64 w) (\<lambda>(t, w'). calm w w' \<and> (\<forall>x. t = Some x \<longrightarrow> length x < 64))"
  unfolding read_led_trigger_def
  by (intro vcg ensures_option) (auto simp: Let_def)

text \<open>An entry of a table is named after an entry of the directory, and its texts fit their fields.\<close>

definition zone_fits :: "string \<Rightarrow> ThermalZoneInfo \<Rightarrow> bool" where
  "zone_fits name z \<longleftrightarrow> th_name z = copy_text 64 name \<and> length (th_type z) < 64"

definition policy_fits :: "string \<Rightarrow> CpuFreqPolicyInfo \<Rightarrow> bool" where
  "policy_fits name p \<longleftrightarrow> cp_name p = copy_text 32 name \<and>
     length (cp_affected_cpus p) < 64 \<and> length (cp_driver p) < 64 \<and> length (cp_governor p) < 64"

definition interface_fits :: "string \<Rightarrow> NetworkInterfaceInfo \<Rightarrow> bool" where
  "interface_fits name n \<longleftrightarrow> ni_name n = copy_text 64 name \<and> length (ni_state n) < 32 \<and> length (ni_address n) < 64"

definition led_fits :: "string \<Rightarrow> LedInfo \<Rightarrow> bool" where
  "led_fits name l \<longleftrightarrow> li_name l = copy_text 64 name \<and> length (li_trigger l) < 64"

lemma fits_lengths:
  "zone_fits name z \<Longrightarrow> length (th_name z) < 64 \<and> length (th_type z) < 64"
  "policy_fits name p \<Longrightarrow> length (cp_name p) < 32 \<and> length (cp_affected_cpus p) < 64 \<and>
     length (cp_driver p) < 64 \<and> length (cp_governor p) < 64"
  "interface_fits name n \<Longrightarrow> length (ni_name n) < 64 \<and> length (ni_state n) < 32 \<and> length (ni_address n) < 64"
  "led_fits name l \<Longrightarrow> length (li_name l) < 64 \<and> length (li_trigger l) < 64"
  by (simp_all add: zone_fits_def policy_fits_def interface_fits_def led_fits_def copy_text_length)

lemmas attr_eff = attr_text_eff [THEN ensures_mono2]

context collector begin

lemma table_eff:
  "ensures (collect_directory base keep limit probe w \<bind> (\<lambda>(found, w). Some (table found, w)))
     (\<lambda>(xs, w'). calm w w' \<and> length xs \<le> limit \<and> (\<forall>x\<in>set xs. \<exists>name. good name x))"
  by (intro paths ensures_mono2 [OF directory_eff]) (auto simp: table_def split: option.splits)

end

interpretation hw_thermal: collector "\<lambda>name. starts_with name ''thermal_zone''" HARDWARE_MAX_THERMAL_ZONES
    "hw_thermal_probe base" zone_fits for base
  by unfold_locales
    (unfold hw_thermal_probe_def, intro paths ensures_option ensures_mono3 [OF sysfs_read_text_eff]
       ensures_mono2 [OF attr_calm(2)], auto simp: zone_fits_def intro: calm_trans)

interpretation hw_policy: collector "\<lambda>name. starts_with name ''policy''" HARDWARE_MAX_CPU_POLICIES
    "cpu_policy_probe base" policy_fits for base
  by unfold_locales
    (unfold cpu_policy_probe_def, intro paths attr_eff ensures_mono2 [OF attr_calm(3)],
      auto simp: policy_fits_def move_simps)

interpretation hw_network: collector visible HARDWARE_MAX_NETWORK_INTERFACES "hw_network_probe base" interface_fits
    for base
  by unfold_locales
    (unfold hw_network_probe_def, intro paths attr_eff ensures_mono2 [OF attr_calm(3)],
      auto simp: interface_fits_def move_simps)

interpretation hw_led: collector visible HARDWARE_MAX_LEDS "led_probe base" led_fits for base
  by unfold_locales
    (unfold led_probe_def, intro paths ensures_option ensures_mono2 [OF attr_calm(2)]
       ensures_mono2 [OF read_led_trigger_eff], auto simp: led_fits_def move_simps split: option.splits)

definition hardware_ok :: "HardwareInfo \<Rightarrow> bool" where
  "hardware_ok info \<longleftrightarrow>
     length (hw_thermal_zones info) \<le> HARDWARE_MAX_THERMAL_ZONES \<and>
     length (hw_cpu_policies info) \<le> HARDWARE_MAX_CPU_POLICIES \<and>
     length (hw_network_interfaces info) \<le> HARDWARE_MAX_NETWORK_INTERFACES \<and>
     length (hw_leds info) \<le> HARDWARE_MAX_LEDS \<and>
     (\<forall>z\<in>set (hw_thermal_zones info). \<exists>name. zone_fits name z) \<and>
     (\<forall>p\<in>set (hw_cpu_policies info). \<exists>name. policy_fits name p) \<and>
     (\<forall>n\<in>set (hw_network_interfaces info). \<exists>name. interface_fits name n) \<and>
     (\<forall>l\<in>set (hw_leds info). \<exists>name. led_fits name l)"

lemma hardware_info_collect_eff:
  "ensures (hardware_info_collect w) (\<lambda>(r, info, w'). calm w w' \<and> r = OK \<and> hardware_ok info)"
  unfolding hardware_info_collect_def collect_thermal_def collect_cpu_frequency_def collect_network_def
    collect_leds_def Let_def
  by (intro ensures_bind ensures_prod ensures_Some ensures_mono2 [OF hw_thermal.table_eff]
      ensures_mono2 [OF hw_policy.table_eff] ensures_mono2 [OF hw_network.table_eff]
      ensures_mono2 [OF hw_led.table_eff])
    (auto simp: hardware_ok_def move_simps)

text \<open>Collecting the board's tables always succeeds, whatever sysfs answers; no table
  has more entries than its array, every entry is named after a directory entry with the prefix its
  table asks for, every text fits its field with its NUL, and no descriptor, block or static is
  left behind.
\<close>
theorem hardware_tables:
  assumes "hardware_info_collect w = Some (r, info, w')"
  shows "r = OK \<and> calm w w' \<and>
     length (hw_thermal_zones info) \<le> 16 \<and> length (hw_cpu_policies info) \<le> 16 \<and>
     length (hw_network_interfaces info) \<le> 16 \<and> length (hw_leds info) \<le> 16 \<and>
     (\<forall>z\<in>set (hw_thermal_zones info). length (th_name z) < 64 \<and> length (th_type z) < 64) \<and>
     (\<forall>p\<in>set (hw_cpu_policies info). length (cp_name p) < 32 \<and> length (cp_affected_cpus p) < 64 \<and>
        length (cp_driver p) < 64 \<and> length (cp_governor p) < 64) \<and>
     (\<forall>n\<in>set (hw_network_interfaces info). length (ni_name n) < 64 \<and> length (ni_state n) < 32 \<and>
        length (ni_address n) < 64) \<and>
     (\<forall>l\<in>set (hw_leds info). length (li_name l) < 64 \<and> length (li_trigger l) < 64)"
  using ensures_D3 [OF assms hardware_info_collect_eff]
  unfolding hardware_ok_def by (simp, blast dest: fits_lengths)

definition demo_text :: "string \<Rightarrow> answer list" where
  "demo_text s = [ok 5, (ok (int (length s)))\<lparr>a_bytes := s\<rparr>, ok 0, ok 0]"

definition demo_board :: "answer list" where
  "demo_board =
     [(ok 0)\<lparr>a_names := [''cooling_device0'', ''thermal_zone0'']\<rparr>] @ demo_text ''soc-thermal'' @
     demo_text ''2000'' @ [ok 0, fail ENOENT, fail ENOENT, (ok 0)\<lparr>a_names := [''.'', ''work'']\<rparr>] @
     demo_text ''1'' @ demo_text ''255'' @ demo_text ''none [timer] heartbeat'' @ [ok 0]"

theorem hardware_tables_witness:
  "\<exists>z l info w'. hardware_info_collect (init_world demo_board) = Some (OK, info, w') \<and>
     hw_thermal_zones info = [z] \<and> hw_leds info = [l] \<and> th_temperature z = Some 2 \<and>
     li_trigger l = ''timer'' \<and> length (th_type z) < 64 \<and> calm (init_world demo_board) w'"
proof -
  have "map_option (\<lambda>(r, info, w'). (map th_temperature (hw_thermal_zones info), map li_trigger (hw_leds info)))
      (hardware_info_collect (init_world demo_board)) = Some ([Some 2], [''timer''])"
    by code_simp
  then obtain r z l info w' where run: "hardware_info_collect (init_world demo_board) = Some (r, info, w')"
    and found: "hw_thermal_zones info = [z]" "hw_leds info = [l]" "th_temperature z = Some 2" "li_trigger l = ''timer''"
    by auto
  from hardware_tables [OF run] found(1) have "r = OK" "calm (init_world demo_board) w'" "length (th_type z) < 64"
    by simp_all
  with run found show ?thesis by blast
qed

end
