(* ===== verification/Device_Tree.thy ===== *)
theory Device_Tree
  imports Output
begin

text \<open>
  \<^verbatim>\<open>src/device_tree.c\<close>: the model, the compatible strings and the boot arguments that the kernel
  publishes of the board. A property is read whole, up to the size of a buffer; its bytes are those of
  the file that \<^verbatim>\<open>fopen\<close> opened.
\<close>

abbreviation (input) DEVICE_TREE_MAX_COMPATIBLE :: nat where "DEVICE_TREE_MAX_COMPATIBLE \<equiv> 8"

record DeviceTreeInfo =
  dt_available :: bool
  dt_model :: string
  dt_compatible :: "string list"
  dt_bootargs :: string

definition read_property :: "string \<Rightarrow> nat \<Rightarrow> world \<Rightarrow> (string \<times> world) option" where
  "read_property path room w =
     (if room = 0 then Some ([], w)
      else do {
        (fp, w) \<leftarrow> sys (Sys_fopen path) w;
        if a_ret fp < 0 then Some ([], w)
        else do {
          w \<leftarrow> sysv (Sys_fclose (a_ret fp)) w;
          Some (take room (a_bytes fp), w) } })"

definition copy_property_text :: "nat \<Rightarrow> string \<Rightarrow> string" where
  "copy_property_text dst_size src =
     (let n = length (takeWhile (\<lambda>c. c \<noteq> NUL \<and> c \<noteq> CR \<and> c \<noteq> LF) src);
          n = (if dst_size \<le> n then dst_size - 1 else n)
      in take n src)"

definition collect_model :: "DeviceTreeInfo \<Rightarrow> world \<Rightarrow> (DeviceTreeInfo \<times> world) option" where
  "collect_model info w = do {
     (buffer, w) \<leftarrow> read_property ''/proc/device-tree/model'' 256 w;
     if buffer = [] then Some (info, w)
     else Some (info\<lparr>dt_model := copy_property_text 128 buffer\<rparr>, w) }"

lemma dropWhile_behind_less: "xs \<noteq> [] \<Longrightarrow> length (dropWhile P xs) - Suc 0 < length xs"
  using length_dropWhile_le [of P xs] by (cases xs) (simp_all add: less_Suc_eq_le del: dropWhile.simps)

text \<open>The scan over the strings of a property, each of which ends with NUL; empty ones are skipped.\<close>

function compatible_items :: "string \<Rightarrow> string list \<Rightarrow> string list" where
  "compatible_items buffer found =
     (if buffer = [] \<or> DEVICE_TREE_MAX_COMPATIBLE \<le> length found then found
      else
        let item = takeWhile (\<lambda>c. c \<noteq> NUL) buffer;
            rest = dropWhile (\<lambda>c. c \<noteq> NUL) buffer;
            item_length = (if 128 \<le> length item then 127 else length item)
        in compatible_items (drop 1 rest) (if item = [] then found else found @ [take item_length item]))"
  by pat_completeness auto
termination
  by (relation "measure (\<lambda>(buffer, found). length buffer)") (auto simp: dropWhile_behind_less)

declare compatible_items.simps [simp del]

definition collect_compatible :: "DeviceTreeInfo \<Rightarrow> world \<Rightarrow> (DeviceTreeInfo \<times> world) option" where
  "collect_compatible info w = do {
     (buffer, w) \<leftarrow> read_property ''/proc/device-tree/compatible'' 1024 w;
     if buffer = [] then Some (info, w)
     else Some (info\<lparr>dt_compatible := compatible_items buffer (dt_compatible info)\<rparr>, w) }"

definition collect_bootargs :: "DeviceTreeInfo \<Rightarrow> world \<Rightarrow> (DeviceTreeInfo \<times> world) option" where
  "collect_bootargs info w = do {
     (buffer, w) \<leftarrow> read_property ''/proc/device-tree/chosen/bootargs'' 1024 w;
     if buffer = [] then Some (info, w)
     else Some (info\<lparr>dt_bootargs := copy_property_text 1024 buffer\<rparr>, w) }"

definition device_tree_collect :: "world \<Rightarrow> (int \<times> DeviceTreeInfo \<times> world) option" where
  "device_tree_collect w = do {
     let info = \<lparr>dt_available = False, dt_model = [], dt_compatible = [], dt_bootargs = []\<rparr>;
     (a, w) \<leftarrow> sys (Sys_access ''/proc/device-tree'') w;
     if a_ret a < 0 then Some (OK, info, w)
     else do {
       let info = info\<lparr>dt_available := True\<rparr>;
       (info, w) \<leftarrow> collect_model info w;
       (info, w) \<leftarrow> collect_compatible info w;
       (info, w) \<leftarrow> collect_bootargs info w;
       Some (OK, info, w) } }"

definition device_tree_print :: "DeviceTreeInfo \<Rightarrow> world \<Rightarrow> world" where
  "device_tree_print info =
     printf_all
       ([[LF], ''======= Device Tree ======='' @ [LF]] @
        (if \<not> dt_available info then [''Status           : unavailable'' @ [LF], [LF]]
         else
           [''Model            : '' @ or_na (dt_model info) @ [LF], ''Compatible       :''] @
           (if dt_compatible info = [] then ['' N/A'' @ [LF]]
            else [LF] # map (\<lambda>c. ''  '' @ c @ [LF]) (dt_compatible info)) @
           [''Boot Args        : '' @ or_na (dt_bootargs info) @ [LF], [LF]]))"

section \<open>The compatible strings\<close>

text \<open>The reference: the strings of the property, as the pieces between its NUL bytes.\<close>

fun nul_strings :: "string \<Rightarrow> string list" where
  "nul_strings [] = [[]]"
| "nul_strings (c # s) =
     (if c = NUL then [] # nul_strings s
      else case nul_strings s of [] \<Rightarrow> [[c]] | x # xs \<Rightarrow> (c # x) # xs)"

lemma nul_strings_nonempty [simp]: "nul_strings s \<noteq> []"
  by (induction s) (auto split: list.splits)

lemma nul_strings_split:
  "nul_strings s =
     takeWhile (\<lambda>c. c \<noteq> NUL) s #
       (case dropWhile (\<lambda>c. c \<noteq> NUL) s of [] \<Rightarrow> [] | _ # rest \<Rightarrow> nul_strings rest)"
  by (induction s) (auto split: list.splits)

lemma compatible_items_reference:
  "compatible_items buffer found =
     take (max DEVICE_TREE_MAX_COMPATIBLE (length found))
       (found @ map (take 127) (filter (\<lambda>s. s \<noteq> []) (nul_strings buffer)))"
proof (induction buffer found rule: compatible_items.induct)
  case (1 buffer found)
  let ?item = "takeWhile (\<lambda>c. c \<noteq> NUL) buffer" and ?rest = "dropWhile (\<lambda>c. c \<noteq> NUL) buffer"
  let ?found = "if ?item = [] then found else found @ [take 127 ?item]"
  show ?case
  proof (cases "buffer = [] \<or> 8 \<le> length found")
    case True
    then show ?thesis by (auto simp: compatible_items.simps [of buffer found] max_def)
  next
    case False
    have n: "take (if 128 \<le> length ?item then 127 else length ?item) ?item = take 127 ?item" by auto
    have "compatible_items buffer found = compatible_items (drop 1 ?rest) ?found"
      using False by (simp add: compatible_items.simps [of buffer found] n)
    also have "\<dots> = take (max 8 (length ?found))
        (?found @ map (take 127) (filter (\<lambda>s. s \<noteq> []) (nul_strings (drop 1 ?rest))))"
      using "1.IH" [OF False refl refl refl] unfolding n .
    also have "max 8 (length ?found) = max 8 (length found)" using False by auto
    also have "?found @ map (take 127) (filter (\<lambda>s. s \<noteq> []) (nul_strings (drop 1 ?rest))) =
        found @ map (take 127) (filter (\<lambda>s. s \<noteq> []) (nul_strings buffer))"
      using nul_strings_split [of buffer]
      by (cases ?rest; cases "?item = []") (simp_all del: dropWhile_eq_Nil_conv takeWhile_eq_Nil_iff)
    finally show ?thesis .
  qed
qed

section \<open>Effects\<close>

lemma copy_property_text_length: "0 < n \<Longrightarrow> length (copy_property_text n s) < n"
  by (auto simp: copy_property_text_def Let_def)

lemma read_property_calm: "ensures (read_property path room w) (\<lambda>(b, w'). calm w w' \<and> length b \<le> room)"
  unfolding read_property_def by (intro vcg) (auto simp: effects)

lemmas property_vcg = ensures_mono2 [OF read_property_calm]

definition tree_ok :: "DeviceTreeInfo \<Rightarrow> bool" where
  "tree_ok info \<longleftrightarrow> length (dt_model info) < 128 \<and> length (dt_bootargs info) < 1024 \<and>
     length (dt_compatible info) \<le> DEVICE_TREE_MAX_COMPATIBLE \<and>
     (\<forall>c\<in>set (dt_compatible info). c \<noteq> [] \<and> length c < 128)"

lemma device_tree_collect_eff:
  "ensures (device_tree_collect w) (\<lambda>(r, info, w'). calm w w' \<and> r = OK \<and> tree_ok info)"
  unfolding device_tree_collect_def collect_model_def collect_compatible_def collect_bootargs_def
  by (intro vcg property_vcg)
    (auto simp: effects tree_ok_def copy_property_text_length compatible_items_reference dest!: in_set_takeD)

text \<open>C40: the loop that takes the compatible strings out of a device-tree property yields
  the first eight strings of the property that are not empty, each cut to what its field can hold.
\<close>
theorem compatible_strings:
  "compatible_items buffer [] =
     take DEVICE_TREE_MAX_COMPATIBLE (map (take 127) (filter (\<lambda>s. s \<noteq> []) (nul_strings buffer)))"
  by (simp add: compatible_items_reference)

end
