(* ===== verification/System_Info.thy ===== *)
theory System_Info
  imports Text_Files Output
begin

text \<open>
  \<^verbatim>\<open>src/system_info.c\<close>: the static description of the machine. Each part is read by a function of
  its own; where one fails its error is \<open>Inl\<close>, and the caller gives up the whole report.
\<close>

record SystemInfo =
  si_board :: string
  si_kernel :: string
  si_hostname :: string
  si_architecture :: string
  si_cpu_model :: string
  si_cpu_cores :: int
  si_mem_total :: "64 word"
  si_mem_available :: "64 word"
  si_uptime :: double
  si_soc_temperature :: "double option"

definition no_eol :: "string \<Rightarrow> string" where
  "no_eol s = takeWhile (\<lambda>c. c \<noteq> CR \<and> c \<noteq> LF) s"

text \<open>The \<^verbatim>\<open>copy_text\<close> of this file stops at the end of the line.\<close>

definition copy_line_text :: "nat \<Rightarrow> string \<Rightarrow> string" where
  "copy_line_text dst_size src =
     (let n = length (no_eol (cstr src));
          n = (if dst_size \<le> n then dst_size - 1 else n)
      in take n (cstr src))"

definition blank :: "char \<Rightarrow> bool" where
  "blank c \<longleftrightarrow> c = SPACE \<or> c = TAB"

text \<open>The value of a line \<^verbatim>\<open>key : value\<close>; \<open>None\<close> for another key, or no value.\<close>

definition cpuinfo_value :: "string \<Rightarrow> string \<Rightarrow> nat \<Rightarrow> string option" where
  "cpuinfo_value line key value_size =
     (case dropWhile (\<lambda>c. c \<noteq> CHR '':'') line of
        [] \<Rightarrow> None
      | colon # behind \<Rightarrow>
          let front = rev (dropWhile blank (rev (takeWhile (\<lambda>c. c \<noteq> CHR '':'') line)));
              value = copy_line_text value_size (dropWhile blank behind)
          in if front \<noteq> key then None else if value = [] then None else Some value)"

definition read_device_tree_model :: "nat \<Rightarrow> world \<Rightarrow> (string option \<times> world) option" where
  "read_device_tree_model room w =
     (if room = 0 then Some (None, w)
      else do {
        (fp, w) \<leftarrow> sys (Sys_fopen ''/proc/device-tree/model'') w;
        if a_ret fp < 0 then Some (None, w)
        else do {
          let buffer = take (room - 1) (a_bytes fp);
          w \<leftarrow> sysv (Sys_fclose (a_ret fp)) w;
          if buffer = [] then Some (None, w)
          else
            let buffer = no_eol (cstr buffer)
            in Some (if buffer = [] then None else Some buffer, w) } })"

text \<open>The keys of \<^verbatim>\<open>/proc/cpuinfo\<close> that name the processor, the best one first.\<close>

definition cpu_keys :: "(string \<times> nat) list" where
  "cpu_keys = [(''model name'', 0), (''Model'', 1), (''Hardware'', 2), (''Processor'', 3)]"

definition cpu_key :: "string \<Rightarrow> string \<times> nat \<Rightarrow> string \<times> nat \<Rightarrow> string \<times> nat" where
  "cpu_key line best kr =
     (if snd best \<le> snd kr then best
      else case cpuinfo_value line (fst kr) 128 of
        None \<Rightarrow> best
      | Some candidate \<Rightarrow> (copy_line_text 128 candidate, snd kr))"

definition cpu_line :: "string \<times> nat \<Rightarrow> string \<Rightarrow> string \<times> nat" where
  "cpu_line best line = foldl (cpu_key line) best cpu_keys"

definition get_cpu_info :: "world \<Rightarrow> ((int + string \<times> int) \<times> world) option" where
  "get_cpu_info w = do {
     (fp, w) \<leftarrow> sys (Sys_fopen ''/proc/cpuinfo'') w;
     if a_ret fp < 0 then Some (Inl ERR_OPEN, log_error ''open /proc/cpuinfo failed'' w)
     else do {
       let (model, best_rank) = foldl cpu_line ([], 100) (fgets_lines 256 (a_bytes fp));
       w \<leftarrow> sysv (Sys_fclose (a_ret fp)) w;
       (cores, w) \<leftarrow> sys Sys_sysconf w;
       Some (Inr (model, max 0 (a_ret cores)), w) } }"

definition meminfo_line :: "64 word option \<times> 64 word option \<Rightarrow> string \<Rightarrow> 64 word option \<times> 64 word option" where
  "meminfo_line m line =
     (if starts_with line ''MemTotal:'' then
        (case scan_field ''MemTotal:'' line of
           Some v \<Rightarrow> (Some (word_of_int v), snd m)
         | None \<Rightarrow> m)
      else if starts_with line ''MemAvailable:'' then
        (case scan_field ''MemAvailable:'' line of
           Some v \<Rightarrow> (fst m, Some (word_of_int v))
         | None \<Rightarrow> m)
      else m)"

definition get_mem_info :: "world \<Rightarrow> ((int + 64 word \<times> 64 word) \<times> world) option" where
  "get_mem_info w = do {
     (fp, w) \<leftarrow> sys (Sys_fopen ''/proc/meminfo'') w;
     if a_ret fp < 0 then Some (Inl ERR_OPEN, log_error ''open /proc/meminfo failed'' w)
     else do {
       let m = foldl meminfo_line (None, None) (fgets_lines 256 (a_bytes fp));
       w \<leftarrow> sysv (Sys_fclose (a_ret fp)) w;
       case m of
         (Some all, Some available) \<Rightarrow> Some (Inr (all div 1024, available div 1024), w)
       | _ \<Rightarrow> Some (Inl ERR_UNKNOWN, log_error ''failed read memory information'' w) } }"

definition get_uptime_info :: "world \<Rightarrow> ((int + double) \<times> world) option" where
  "get_uptime_info w = do {
     (fp, w) \<leftarrow> sys (Sys_fopen ''/proc/uptime'') w;
     if a_ret fp < 0 then Some (Inl ERR_OPEN, log_error ''open /proc/uptime failed'' w)
     else do {
       (a, w) \<leftarrow> sys (Sys_fscanf 1) w;
       w \<leftarrow> sysv (Sys_fclose (a_ret fp)) w;
       if a_ret a \<noteq> 1 then Some (Inl ERR_UNKNOWN, log_error ''failed read uptime'' w)
       else Some (Inr (case a_doubles a of [] \<Rightarrow> 0 | d # _ \<Rightarrow> d), w) } }"

text \<open>\<^verbatim>\<open>fscanf(fp, "%ld", ...)\<close>\<close>

definition scan_long :: "string \<Rightarrow> int option" where
  "scan_long s = (let r = strtol s in if st_conv r then Some (st_value r) else None)"

text \<open>One thermal zone: its temperature, if it is the one of the SoC and can be read.\<close>

definition soc_probe :: "string \<Rightarrow> world \<Rightarrow> (double option \<times> world) option" where
  "soc_probe name w =
     (let type_path = ''/sys/class/thermal/'' @ name @ ''/type'';
          temp_path = ''/sys/class/thermal/'' @ name @ ''/temp'' in
      if \<not> starts_with name ''thermal_zone'' then Some (None, w)
      else if \<not> snprintf_fits 256 type_path then Some (None, w)
      else do {
        (type_fp, w) \<leftarrow> sys (Sys_fopen type_path) w;
        if a_ret type_fp < 0 then Some (None, w)
        else do {
          w \<leftarrow> sysv (Sys_fclose (a_ret type_fp)) w;
          case fgets 64 (a_bytes type_fp) of
            None \<Rightarrow> Some (None, w)
          | Some (type1, rest, eof) \<Rightarrow>
              if no_eol (cstr type1) \<noteq> ''soc-thermal'' then Some (None, w)
              else if \<not> snprintf_fits 256 temp_path then Some (None, w)
              else do {
                (temp_fp, w) \<leftarrow> sys (Sys_fopen temp_path) w;
                if a_ret temp_fp < 0 then Some (None, w)
                else do {
                  w \<leftarrow> sysv (Sys_fclose (a_ret temp_fp)) w;
                  Some (map_option (\<lambda>t. of_int t / 1000) (scan_long (a_bytes temp_fp)), w) } } } })"

fun soc_search :: "string list \<Rightarrow> world \<Rightarrow> (double option \<times> world) option" where
  "soc_search [] w = Some (None, w)"
| "soc_search (name # names) w = do {
     (t, w) \<leftarrow> soc_probe name w;
     case t of
       None \<Rightarrow> soc_search names w
     | Some t \<Rightarrow> Some (Some t, w) }"

definition get_thermal_info :: "world \<Rightarrow> (double option \<times> world) option" where
  "get_thermal_info w = do {
     (dir, w) \<leftarrow> sys (Sys_opendir ''/sys/class/thermal'') w;
     if a_ret dir < 0 then Some (None, w)
     else do {
       (t, w) \<leftarrow> soc_search (map cstr (a_names dir)) w;
       w \<leftarrow> sysv (Sys_closedir (a_ret dir)) w;
       Some (t, w) } }"

definition uts_field :: "answer \<Rightarrow> nat \<Rightarrow> string" where
  "uts_field a i = (if i < length (a_names a) then a_names a ! i else [])"

definition system_info_collect :: "world \<Rightarrow> ((int + SystemInfo) \<times> world) option" where
  "system_info_collect w = do {
     (uts, w) \<leftarrow> sys Sys_uname w;
     if a_ret uts < 0 then Some (Inl ERR_UNKNOWN, log_error ''failed uname'' w)
     else do {
     (host, w) \<leftarrow> sys (Sys_gethostname 63) w;
     if a_ret host < 0 then Some (Inl ERR_UNKNOWN, log_error ''gethostname failed'' w)
     else do {
     (board, w) \<leftarrow> read_device_tree_model 128 w;
     (cpu, w) \<leftarrow> get_cpu_info w;
     case cpu of Inl ret \<Rightarrow> Some (Inl ret, w) | Inr cpu \<Rightarrow> do {
     (mem, w) \<leftarrow> get_mem_info w;
     case mem of Inl ret \<Rightarrow> Some (Inl ret, w) | Inr mem \<Rightarrow> do {
     (uptime, w) \<leftarrow> get_uptime_info w;
     case uptime of Inl ret \<Rightarrow> Some (Inl ret, w) | Inr uptime \<Rightarrow> do {
     (soc, w) \<leftarrow> get_thermal_info w;
     Some (Inr \<lparr>si_board = (case board of None \<Rightarrow> [] | Some b \<Rightarrow> b),
       si_kernel = copy_line_text 64 (uts_field uts 0), si_hostname = take 63 (cstr (a_bytes host)),
       si_architecture = copy_line_text 32 (uts_field uts 1), si_cpu_model = fst cpu,
       si_cpu_cores = snd cpu, si_mem_total = fst mem, si_mem_available = snd mem,
       si_uptime = uptime, si_soc_temperature = soc\<rparr>, w) } } } } } }"

definition system_info_print :: "SystemInfo \<Rightarrow> world \<Rightarrow> world" where
  "system_info_print info =
     printf_all
       [[LF], ''========== System =========='' @ [LF],
        ''Board            : '' @ or_na (si_board info) @ [LF],
        ''Kernel           : '' @ si_kernel info @ [LF],
        ''Hostname         : '' @ si_hostname info @ [LF],
        ''Architecture     : '' @ si_architecture info @ [LF],
        ''CPU Model        : '' @ or_na (si_cpu_model info) @ [LF],
        ''CPU Cores        : '' @ (if 0 < si_cpu_cores info then show_int (si_cpu_cores info) else ''N/A'') @ [LF],
        ''SoC Temperature  : '' @
          (case si_soc_temperature info of Some t \<Rightarrow> show_fixed 1 t @ '' C'' | None \<Rightarrow> ''N/A'') @ [LF],
        ''Memory Total     : '' @ show_word (si_mem_total info) @ '' MB'' @ [LF],
        ''Memory Available : '' @ show_word (si_mem_available info) @ '' MB'' @ [LF],
        ''Uptime           : '' @ show_fixed 2 (si_uptime info) @ '' seconds'' @ [LF],
        [LF]]"

section \<open>Effects\<close>

lemma soc_probe_calm: "ensures (soc_probe name w) (\<lambda>(t, w'). calm w w')"
  unfolding soc_probe_def
  by (intro vcg ensures_option ensures_split) (auto simp: effects)

lemma soc_search_calm: "ensures (soc_search names w) (\<lambda>(t, w'). calm w w')"
proof (induction names arbitrary: w)
  case (Cons name names)
  show ?case
    unfolding soc_search.simps
    by (intro vcg ensures_mono2 [OF soc_probe_calm] ensures_option ensures_mono2 [OF Cons]) (auto intro: calm_trans)
qed (simp add: ensures_def)

lemma system_parts_calm:
  "ensures (read_device_tree_model room w) (\<lambda>(b, w'). calm w w')"
  "ensures (get_cpu_info w) (\<lambda>(c, w'). calm w w')"
  "ensures (get_mem_info w) (\<lambda>(m, w'). calm w w')"
  "ensures (get_uptime_info w) (\<lambda>(u, w'). calm w w')"
  "ensures (get_thermal_info w) (\<lambda>(t, w'). calm w w')"
  unfolding read_device_tree_model_def get_cpu_info_def get_mem_info_def get_uptime_info_def get_thermal_info_def
  by (intro vcg ensures_split ensures_option ensures_mono2 [OF soc_search_calm]; auto simp: move_simps dest!: called_moves)+

lemma system_info_collect_calm: "ensures (system_info_collect w) (\<lambda>(r, w'). calm w w')"
  unfolding system_info_collect_def
  by (intro vcg ensures_sum system_parts_calm [THEN ensures_mono2]) (auto simp: move_simps dest!: called_moves)

lemma system_info_print_calm [simp]: "calm u (system_info_print info w) = calm u w"
  by (simp add: system_info_print_def)

section \<open>The name of the processor\<close>

lemma no_eol_idem: "no_eol s = s \<longleftrightarrow> CR \<notin> set s \<and> LF \<notin> set s"
  by (auto simp: no_eol_def takeWhile_eq_all_conv)

lemma take_of_takeWhile: "k \<le> length (takeWhile P xs) \<Longrightarrow> take k xs = take k (takeWhile P xs)"
  by (metis take_takeWhile take_take min.absorb1)

lemma copy_line_text_take: "copy_line_text n s = take (min (n - 1) (length (no_eol (cstr s)))) (no_eol (cstr s))"
  by (auto simp: copy_line_text_def Let_def no_eol_def min_def intro: take_of_takeWhile take_takeWhile)

lemma copy_line_text_idem: "copy_line_text n (copy_line_text n s) = copy_line_text n s"
proof -
  let ?t = "copy_line_text n s"
  have "CR \<notin> set (no_eol (cstr s))" "LF \<notin> set (no_eol (cstr s))" "NUL \<notin> set (no_eol (cstr s))"
    using cstr_no_NUL [of s] by (auto simp: no_eol_def dest: set_takeWhileD)
  then have "no_eol (cstr ?t) = ?t"
    unfolding copy_line_text_take by (subst cstr_id) (auto simp: no_eol_idem dest: in_set_takeD)
  moreover have "length ?t \<le> n - 1" by (simp add: copy_line_text_take)
  ultimately show ?thesis by (simp add: copy_line_text_take [of n ?t])
qed

lemma copy_cpuinfo_value: "cpuinfo_value line key n = Some v \<Longrightarrow> copy_line_text n v = v"
  by (auto simp: cpuinfo_value_def Let_def copy_line_text_idem split: list.splits if_splits)

text \<open>
  \<open>named lines best\<close>: \<open>best\<close> is what the lines say of the processor: a name found under a key of
  its rank, with nothing under a better key, or nothing at all.
\<close>

definition named :: "(string \<times> string \<times> nat) list \<Rightarrow> string \<times> nat \<Rightarrow> bool" where
  "named tries best \<longleftrightarrow>
     (\<forall>(line, key, rank)\<in>set tries. rank < snd best \<longrightarrow> cpuinfo_value line key 128 = None) \<and>
     (best = ([], 100) \<or>
      (\<exists>(line, key, rank)\<in>set tries. rank = snd best \<and> cpuinfo_value line key 128 = Some (fst best)))"

lemma named_step: "named tries best \<Longrightarrow> named (tries @ [(line, kr)]) (cpu_key line best kr)"
  by (cases kr) (fastforce simp: named_def cpu_key_def copy_cpuinfo_value split: option.splits)

lemma named_keys: "named tries best \<Longrightarrow> named (tries @ map (Pair line) keys) (foldl (cpu_key line) best keys)"
proof (induction keys arbitrary: tries best)
  case (Cons kr keys)
  from Cons.IH [OF named_step [OF Cons.prems, of line kr]] show ?case by simp
qed simp

definition tries_of :: "string list \<Rightarrow> (string \<times> string \<times> nat) list" where
  "tries_of lines = concat (map (\<lambda>line. map (Pair line) cpu_keys) lines)"

lemma named_lines: "named tries best \<Longrightarrow> named (tries @ tries_of lines) (foldl cpu_line best lines)"
proof (induction lines arbitrary: tries best)
  case (Cons line lines)
  from Cons.IH [OF named_keys [OF Cons.prems, of line cpu_keys]] show ?case
    by (simp add: tries_of_def cpu_line_def)
qed (simp add: tries_of_def)

lemma set_tries_of: "(line, key, rank) \<in> set (tries_of lines) \<longleftrightarrow> line \<in> set lines \<and> (key, rank) \<in> set cpu_keys"
  by (auto simp: tries_of_def)

text \<open>The processor name of the report is the value of the best-ranked key that
  has one anywhere in \<^verbatim>\<open>/proc/cpuinfo\<close> (model name, Model, Hardware, Processor, in this order): no
  line has a value under a better key, and without any such line the name stays empty.
\<close>
theorem cpu_model_best:
  assumes "foldl cpu_line ([], 100) lines = (model, rank)"
  shows "(\<forall>line\<in>set lines. \<forall>(key, r)\<in>set cpu_keys. r < rank \<longrightarrow> cpuinfo_value line key 128 = None) \<and>
    ((model, rank) = ([], 100) \<or>
     (\<exists>line\<in>set lines. \<exists>key. (key, rank) \<in> set cpu_keys \<and> cpuinfo_value line key 128 = Some model))"
proof -
  have "named (tries_of lines) (model, rank)"
    using named_lines [of "[]" "([], 100)" lines] assms by (simp add: named_def)
  then show ?thesis by (fastforce simp: named_def set_tries_of)
qed

theorem cpu_model_best_witness:
  "foldl cpu_line ([], 100) [''Hardware : Board'', ''model name : Cortex-A55'', ''model name : other''] =
     (''Cortex-A55'', 0) \<and>
   (\<exists>key. (key, 0) \<in> set cpu_keys \<and>
      (\<exists>line\<in>{''Hardware : Board'', ''model name : Cortex-A55'', ''model name : other''}.
         cpuinfo_value line key 128 = Some ''Cortex-A55''))"
proof -
  have run: "foldl cpu_line ([], 100) [''Hardware : Board'', ''model name : Cortex-A55'', ''model name : other''] =
      (''Cortex-A55'', 0)"
    by code_simp
  from cpu_model_best [OF run] run show ?thesis by auto
qed

end
