(* ===== verification/Builtin.thy ===== *)
theory Builtin
  imports Cmd_Runtime Hardware_Info Device_Tree System_Info Led_Control Executor_Properties
begin

text \<open>
  \<^verbatim>\<open>src/builtin.c\<close> and \<^verbatim>\<open>src/builtin_table.c\<close>: the commands the shell runs itself, and the table
  that finds them. A builtin takes the command, the context and the world, and returns its result,
  the context and the world after it. The names of the table come first, since \<^verbatim>\<open>help\<close> lists them.
\<close>

type_synonym handler = "Command \<Rightarrow> ShellContext \<Rightarrow> world \<Rightarrow> (int \<times> ShellContext \<times> world) option"

definition builtin_names :: "string list" where
  "builtin_names =
     [''cd'', ''pwd'', ''exit'', ''jobs'', ''help'', ''status'', ''sysinfo'', ''monitor'', ''psinfo'',
      ''dtinfo'', ''hwinfo'', ''led'', ''fg'', ''bg'', ''reload'']"

definition builtin_count :: nat where
  "builtin_count = length builtin_names"

section \<open>Directories\<close>

definition change_directory :: "string \<Rightarrow> ShellContext \<Rightarrow> world \<Rightarrow> (int \<times> ShellContext \<times> world) option" where
  "change_directory directory ctx w = do {
     (a, w) \<leftarrow> sys (Sys_chdir directory) w;
     if a_ret a < 0 then Some (ERR_UNKNOWN, ctx, eprintf (''cd: %s'' @ [LF]) w) else Some (OK, ctx, w) }"

definition builtin_cd :: handler where
  "builtin_cd cmd ctx w =
     (if argc cmd < 2
      then do {
        (home, w) \<leftarrow> sys (Sys_getenv ''HOME'') w;
        if a_ret home < 0 then Some (ERR_UNKNOWN, ctx, eprintf (''cd: HOME not set'' @ [LF]) w)
        else change_directory (cstr (a_bytes home)) ctx w }
      else change_directory (argv cmd ! 1) ctx w)"

text \<open>\<^verbatim>\<open>getcwd(NULL, 0)\<close> allocates the block that is freed behind the \<^verbatim>\<open>printf\<close>.\<close>

definition builtin_pwd :: handler where
  "builtin_pwd cmd ctx w = do {
     (cwd, w) \<leftarrow> sys Sys_getcwd w;
     if a_ret cwd < 0 then Some (ERR_UNKNOWN, ctx, eprintf (''getcwd: %s'' @ [LF]) w)
     else do {
       let w = free_blocks (-1) w;
       let w = printf (cstr (a_bytes cwd) @ [LF]) w;
       Some (OK, ctx, free_blocks 1 w) } }"

section \<open>The shell\<close>

definition builtin_exit :: handler where
  "builtin_exit cmd ctx w = Some (last_exit_status ctx, ctx\<lparr>running := False\<rparr>, w)"

definition builtin_help :: handler where
  "builtin_help cmd ctx w =
     Some (OK, ctx,
       printf_all ((''Builtin commands are:'' @ [LF]) #
         map (\<lambda>i. '' '' @ builtin_names ! i @ [LF]) [0..<builtin_count]) w)"

definition builtin_jobs :: handler where
  "builtin_jobs cmd ctx w = Some (OK, ctx, job_list (ctx_jobs ctx) w)"

definition builtin_status :: handler where
  "builtin_status cmd ctx w = Some (OK, ctx, printf (show_int (last_exit_status ctx) @ [LF]) w)"

definition builtin_sysinfo :: handler where
  "builtin_sysinfo cmd ctx w = do {
     (info, w) \<leftarrow> system_info_collect w;
     case info of
       Inl ret \<Rightarrow> Some (ret, ctx, w)
     | Inr info \<Rightarrow> Some (OK, ctx, system_info_print info w) }"

section \<open>Jobs\<close>

text \<open>Storing a job through a pointer into the table of the context.\<close>

definition ctx_put :: "nat \<Rightarrow> Job \<Rightarrow> ShellContext \<Rightarrow> ShellContext" where
  "ctx_put i job ctx = ctx\<lparr>ctx_jobs := put_job i job (ctx_jobs ctx)\<rparr>"

text \<open>The part of \<^verbatim>\<open>fg\<close> behind the wait: save the modes, take the terminal back, report.\<close>

definition fg_finish :: "nat \<Rightarrow> Job \<Rightarrow> ShellContext \<Rightarrow> world \<Rightarrow> (int \<times> ShellContext \<times> world) option" where
  "fg_finish i job ctx w = do {
     (job, w) \<leftarrow>
       (if j_status job = JOB_STOPPED
        then do {
          (r, modes, w) \<leftarrow> terminal_get_modes (j_modes job) w;
          let job = job\<lparr>j_modes := modes\<rparr>;
          Some (if r = 0 then job\<lparr>j_modes_valid := True\<rparr> else job, w) }
        else Some (job, w));
     let ctx = ctx_put i job ctx;
     (r, w) \<leftarrow> terminal_restore w;
     if r < 0
     then Some (ERR_UNKNOWN, ctx\<lparr>running := False\<rparr>, log_error ''failed restore terminal'' w)
     else if j_status job = JOB_STOPPED
     then Some (OK, ctx, printf ([LF] @ ''['' @ show_int (j_id job) @ '']+ Stopped '' @ j_command job @ [LF]) w)
     else if j_status job \<noteq> JOB_DONE then Some (ERR_UNKNOWN, ctx, w)
     else
       let status = job_exit_status job;
           (ctx, w) = ctx_remove (j_pgid job) ctx w
       in Some (if status < 0 then ERR_UNKNOWN else status, ctx, w) }"

text \<open>The part of \<^verbatim>\<open>fg\<close> on the job it found.\<close>

definition fg_job :: "nat \<Rightarrow> ShellContext \<Rightarrow> world \<Rightarrow> (int \<times> ShellContext \<times> world) option" where
  "fg_job i ctx w = do {
     let job = jobs (ctx_jobs ctx) ! i;
     (r, w) \<leftarrow> terminal_set_foreground (j_pgid job) w;
     if r < 0 then Some (ERR_UNKNOWN, ctx, log_error ''failed set foreground'' w)
     else do {
     (r, w) \<leftarrow> (if j_modes_valid job then terminal_set_modes (j_modes job) w else Some (0, w));
     if r < 0
     then do {
       (r, w) \<leftarrow> terminal_restore (log_error ''failed restore job terminal modes'' w);
       Some (ERR_UNKNOWN, ctx, w) }
     else do {
     (r, job, w) \<leftarrow> (if j_status job = JOB_STOPPED then job_continue job w else Some (0, job, w));
     let ctx = ctx_put i job ctx;
     if r < 0
     then do {
       (r, w) \<leftarrow> terminal_restore w;
       Some (ERR_JOB, ctx, w) }
     else do {
     (r, job, w) \<leftarrow> job_wait_foreground job w;
     let ctx = ctx_put i job ctx;
     if r < 0
     then do {
       (r, w) \<leftarrow> terminal_restore w;
       Some (ERR_UNKNOWN, ctx, w) }
     else fg_finish i job ctx w } } } }"

definition builtin_fg :: handler where
  "builtin_fg cmd ctx w =
     (case find_index (\<lambda>job. j_status job = JOB_RUNNING \<or> j_status job = JOB_STOPPED) (jobs (ctx_jobs ctx)) of
        None \<Rightarrow> Some (ERR_JOB, ctx, printf (''fg: no job'' @ [LF]) w)
      | Some i \<Rightarrow> fg_job i ctx w)"

definition builtin_bg :: handler where
  "builtin_bg cmd ctx w =
     (case find_index (\<lambda>job. j_status job = JOB_STOPPED) (jobs (ctx_jobs ctx)) of
        None \<Rightarrow> Some (ERR_JOB, ctx, printf (''bg: no stopped job'' @ [LF]) w)
      | Some i \<Rightarrow> do {
          (r, job, w) \<leftarrow> job_continue (jobs (ctx_jobs ctx) ! i) w;
          let ctx = ctx_put i job ctx;
          if r < 0 then Some (ERR_JOB, ctx, log_error ''failed continue background job'' w)
          else Some (OK, ctx, printf (''['' @ show_int (j_id job) @ ''] '' @ j_command job @ '' &'' @ [LF]) w) })"

section \<open>Configuration and board\<close>

definition builtin_reload :: handler where
  "builtin_reload cmd ctx w = do {
     (ret, configs, w) \<leftarrow> config_load (config ctx) (config_file ctx) w;
     let ctx = ctx\<lparr>config := configs\<rparr>;
     if ret \<noteq> OK then Some (ERR_UNKNOWN, ctx, log_error ''failed reload config: %s'' w)
     else do {
       let w = log_setlevel (if debug (config ctx) then LOG_DEBUG else LOG_INFO) w;
       Some (OK, ctx, printf (''config reloaded'' @ [LF]) w) } }"

definition builtin_dtinfo :: handler where
  "builtin_dtinfo cmd ctx w = do {
     (ret, info, w) \<leftarrow> device_tree_collect w;
     if ret \<noteq> OK then Some (ret, ctx, w) else Some (OK, ctx, device_tree_print info w) }"

definition builtin_hwinfo :: handler where
  "builtin_hwinfo cmd ctx w = do {
     (ret, info, w) \<leftarrow> hardware_info_collect w;
     if ret \<noteq> OK then Some (ret, ctx, w) else Some (OK, ctx, hardware_info_print info w) }"

definition builtin_monitor :: handler where "builtin_monitor = cmd_monitor"
definition builtin_psinfo :: handler where "builtin_psinfo = cmd_psinfo"

section \<open>LEDs\<close>

definition builtin_led_usage :: "string list" where
  "builtin_led_usage =
     [''usage:'' @ [LF], ''  led list'' @ [LF], ''  led info <name>'' @ [LF], ''  led on <name>'' @ [LF],
      ''  led off <name>'' @ [LF], ''  led trigger <name> <trigger>'' @ [LF]]"

definition builtin_led_find :: "HardwareInfo \<Rightarrow> string \<Rightarrow> LedInfo option" where
  "builtin_led_find info name = find (\<lambda>led. li_name led = name) (hw_leds info)"

definition led_list_line :: "LedInfo \<Rightarrow> string list" where
  "led_list_line led =
     [pad_right 16 (li_name led),
      (case (li_brightness led, li_max_brightness led) of
         (Some b, Some m) \<Rightarrow> '' '' @ show_int b @ ''/'' @ show_int m
       | _ \<Rightarrow> '' N/A''),
      '' trigger='' @ or_na (li_trigger led) @ [LF]]"

definition builtin_led_list :: "world \<Rightarrow> (int \<times> world) option" where
  "builtin_led_list w = do {
     (ret, info, w) \<leftarrow> hardware_info_collect w;
     if ret \<noteq> OK then Some (ret, w)
     else if hw_leds info = [] then Some (OK, printf (''no LEDs found'' @ [LF]) w)
     else Some (OK, printf_all (concat (map led_list_line (hw_leds info))) w) }"

definition show_number :: "int option \<Rightarrow> string" where
  "show_number n = (case n of Some i \<Rightarrow> show_int i | None \<Rightarrow> ''N/A'')"

definition builtin_led_info :: "string \<Rightarrow> world \<Rightarrow> (int \<times> world) option" where
  "builtin_led_info name w = do {
     (ret, info, w) \<leftarrow> hardware_info_collect w;
     if ret \<noteq> OK then Some (ret, w)
     else case builtin_led_find info name of
       None \<Rightarrow> Some (ERR_UNKNOWN, eprintf (''led: device not found: '' @ name @ [LF]) w)
     | Some led \<Rightarrow> Some (OK, printf_all
         [''Name           : '' @ li_name led @ [LF],
          ''Brightness     : '' @ show_number (li_brightness led) @ [LF],
          ''Max Brightness : '' @ show_number (li_max_brightness led) @ [LF],
          ''Trigger        : '' @ or_na (li_trigger led) @ [LF]] w) }"

definition builtin_led :: handler where
  "builtin_led cmd ctx w =
     (let arg = (\<lambda>i. argv cmd ! i);
          usage = Some (ERR_PARSE, ctx, printf_all builtin_led_usage w) in
      if argc cmd < 2 then usage
      else if arg 1 = ''list'' then
        (if argc cmd \<noteq> 2 then usage
         else do {
           (ret, w) \<leftarrow> builtin_led_list w;
           Some (ret, ctx, w) })
      else if arg 1 = ''info'' then
        (if argc cmd \<noteq> 3 then usage
         else do {
           (ret, w) \<leftarrow> builtin_led_info (arg 2) w;
           Some (ret, ctx, w) })
      else if arg 1 = ''on'' then
        (if argc cmd \<noteq> 3 then usage
         else do {
           (ret, w) \<leftarrow> led_control_set_on (arg 2) w;
           Some (ret, ctx, if ret = OK then printf (arg 2 @ '': on'' @ [LF]) w else w) })
      else if arg 1 = ''off'' then
        (if argc cmd \<noteq> 3 then usage
         else do {
           (ret, w) \<leftarrow> led_control_set_off (arg 2) w;
           Some (ret, ctx, if ret = OK then printf (arg 2 @ '': off'' @ [LF]) w else w) })
      else if arg 1 = ''trigger'' then
        (if argc cmd \<noteq> 4 then usage
         else do {
           (ret, w) \<leftarrow> led_control_set_trigger (arg 2) (arg 3) w;
           Some (ret, ctx, if ret = OK then printf (arg 2 @ '': trigger='' @ arg 3 @ [LF]) w else w) })
      else usage)"

section \<open>The table\<close>

definition builtin_table :: "(string \<times> handler) list" where
  "builtin_table =
     [(''cd'', builtin_cd),
      (''pwd'', builtin_pwd),
      (''exit'', builtin_exit),
      (''jobs'', builtin_jobs),
      (''help'', builtin_help),
      (''status'', builtin_status),
      (''sysinfo'', builtin_sysinfo),
      (''monitor'', builtin_monitor),
      (''psinfo'', builtin_psinfo),
      (''dtinfo'', builtin_dtinfo),
      (''hwinfo'', builtin_hwinfo),
      (''led'', builtin_led),
      (''fg'', builtin_fg),
      (''bg'', builtin_bg),
      (''reload'', builtin_reload)]"

definition builtin_lookup :: "string \<Rightarrow> handler option" where
  "builtin_lookup name = map_option snd (find (\<lambda>entry. fst entry = name) builtin_table)"

definition builtin_get :: "nat \<Rightarrow> (string \<times> handler) option" where
  "builtin_get index = (if builtin_count \<le> index then None else Some (builtin_table ! index))"

lemma builtin_names_table: "map fst builtin_table = builtin_names"
  by (simp add: builtin_table_def builtin_names_def)

section \<open>The contract of a builtin\<close>

text \<open>
  \<open>settled ctx r ctx'\<close>: what a builtin may do to the context. It may stop the shell, replace the
  configuration by a valid one and take jobs out of the table; its result is an error or an exit
  status.
\<close>

definition settled :: "ShellContext \<Rightarrow> int \<Rightarrow> ShellContext \<Rightarrow> bool" where
  "settled ctx r ctx' \<longleftrightarrow>
     last_exit_status ctx' = last_exit_status ctx \<and> config_file ctx' = config_file ctx \<and>
     input_buffer ctx' = input_buffer ctx \<and> input_discarding ctx' = input_discarding ctx \<and>
     (config_ok (config ctx) \<longrightarrow> config_ok (config ctx')) \<and> (running ctx' \<longrightarrow> running ctx) \<and>
     length (jobs (ctx_jobs ctx')) \<le> length (jobs (ctx_jobs ctx)) \<and>
     (last_exit_status ctx \<le> 255 \<longrightarrow> r \<le> 255)"

lemma settled_same [simp]: "settled ctx r ctx \<longleftrightarrow> (last_exit_status ctx \<le> 255 \<longrightarrow> r \<le> 255)"
  by (simp add: settled_def)

definition builtin_ok :: "int \<Rightarrow> ShellContext \<Rightarrow> world \<Rightarrow> int \<times> ShellContext \<times> world \<Rightarrow> bool" where
  "builtin_ok n ctx w res \<longleftrightarrow>
     (case res of (r, ctx', w') \<Rightarrow>
        fds_by (\<lambda>_. 0) w w' \<and> table_inv n (ctx_jobs ctx') w' \<and> settled ctx r ctx')"

text \<open>A table of builtins all of which keep the contract; the dispatcher relies on no more.\<close>

locale builtin_set =
  fixes lookup :: "string \<Rightarrow> handler option"
  assumes contract:
    "lookup name = Some handle \<Longrightarrow> table_inv n (ctx_jobs ctx) w \<Longrightarrow> ensures (handle cmd ctx w) (builtin_ok n ctx w)"

end
