(* ===== verification/Builtin_Properties.thy ===== *)
theory Builtin_Properties
  imports Builtin
begin

text \<open>
  Every builtin of the table keeps the contract of theory \<open>Builtin\<close>, and what \<^verbatim>\<open>fg\<close>,
  \<^verbatim>\<open>bg\<close> and \<^verbatim>\<open>reload\<close> do.
\<close>

section \<open>Builtins that leave the context alone\<close>

lemma builtin_ok_simp [simp]:
  "builtin_ok n ctx w (r, ctx', w') \<longleftrightarrow>
     fds_by (\<lambda>_. 0) w w' \<and> table_inv n (ctx_jobs ctx') w' \<and> settled ctx r ctx'"
  by (simp add: builtin_ok_def)

lemma calm_fds_by: "calm w w' \<Longrightarrow> fds_by (\<lambda>_. 0) w w'"
  by (auto simp: fds_by_def calm_moves)

lemma inv_kept: "table_inv n m w \<Longrightarrow> calm w w' \<Longrightarrow> table_inv n m w'"
  by (simp add: table_inv_def calm_moves moves_iff)

definition plain :: "ShellContext \<Rightarrow> world \<Rightarrow> int \<times> ShellContext \<times> world \<Rightarrow> bool" where
  "plain ctx w res \<longleftrightarrow> (case res of (r, ctx', w') \<Rightarrow> calm w w' \<and> ctx' = ctx \<and> r \<le> OK)"

lemma plain_simp [simp]: "plain ctx w (r, ctx', w') \<longleftrightarrow> calm w w' \<and> ctx' = ctx \<and> r \<le> OK"
  by (simp add: plain_def)

lemma plain_contract:
  "ensures m (plain ctx w) \<Longrightarrow> table_inv n (ctx_jobs ctx) w \<Longrightarrow> ensures m (builtin_ok n ctx w)"
  by (erule ensures_mono) (auto simp: plain_def calm_fds_by intro: inv_kept)

lemma list_jobs_frame [simp]: "view (list_jobs js w) = view w" "w_script (list_jobs js w) = w_script w"
proof (induction js arbitrary: w)
  case (Cons j js)
  { case 1 then show ?case using Cons by (cases "j_status j") simp_all }
  { case 2 then show ?case using Cons by (cases "j_status j") (simp_all add: printf_def) }
qed simp_all

lemma report_frame [simp]:
  "view (device_tree_print dt w) = view w" "w_script (device_tree_print dt w) = w_script w"
  "view (hardware_info_print hw w) = view w" "w_script (hardware_info_print hw w) = w_script w"
  by (simp_all add: device_tree_print_def hardware_info_print_def)

lemma system_info_errs:
  "ensures (system_info_collect w) errs"
  unfolding system_info_collect_def get_cpu_info_def get_mem_info_def get_uptime_info_def
  by (intro vcg ensures_sum ensures_split ensures_option system_parts_calm(1,5) [THEN ensures_mono2])
    auto


lemma plain_builtins:
  "ensures (builtin_cd cmd ctx w) (plain ctx w)"
  "ensures (builtin_pwd cmd ctx w) (plain ctx w)"
  "ensures (builtin_jobs cmd ctx w) (plain ctx w)"
  "ensures (builtin_help cmd ctx w) (plain ctx w)"
  "ensures (builtin_status cmd ctx w) (plain ctx w)"
  "ensures (builtin_dtinfo cmd ctx w) (plain ctx w)"
  "ensures (builtin_hwinfo cmd ctx w) (plain ctx w)"
  unfolding builtin_cd_def change_directory_def builtin_pwd_def builtin_jobs_def builtin_help_def
    builtin_status_def builtin_dtinfo_def builtin_hwinfo_def job_list_def
  by (intro vcg ensures_mono3 [OF device_tree_collect_eff] ensures_mono3 [OF hardware_info_collect_eff];
      auto simp: move_simps dest!: called_moves)+

lemma plain_sysinfo: "ensures (builtin_sysinfo cmd ctx w) (plain ctx w)"
proof -
  have "ensures (system_info_collect w) (\<lambda>(r, w'). calm w w' \<and> (\<forall>e. r = Inl e \<longrightarrow> e < OK))"
    using system_info_collect_calm [of w] system_info_errs [of w] by (auto simp: ensures_def errs_def)
  note info = ensures_mono2 [OF this]
  show ?thesis unfolding builtin_sysinfo_def by (intro vcg ensures_sum info) auto
qed

lemma plain_runtime:
  "ensures (builtin_monitor cmd ctx w) (plain ctx w)" "ensures (builtin_psinfo cmd ctx w) (plain ctx w)"
  unfolding builtin_monitor_def builtin_psinfo_def plain_def [abs_def]
  by (rule cmd_monitor_eff cmd_psinfo_eff)+

lemma led_reports:
  "ensures (builtin_led_list w) (\<lambda>(r, w'). calm w w' \<and> r \<le> OK)"
  "ensures (builtin_led_info name w) (\<lambda>(r, w'). calm w w' \<and> r \<le> OK)"
  unfolding builtin_led_list_def builtin_led_info_def
  by (intro vcg ensures_option ensures_mono3 [OF hardware_info_collect_eff]; auto)+

lemma plain_led: "ensures (builtin_led cmd ctx w) (plain ctx w)"
  unfolding builtin_led_def
  by (intro vcg led_reports [THEN ensures_mono2]) (auto simp: led_result_def)

section \<open>Jobs\<close>

lemma remove_job_frees: "remove_job g js w = (js', w') \<Longrightarrow> length js' \<le> length js \<and> (\<exists>k. w' = free_blocks k w)"
proof (induction js arbitrary: js' w')
  case (Cons j js)
  then show ?case by (auto split: if_splits prod.splits)
qed (auto intro: exI [of _ 0])

lemma ctx_remove_settled:
  assumes "table_inv n (ctx_jobs ctx) w" and "ctx_remove g ctx w = (ctx', w')"
  shows "fds_by (\<lambda>_. 0) w w' \<and> table_inv n (ctx_jobs ctx') w' \<and>
     (\<forall>r ctx0. settled ctx0 r ctx \<longrightarrow> settled ctx0 r ctx')"
proof -
  obtain m where r: "job_remove (ctx_jobs ctx) g w = (m, w')" "ctx' = ctx\<lparr>ctx_jobs := m\<rparr>"
    using assms(2) by (auto simp: ctx_remove_def split: prod.splits)
  then have "length (jobs m) \<le> length (jobs (ctx_jobs ctx)) \<and> (\<exists>k. w' = free_blocks k w)"
    using remove_job_frees [of g "jobs (ctx_jobs ctx)" w]
    by (auto simp: job_remove_def intro: exI [of _ 0] split: if_splits prod.splits)
  moreover from this have "fds_by (\<lambda>_. 0) w w'" by (auto simp: fds_by_def moves_def)
  ultimately show ?thesis using remove_inv [OF assms(1) r(1)] r(2) by (auto simp: settled_def)
qed

text \<open>Storing a job that has made progress.\<close>

lemma ctx_put_inv:
  "table_inv n (ctx_jobs ctx) w \<Longrightarrow> same_job (jobs (ctx_jobs ctx) ! i) j \<Longrightarrow> calm w w' \<Longrightarrow>
     table_inv n (ctx_jobs (ctx_put i j ctx)) w'"
  by (auto simp: ctx_put_def calm_moves moves_iff intro: put_inv)

lemma ctx_put_simps [simp]:
  "settled ctx0 r (ctx_put i j ctx) = settled ctx0 r ctx"
  "jobs (ctx_jobs (ctx_put i j ctx)) = (jobs (ctx_jobs ctx))[i := j]"
  "ctx_put i k (ctx_put i j ctx) = ctx_put i k ctx"
  by (simp_all add: ctx_put_def settled_def put_job_def)

lemma settled_stop [simp]: "settled ctx0 r ctx \<Longrightarrow> settled ctx0 r (ctx\<lparr>running := False\<rparr>)"
  by (simp add: settled_def)

lemma fg_finish_save:
  "fg_finish i job ctx w = do {
    (job, w) \<leftarrow> save_modes job True w;
    let ctx = ctx_put i job ctx;
    (r, w) \<leftarrow> terminal_restore w;
    if r < 0
    then Some (ERR_UNKNOWN, ctx\<lparr>running := False\<rparr>, log_error ''failed restore terminal'' w)
    else if j_status job = JOB_STOPPED
    then Some (OK, ctx, printf ([LF] @ ''['' @ show_int (j_id job) @ '']+ Stopped '' @ j_command job @ [LF]) w)
    else if j_status job \<noteq> JOB_DONE then Some (ERR_UNKNOWN, ctx, w)
    else
      let status = job_exit_status job;
          (ctx, w) = ctx_remove (j_pgid job) ctx w
      in Some (if status < 0 then ERR_UNKNOWN else status, ctx, w) }"
  by (simp add: fg_finish_def save_modes_def)

lemma fg_finish_eff:
  assumes "table_inv n (ctx_jobs ctx) w" and "same_job (jobs (ctx_jobs ctx) ! i) job"
  shows "ensures (fg_finish i job ctx w) (builtin_ok n ctx w)"
proof -
  have put: "table_inv n (ctx_jobs (ctx_put i x ctx)) v" if "but_modes job x" "calm w v" for x v
    using ctx_put_inv [OF assms(1) _ that(2)] same_job_trans [OF assms(2)] but_modes_facts [OF that(1)] by blast
  have gone: "fds_by (\<lambda>_. 0) w u \<and> table_inv n (ctx_jobs c) u \<and> settled ctx r c"
    if "but_modes job x" "calm w v" "ctx_remove g (ctx_put i x ctx) v = (c, u)" "r \<le> 255" for x v g c u r
    using ctx_remove_settled [OF put [OF that(1,2)] that(3)] that(2,4)
    by (fastforce simp: fds_by_def calm_moves moves_def)
  show ?thesis
    unfolding fg_finish_save
  proof (intro vcg ensures_split ensures_mono2 [OF save_modes_eff], goal_cases)
    case (1 j v r u)
    then have "calm w u" by (blast intro: calm_trans)
    with 1 put [of j u] show ?case by (simp add: calm_fds_by)
  next
    case (2 j v r u)
    then have "calm w u" by (blast intro: calm_trans)
    with 2 put [of j u] show ?case by (simp add: calm_fds_by)
  next
    case (3 j v r u)
    then have "calm w u" by (blast intro: calm_trans)
    with 3 put [of j u] show ?case by (simp add: calm_fds_by)
  next
    case (4 j v r u c u')
    then have "calm w u" by (blast intro: calm_trans)
    with 4 gone [of j u "j_pgid j" c u'] exit_status_bounds [of j] show ?case by simp
  qed
qed


text \<open>The same facts over views, which chain by rewriting.\<close>

lemma still_fds: "length (w_script v) \<le> length (w_script w) \<Longrightarrow> view v = view w \<Longrightarrow> fds_by (\<lambda>_. 0) w v"
  by (auto simp: fds_by_def moves_def intro: exI [of _ 0])

lemma still_inv: "table_inv n m w \<Longrightarrow> view v = view w \<Longrightarrow> table_inv n m v"
  by (simp add: table_inv_def w_live_view)

lemma still_put:
  "table_inv n (ctx_jobs ctx) w \<Longrightarrow> same_job (jobs (ctx_jobs ctx) ! i) j \<Longrightarrow> view v = view w \<Longrightarrow>
     table_inv n (ctx_jobs (ctx_put i j ctx)) v"
  by (auto simp: ctx_put_def w_live_view intro: put_inv)

lemma fg_job_eff:
  assumes "table_inv n (ctx_jobs ctx) w" and "i < length (jobs (ctx_jobs ctx))"
  shows "ensures (fg_job i ctx w) (builtin_ok n ctx w)"
proof -
  have finish: "ensures (fg_finish i j (ctx_put i j ctx) v) (builtin_ok n ctx w)"
    if "same_job (jobs (ctx_jobs ctx) ! i) j" "length (w_script v) \<le> length (w_script w)" "view v = view w" for j v
  proof (rule ensures_mono [OF fg_finish_eff])
    show "table_inv n (ctx_jobs (ctx_put i j ctx)) v" by (rule still_put [OF assms(1) that(1,3)])
    show "same_job (jobs (ctx_jobs (ctx_put i j ctx)) ! i) j" using assms(2) by simp
    show "builtin_ok n (ctx_put i j ctx) v res \<Longrightarrow> builtin_ok n ctx w res" for res
      using that(2,3) by (auto simp: builtin_ok_def settled_def fds_by_def moves_def ctx_put_def)
  qed
  show ?thesis
    unfolding fg_job_def Let_def
    by (intro vcg)
      (auto simp: move_simps intro: finish still_fds still_inv [OF assms(1)] still_put [OF assms(1)] same_job_trans)
qed

lemma builtin_fg_eff:
  assumes "table_inv n (ctx_jobs ctx) w"
  shows "ensures (builtin_fg cmd ctx w) (builtin_ok n ctx w)"
  unfolding builtin_fg_def
  by (intro vcg ensures_option fg_job_eff [OF assms])
    (use assms in \<open>auto simp: move_simps intro: still_fds dest: find_index_Some\<close>)

lemma builtin_bg_eff:
  assumes "table_inv n (ctx_jobs ctx) w"
  shows "ensures (builtin_bg cmd ctx w) (builtin_ok n ctx w)"
  unfolding builtin_bg_def
  by (intro vcg ensures_option)
    (use assms in \<open>auto simp: move_simps intro: still_fds still_put\<close>)

lemma builtin_exit_eff: "table_inv n (ctx_jobs ctx) w \<Longrightarrow> ensures (builtin_exit cmd ctx w) (builtin_ok n ctx w)"
  unfolding builtin_exit_def by (intro vcg) (auto simp: settled_def intro: still_fds)

lemma view_setlevel [simp]: "view (log_setlevel l w) = view w" "w_script (log_setlevel l w) = w_script w"
  by (simp_all add: log_setlevel_def view_def)

lemma builtin_reload_eff:
  assumes "table_inv n (ctx_jobs ctx) w"
  shows "ensures (builtin_reload cmd ctx w) (builtin_ok n ctx w)"
  unfolding builtin_reload_def
  by (intro vcg ensures_mono3 [OF config_load_eff])
    (auto simp: move_simps settled_def intro: still_fds still_inv [OF assms])

section \<open>The table\<close>

lemma builtin_lookup_table: "builtin_lookup name = Some handle \<Longrightarrow> (name, handle) \<in> set builtin_table"
  by (auto simp: builtin_lookup_def find_Some_iff in_set_conv_nth) (metis fst_conv)

lemma builtin_lookup_names: "builtin_lookup name \<noteq> None \<longleftrightarrow> name \<in> set builtin_names"
proof -
  have "(builtin_lookup name \<noteq> None) = (name \<in> fst ` set builtin_table)"
    by (auto simp: builtin_lookup_def find_None_iff image_iff) (metis fst_conv)
  then show ?thesis by (simp flip: builtin_names_table)
qed

lemma table_contract:
  assumes "table_inv n (ctx_jobs ctx) w"
  shows "list_all (\<lambda>(name, handle). \<forall>cmd. ensures (handle cmd ctx w) (builtin_ok n ctx w)) builtin_table"
  using assms
  by (simp add: builtin_table_def plain_builtins plain_sysinfo plain_runtime plain_led plain_contract
      builtin_fg_eff builtin_bg_eff builtin_exit_eff builtin_reload_eff)

interpretation builtins: builtin_set builtin_lookup
  by unfold_locales (drule builtin_lookup_table, drule table_contract, fastforce simp: list_all_iff)

section \<open>Properties\<close>

text \<open>C14: a builtin that the table yields leaves every descriptor balanced and the heap
  equal to the job table, which satisfies its invariant and has gained no job; it does not touch the
  line being typed nor the last status, it replaces the configuration only by a valid one, and it
  returns an error or an exit status.
\<close>
theorem builtin_contract:
  assumes "builtin_lookup name = Some handle" and "table_ok (ctx_jobs ctx)"
    and "handle cmd ctx w = Some (r, ctx', w')"
  shows "fd_bal w' fd = fd_bal w fd \<and>
     w_live w' - table_blocks (ctx_jobs ctx') = w_live w - table_blocks (ctx_jobs ctx) \<and>
     table_ok (ctx_jobs ctx') \<and> length (jobs (ctx_jobs ctx')) \<le> length (jobs (ctx_jobs ctx)) \<and>
     input_buffer ctx' = input_buffer ctx \<and> last_exit_status ctx' = last_exit_status ctx \<and>
     (config_ok (config ctx) \<longrightarrow> config_ok (config ctx')) \<and>
     (last_exit_status ctx \<le> 255 \<longrightarrow> r \<le> 255)"
proof -
  have "table_inv (w_live w - table_blocks (ctx_jobs ctx)) (ctx_jobs ctx) w"
    using assms(2) by (simp add: table_inv_def)
  from ensures_D [OF assms(3) builtins.contract [OF assms(1) this]] show ?thesis
    by (auto simp: table_inv_def fds_by_def moves_fd settled_def)
qed

theorem builtin_contract_witness:
  "\<exists>handle ctx' w'. builtin_lookup ''status'' = Some handle \<and>
     handle command_init (blank_context\<lparr>last_exit_status := 7\<rparr>) (init_world []) = Some (0, ctx', w') \<and>
     w_out w' = [''7'' @ [LF]] \<and> last_exit_status ctx' = 7 \<and> w_live w' = 0"
proof -
  let ?ctx = "blank_context\<lparr>last_exit_status := 7\<rparr>"
  have seven: "show_int 7 = ''7''" by code_simp
  have l: "builtin_lookup ''status'' = Some builtin_status" by (simp add: builtin_lookup_def builtin_table_def)
  have run: "builtin_status command_init ?ctx (init_world []) = Some (0, ?ctx, printf (''7'' @ [LF]) (init_world []))"
    by (simp add: builtin_status_def seven)
  have "table_ok (ctx_jobs ?ctx)" by (simp add: blank_context_def table_ok_def jobmanager_init_def)
  from builtin_contract [OF l this run, of 0] l run show ?thesis
    by (auto simp: printf_def init_world_def table_blocks_def)
qed

text \<open>
  The names that \<^verbatim>\<open>help\<close> lists are exactly the commands that the shell
  runs itself; each stands in the table once.
\<close>
theorem builtin_table_complete:
  "(builtin_lookup name \<noteq> None) = (name \<in> set builtin_names) \<and> distinct builtin_names \<and>
   (\<exists>w'. builtin_help cmd ctx w = Some (OK, ctx, w') \<and>
      w_out w' = w_out w @ (''Builtin commands are:'' @ [LF]) # map (\<lambda>n. '' '' @ n @ [LF]) builtin_names)"
proof -
  have "map (\<lambda>i. '' '' @ builtin_names ! i @ [LF]) [0..<builtin_count] = map (\<lambda>n. '' '' @ n @ [LF]) builtin_names"
    by (rule nth_equalityI) (simp_all add: builtin_count_def)
  then show ?thesis
    using builtin_lookup_names [of name] by (simp add: builtin_help_def w_out_printf_all) (simp add: builtin_names_def)
qed

section \<open>The job that fg waits for\<close>

definition is_wait :: "syscall \<Rightarrow> bool" where
  "is_wait c = (case c of Sys_waitpid _ _ \<Rightarrow> True | _ \<Rightarrow> False)"

lemma is_wait_simps [simp]:
  "is_wait (Sys_waitpid p fl)" "\<not> is_wait (Sys_kill p sig)" "\<not> is_wait (Sys_tcsetpgrp k g)"
  "\<not> is_wait (Sys_tcgetattr k)" "\<not> is_wait (Sys_tcsetattr k m)"
  by (simp_all add: is_wait_def)

abbreviation (input) no_wait :: "world \<Rightarrow> world \<Rightarrow> bool" where
  "no_wait \<equiv> calls_only (\<lambda>c. \<not> is_wait c)"

lemma no_wait_filter:
  "\<forall>x\<in>set t. \<not> is_wait (fst x) \<Longrightarrow> List.filter (\<lambda>x. fst x = Sys_waitpid p fl) t = []"
  by (induction t) auto

lemma waited_later:
  assumes "no_wait u v" and "calls_only P v w"
  shows "waited g u w = waited g v w"
  using assms by (auto simp: waited_def calls_only_def no_wait_filter)

lemma waited_before:
  assumes "calls_only P u v" and "no_wait v w"
  shows "waited g u w = waited g u v"
  using assms by (auto simp: waited_def calls_only_def no_wait_filter)

lemmas no_wait_paths =
  paths sys_calls [where P = "\<lambda>c. \<not> is_wait c"] sysv_calls [where P = "\<lambda>c. \<not> is_wait c"]
  sys_retry_calls [where P = "\<lambda>c. \<not> is_wait c"]

lemma set_pgrp_no_wait: "ensures (terminal_set_pgrp g w) (\<lambda>(r, w'). no_wait w w')"
  unfolding terminal_set_pgrp_def by (intro no_wait_paths) auto

lemma set_foreground_no_wait: "ensures (terminal_set_foreground g w) (\<lambda>(r, w'). no_wait w w')"
  unfolding terminal_set_foreground_def by (intro no_wait_paths set_pgrp_no_wait) auto

lemma set_modes_no_wait: "ensures (terminal_set_modes m w) (\<lambda>(r, w'). no_wait w w')"
  unfolding terminal_set_modes_def by (intro no_wait_paths) auto

lemma restore_no_wait: "ensures (terminal_restore w) (\<lambda>(r, w'). no_wait w w')"
  unfolding terminal_restore_def
  by (intro no_wait_paths ensures_mono2 [OF set_pgrp_no_wait] ensures_mono2 [OF set_modes_no_wait])
    (auto intro: calls_only_trans)

lemma save_modes_no_wait: "ensures (save_modes j ta w) (\<lambda>(j', w'). no_wait w w' \<and> but_modes j j')"
  unfolding save_modes_def terminal_get_modes_def
  by (intro no_wait_paths) (auto simp: but_modes_def)

text \<open>The job after the SIGCONT that \<^verbatim>\<open>fg\<close> sends to a stopped one.\<close>

definition resumed :: "Job \<Rightarrow> Job" where
  "resumed j = (if j_status j = JOB_STOPPED
     then job_update_status (j\<lparr>j_processes := map resume_process (j_processes j)\<rparr>) else j)"

lemma resumed_same: "same_job j (resumed j)"
  by (auto simp: resumed_def intro: update_same_job)

lemma resumed_simps [simp]: "j_pgid (resumed j) = j_pgid j" "job_exit_status (resumed j) = job_exit_status j"
  by (auto simp: resumed_def job_update_status_def job_exit_status_def job_last_process_def last_map resume_process_def)

lemma continue_resumes:
  "ensures (job_continue j w) (\<lambda>(r, j', w'). no_wait w w' \<and> (0 \<le> r \<longrightarrow> j' = resumed j))"
  unfolding job_continue_def by (intro no_wait_paths) (auto simp: resumed_def)

text \<open>
  \<open>waited_for j0 j w w'\<close>: \<open>j\<close> is the job \<open>j0\<close> after the waits for its group made between \<open>w\<close> and \<open>w'\<close>
  recorded their answers in its processes.
\<close>

definition waited_for :: "Job \<Rightarrow> Job \<Rightarrow> world \<Rightarrow> world \<Rightarrow> bool" where
  "waited_for j0 j w w' \<longleftrightarrow> same_job j0 j \<and>
     j_processes j = map (hear (waited (j_pgid j0) w w')) (j_processes (resumed j0))"

definition waitable :: "Job \<Rightarrow> bool" where
  "waitable j \<longleftrightarrow> job_ok j \<and> j_processes j \<noteq> [] \<and> distinct (map p_pid (j_processes j))"

lemma wait_hears:
  assumes "waitable j0" and "no_wait u w"
  shows "ensures (job_wait_foreground (resumed j0) w)
     (\<lambda>(r, j', w'). waited_for j0 j' u w' \<and> calls_only (\<lambda>_. True) u w')"
proof (unfold ensures_def, intro allI impI)
  fix x assume "job_wait_foreground (resumed j0) w = Some x"
  then obtain r j' w' where x: "x = (r, j', w')" and run: "job_wait_foreground (resumed j0) w = Some (r, j', w')"
    by (cases x) auto
  have ok: "job_ok (resumed j0)" "distinct (map p_pid (j_processes (resumed j0)))"
    using assms(1) resumed_same [of j0] by (auto simp: waitable_def same_job_def)
  then have "job_wait_loop (resumed j0) w = Some (r, j', w')"
    using run by (simp add: job_wait_foreground_def job_ok_def)
  from job_wait_loop_hears [OF this] ok have *: "calls_only (\<lambda>c. c = Sys_waitpid (- j_pgid j0) [WUNTRACED]) w w'"
    "j_processes j' = map (hear (waited (j_pgid j0) w w')) (j_processes (resumed j0))"
    by (auto simp: job_ok_def)
  moreover have "same_job j0 j'"
    using ensures_D3 [OF run job_wait_foreground_eff] same_job_trans [OF resumed_same] by blast
  moreover have "calls_only (\<lambda>_. True) u w'"
    by (rule calls_only_trans [OF calls_only_mono [OF assms(2)] calls_only_mono [OF *(1)]]) simp_all
  ultimately show "case x of (r, j', w') \<Rightarrow> waited_for j0 j' u w' \<and> calls_only (\<lambda>_. True) u w'"
    using x waited_later [OF assms(2) *(1), of "j_pgid j0"] by (simp add: waited_for_def)
qed

lemma waited_for_later: "waited_for j0 j u v \<Longrightarrow> calls_only P u v \<Longrightarrow> no_wait v w \<Longrightarrow> waited_for j0 j u w"
  using waited_before [of P u v w] by (simp add: waited_for_def)

text \<open>What \<^verbatim>\<open>fg\<close> reports of the job it waited for.\<close>

definition fg_result :: "nat \<Rightarrow> Job \<Rightarrow> ShellContext \<Rightarrow> int \<Rightarrow> ShellContext \<Rightarrow> bool" where
  "fg_result i job ctx r ctx' \<longleftrightarrow>
     (\<exists>k. but_modes job k \<and>
        (j_status job = JOB_STOPPED \<and> r = OK \<and> ctx' = ctx_put i k ctx \<or>
         j_status job = JOB_DONE \<and> r = job_exit_status job \<and>
           (\<exists>v. ctx_jobs ctx' = fst (job_remove (ctx_jobs (ctx_put i k ctx)) (j_pgid job) v))))"

lemma ctx_remove_no_wait: "ctx_remove g ctx w = (ctx', w') \<Longrightarrow> calls_only P u w' = calls_only P u w"
  using remove_job_frees [of g "jobs (ctx_jobs ctx)" w]
  by (auto simp: ctx_remove_def job_remove_def split: if_splits prod.splits)

lemma fg_finish_result:
  "ensures (fg_finish i job ctx w) (\<lambda>(r, ctx', w'). no_wait w w' \<and> (0 \<le> r \<longrightarrow> fg_result i job ctx r ctx'))"
  unfolding fg_finish_save
proof (intro paths ensures_split ensures_mono2 [OF save_modes_no_wait] ensures_mono2 [OF restore_no_wait], goal_cases)
  case (2 k v r u)
  then show ?case by (auto simp: fg_result_def but_modes_def intro: calls_only_trans)
next
  case (4 k v r u ctx' u')
  then have "j_pgid k = j_pgid job" "j_status job = JOB_DONE" "job_exit_status k = job_exit_status job"
    using but_modes_facts [of job k] by auto
  moreover have "ctx_jobs ctx' = fst (job_remove (ctx_jobs (ctx_put i k ctx)) (j_pgid k) u)"
    using 4 by (auto simp: ctx_remove_def split: prod.splits)
  moreover have "no_wait w u'" using 4 ctx_remove_no_wait [of "j_pgid k"] by (auto intro: calls_only_trans)
  ultimately show ?case using 4 unfolding fg_result_def by auto
qed (auto intro: calls_only_trans)

lemma fg_wait_result:
  assumes "waitable j0" and "no_wait u w"
  shows "ensures (do {
       (r, job, w) \<leftarrow> job_wait_foreground (resumed j0) w;
       if r < 0
       then do { (r, w) \<leftarrow> terminal_restore w; Some (ERR_UNKNOWN, ctx_put i job ctx, w) }
       else fg_finish i job (ctx_put i job ctx) w })
     (\<lambda>(r, ctx', w'). 0 \<le> r \<longrightarrow> (\<exists>j. waited_for j0 j u w' \<and> fg_result i j (ctx_put i j ctx) r ctx'))"
  by (intro paths ensures_mono3 [OF wait_hears [OF assms]] ensures_mono2 [OF restore_no_wait]
      ensures_mono3 [OF fg_finish_result]) (auto intro: waited_for_later)

lemma fg_job_result:
  assumes "waitable (jobs (ctx_jobs ctx) ! i)"
  shows "ensures (fg_job i ctx w) (\<lambda>(r, ctx', w'). 0 \<le> r \<longrightarrow>
     (\<exists>j. waited_for (jobs (ctx_jobs ctx) ! i) j w w' \<and> fg_result i j (ctx_put i j ctx) r ctx'))"
proof -
  let ?j = "jobs (ctx_jobs ctx) ! i"
  have plain: "resumed ?j = ?j" if "j_status ?j \<noteq> JOB_STOPPED" using that by (simp add: resumed_def)
  have wait: "ensures (do {
       (r, job, w) \<leftarrow> job_wait_foreground (resumed ?j) v;
       if r < 0
       then do { (r, w) \<leftarrow> terminal_restore w; Some (ERR_UNKNOWN, ctx_put i job (ctx_put i x ctx), w) }
       else fg_finish i job (ctx_put i job (ctx_put i x ctx)) w })
     (\<lambda>(r, ctx', w'). 0 \<le> r \<longrightarrow> (\<exists>j. waited_for ?j j w w' \<and> fg_result i j (ctx_put i j ctx) r ctx'))"
    if "no_wait w v" for v x
    using fg_wait_result [OF assms that, of i "ctx_put i x ctx"] by simp
  have continue: "ensures (do {
       (r, job, w) \<leftarrow> (if j_status ?j = JOB_STOPPED then job_continue ?j v else Some (0, ?j, v));
       if r < 0
       then do { (r, w) \<leftarrow> terminal_restore w; Some (ERR_JOB, ctx_put i job ctx, w) }
       else do {
         (r, job', w) \<leftarrow> job_wait_foreground job w;
         if r < 0
         then do { (r, w) \<leftarrow> terminal_restore w; Some (ERR_UNKNOWN, ctx_put i job' (ctx_put i job ctx), w) }
         else fg_finish i job' (ctx_put i job' (ctx_put i job ctx)) w } })
     (\<lambda>(r, ctx', w'). 0 \<le> r \<longrightarrow> (\<exists>j. waited_for ?j j w w' \<and> fg_result i j (ctx_put i j ctx) r ctx'))"
    if "no_wait w v" for v
  proof (cases "j_status ?j = JOB_STOPPED")
    case False
    with wait [OF that, of ?j] plain show ?thesis by simp
  next
    case True
    have failed: "ensures (terminal_restore x)
        (\<lambda>y. ensures (case y of (r, z) \<Rightarrow> Some (ERR_JOB, k, z)) (\<lambda>(r, ctx', w'). 0 \<le> r \<longrightarrow> Q r ctx' w'))" for x k Q
      by (intro paths ensures_mono2 [OF restore_no_wait]) simp
    show ?thesis
      unfolding if_P [OF True]
      by (rule ensures_bind, rule ensures_mono3 [OF continue_resumes])
        (use wait calls_only_trans [OF that] failed in \<open>auto intro!: ensures_bind simp: Let_def\<close>)
  qed
  show ?thesis
    unfolding fg_job_def Let_def
    by (intro continue paths ensures_mono2 [OF set_foreground_no_wait] ensures_mono2 [OF set_modes_no_wait]
      ensures_mono2 [OF restore_no_wait]) (auto intro: calls_only_trans)
qed

lemma fg_result_put [simp]: "fg_result i j (ctx_put i j ctx) r ctx' = fg_result i j ctx r ctx'"
  by (simp add: fg_result_def)

text \<open>C22: a success of \<^verbatim>\<open>fg\<close> is about the newest job that is not done: the job \<open>j\<close> it
  becomes is what the answers to the waits for its group make of it, each process, set running when
  the job was stopped, having recorded those for its own pid in order. When \<open>j\<close> is done, the result
  is the exit status of its last process, the one last answered for its pid, or the recorded one when no
  wait told of that process, and the job is gone from the table; when \<open>j\<close> is stopped, the result is OK
  and it is still in its place, with nothing more changed than its terminal modes. The jobs of the
  table are taken to be well formed, not empty, and of processes with different pids.
\<close>
theorem fg_settles:
  assumes "builtin_fg cmd ctx w = Some (r, ctx', w')" and "0 \<le> r" and "list_all waitable (jobs (ctx_jobs ctx))"
  shows "\<exists>i j. find_index job_active (jobs (ctx_jobs ctx)) = Some i \<and>
    (let j0 = jobs (ctx_jobs ctx) ! i; heard = waited (j_pgid j0) w w' in
      same_job j0 j \<and> j_processes j = map (hear heard) (j_processes (resumed j0)) \<and>
      (j_status j = JOB_DONE \<and>
         r = (case answers_about (p_pid (last (j_processes j0))) heard of
                [] \<Rightarrow> job_exit_status j0 | as \<Rightarrow> shown_status (a_status (last as))) \<and>
         (\<exists>k v. but_modes j k \<and> ctx_jobs ctx' = fst (job_remove (put_job i k (ctx_jobs ctx)) (j_pgid j) v)) \<or>
       j_status j = JOB_STOPPED \<and> r = OK \<and>
         (\<exists>k. but_modes j k \<and> jobs (ctx_jobs ctx') = (jobs (ctx_jobs ctx))[i := k])))"
proof -
  have "job_active = (\<lambda>job. j_status job = JOB_RUNNING \<or> j_status job = JOB_STOPPED)"
    by (simp add: fun_eq_iff job_active_def)
  then obtain i where i: "find_index job_active (jobs (ctx_jobs ctx)) = Some i" and run: "fg_job i ctx w = Some (r, ctx', w')"
    using assms(1,2) by (auto simp: builtin_fg_def split: option.splits)
  let ?j0 = "jobs (ctx_jobs ctx) ! i"
  have j0: "waitable ?j0" using find_index_Some [OF i] assms(3) by (simp add: list_all_length)
  from ensures_D3 [OF run fg_job_result [OF j0]] assms(2) obtain j where
    j: "waited_for ?j0 j w w'" "fg_result i j ctx r ctx'" by auto
  have same: "map p_pid (j_processes (resumed ?j0)) = map p_pid (j_processes ?j0)"
    using resumed_same [of ?j0] by (simp add: same_job_def)
  then have ne: "j_processes (resumed ?j0) \<noteq> []" using j0 by (metis map_is_Nil_conv waitable_def)
  with same have "p_pid (last (j_processes (resumed ?j0))) = p_pid (last (j_processes ?j0))"
    by (metis last_map map_is_Nil_conv)
  with heard_exit_status [OF ne conjunct2 [OF j(1) [unfolded waited_for_def]]] have "job_exit_status j =
      (case answers_about (p_pid (last (j_processes ?j0))) (waited (j_pgid ?j0) w w') of
         [] \<Rightarrow> job_exit_status ?j0 | as \<Rightarrow> shown_status (a_status (last as)))"
    by (auto split: list.split)
  with i j show ?thesis
    by (intro exI [of _ i] exI [of _ j]) (auto simp: fg_result_def ctx_put_def waited_for_def Let_def)
qed

definition demo_stopped :: ShellContext where
  "demo_stopped = blank_context\<lparr>ctx_jobs := \<lparr>jobs =
     [\<lparr>j_id = 1, j_pgid = 7, j_status = JOB_STOPPED, j_command = ''vi'',
       j_processes = [\<lparr>p_pid = 7, p_status = PROCESS_STOPPED, p_wait_status = 0, p_wait_status_valid = False\<rparr>],
       j_modes = 0, j_modes_valid = False\<rparr>], nextid = 2\<rparr>\<rparr>"

theorem fg_settles_witness:
  "\<exists>ctx' w'. builtin_fg command_init demo_stopped (init_world [ok 0, (ok 7)\<lparr>a_status := 768\<rparr>]) = Some (3, ctx', w') \<and>
     (\<exists>j. same_job (jobs (ctx_jobs demo_stopped) ! 0) j \<and> j_status j = JOB_DONE \<and>
        map p_status (j_processes j) = [PROCESS_DONE])"
proof -
  let ?w = "init_world [ok 0, (ok 7)\<lparr>a_status := 768\<rparr>]"
  have "map_option (\<lambda>(r, c, w). (r, w_trace w)) (builtin_fg command_init demo_stopped ?w) =
      Some (3, [(Sys_kill (- 7) SIGCONT, ok 0), (Sys_waitpid (- 7) [WUNTRACED], (ok 7)\<lparr>a_status := 768\<rparr>)])"
    by code_simp
  then obtain ctx' w' where run: "builtin_fg command_init demo_stopped ?w = Some (3, ctx', w')"
      "waited 7 ?w w' = [(ok 7)\<lparr>a_status := 768\<rparr>]"
    by (auto simp: waited_def init_world_def)
  have first: "find_index job_active (jobs (ctx_jobs demo_stopped)) = Some 0"
    "list_all waitable (jobs (ctx_jobs demo_stopped))"
    "j_pgid (jobs (ctx_jobs demo_stopped) ! 0) = 7"
    by code_simp+
  have heard: "map p_status (map (hear [(ok 7)\<lparr>a_status := 768\<rparr>]) (j_processes (resumed (jobs (ctx_jobs demo_stopped) ! 0)))) =
      [PROCESS_DONE]"
    by code_simp
  from fg_settles [OF run(1) _ first(2)] first(1,3) run(2) heard show ?thesis using run(1)
    by (auto simp: Let_def)
qed

end
