(* ===== verification/Dispatcher.thy ===== *)
theory Dispatcher
  imports Builtin_Properties
begin

text \<open>
  \<^verbatim>\<open>src/dispatcher.c\<close>: a command line goes to the executor or to a builtin; a builtin runs in the
  shell's own process, so its redirections replace descriptors 0 and 1 of the shell and are undone
  behind it.
\<close>

abbreviation (input) STDIN_FILENO :: int where "STDIN_FILENO \<equiv> 0"
abbreviation (input) STDOUT_FILENO :: int where "STDOUT_FILENO \<equiv> 1"

definition dup_cloexec :: "int \<Rightarrow> world \<Rightarrow> (int \<times> world) option" where
  "dup_cloexec fd w = do {
     (a, w) \<leftarrow> sys (Sys_dupfd_cloexec fd 3) w;
     Some (a_ret a, w) }"

definition dup2_retry :: "int \<Rightarrow> int \<Rightarrow> world \<Rightarrow> (int \<times> world) option" where
  "dup2_retry oldfd newfd w = do {
     (a, w) \<leftarrow> sys_retry (Sys_dup2 oldfd newfd) w;
     Some (if a_ret a < 0 then -1 else 0, w) }"

text \<open>\<^verbatim>\<open>errno = 0; if (fflush(stdout) != 0 || ferror(stdout))\<close>: the message to log, if it holds.\<close>

definition stdout_failed :: "string \<Rightarrow> world \<Rightarrow> (string option \<times> world) option" where
  "stdout_failed message w = do {
     (flushed, w) \<leftarrow> sys Sys_fflush w;
     if a_ret flushed \<noteq> 0
     then Some (Some (if a_err flushed \<noteq> E_NONE then message @ '': %s'' else message), w)
     else do {
       (bad, w) \<leftarrow> sys Sys_ferror w;
       Some (if a_ret bad \<noteq> 0 then Some message else None, w) } }"

text \<open>Opening a file over a standard descriptor.\<close>

definition open_over :: "string \<Rightarrow> open_flag list \<Rightarrow> int \<Rightarrow> string \<Rightarrow> string \<Rightarrow> world \<Rightarrow> (int \<times> world) option" where
  "open_over path flags target open_error dup_error w = do {
     (fd, w) \<leftarrow> sys (Sys_open path flags) w;
     if a_ret fd < 0 then Some (ERR_OPEN, log_error open_error w)
     else if a_ret fd \<noteq> target
     then do {
       (r, w) \<leftarrow> dup2_retry (a_ret fd) target w;
       if r < 0
       then do {
         w \<leftarrow> sysv (Sys_close (a_ret fd)) w;
         Some (ERR_DUP2, log_error dup_error w) }
       else do {
         w \<leftarrow> sysv (Sys_close (a_ret fd)) w;
         w \<leftarrow> sysv Sys_clearerr w;
         Some (OK, w) } }
     else do {
       w \<leftarrow> sysv Sys_clearerr w;
       Some (OK, w) } }"

text \<open>The two halves of \<^verbatim>\<open>builtin_apply_redirect\<close>: the code and the saved descriptor.\<close>

definition apply_output :: "string \<Rightarrow> bool \<Rightarrow> world \<Rightarrow> (int \<times> int \<times> world) option" where
  "apply_output file to_end w = do {
     (bad, w) \<leftarrow> stdout_failed ''flush stdout before redirect failed'' w;
     case bad of
       Some message \<Rightarrow> do {
         w \<leftarrow> sysv Sys_clearerr w;
         Some (ERR_UNKNOWN, -1, log_error message w) }
     | None \<Rightarrow> do {
       (saved_out, w) \<leftarrow> dup_cloexec STDOUT_FILENO w;
       if saved_out < 0 then Some (ERR_DUP2, saved_out, log_error ''backup stdout failed: %s'' w)
       else do {
         (r, w) \<leftarrow> open_over file [O_WRONLY, O_CREAT, if to_end then O_APPEND else O_TRUNC] STDOUT_FILENO
           (''open output '' @ quoted ''%s'' @ '' failed: %s'') ''redirect stdout failed: %s'' w;
         Some (r, saved_out, w) } } }"

definition apply_input :: "string \<Rightarrow> world \<Rightarrow> (int \<times> int \<times> world) option" where
  "apply_input file w = do {
     (saved_in, w) \<leftarrow> dup_cloexec STDIN_FILENO w;
     if saved_in < 0 then Some (ERR_DUP2, saved_in, log_error ''backup stdin failed: %s'' w)
     else do {
       (r, w) \<leftarrow> open_over file [O_RDONLY] STDIN_FILENO
         (''open input '' @ quoted ''%s'' @ '' failed: %s'') ''redirect stdin failed: %s'' w;
       Some (r, saved_in, w) } }"

definition builtin_apply_redirect :: "Command \<Rightarrow> world \<Rightarrow> (int \<times> int \<times> int \<times> world) option" where
  "builtin_apply_redirect cmd w = do {
     (r, saved_out, w) \<leftarrow>
       (case output_file (redirect cmd) of
          None \<Rightarrow> Some (OK, -1, w)
        | Some file \<Rightarrow> apply_output file (append (redirect cmd)) w);
     if r \<noteq> OK then Some (r, saved_out, -1, w)
     else do {
       (r, saved_in, w) \<leftarrow>
         (case input_file (redirect cmd) of
            None \<Rightarrow> Some (OK, -1, w)
          | Some file \<Rightarrow> apply_input file w);
       Some (r, saved_out, saved_in, w) } }"

text \<open>Putting one descriptor back.\<close>

definition restore_one :: "int \<Rightarrow> int \<Rightarrow> string \<Rightarrow> world \<Rightarrow> (int \<times> world) option" where
  "restore_one saved target message w =
     (if 0 \<le> saved
      then do {
        (r, w) \<leftarrow> dup2_retry saved target w;
        let w = (if r < 0 then log_error message w else w);
        w \<leftarrow> sysv (Sys_close saved) w;
        w \<leftarrow> sysv Sys_clearerr w;
        Some (if r < 0 then ERR_DUP2 else OK, w) }
      else Some (OK, w))"

definition builtin_restore_redirect :: "int \<Rightarrow> int \<Rightarrow> world \<Rightarrow> (int \<times> world) option" where
  "builtin_restore_redirect saved_out saved_in w = do {
     (r1, w) \<leftarrow> restore_one saved_out STDOUT_FILENO ''restore stdout failed: %s'' w;
     (r2, w) \<leftarrow> restore_one saved_in STDIN_FILENO ''restore stdin failed: %s'' w;
     Some (if r2 \<noteq> OK then r2 else r1, w) }"

definition command_chain_has_builtin :: "Command list \<Rightarrow> bool" where
  "command_chain_has_builtin cmd =
     list_ex (\<lambda>current. case argv0 current of None \<Rightarrow> False | Some name \<Rightarrow> builtin_lookup name \<noteq> None) cmd"

text \<open>The check of the output behind the handler.\<close>

definition check_output :: "int \<Rightarrow> world \<Rightarrow> (int \<times> world) option" where
  "check_output ret w = do {
     (bad, w) \<leftarrow> stdout_failed ''builtin output failed'' w;
     (case bad of
        Some message \<Rightarrow> do {
          w \<leftarrow> sysv Sys_clearerr (log_error message w);
          Some (if ret = OK then ERR_UNKNOWN else ret, w) }
      | None \<Rightarrow> Some (ret, w)) }"

text \<open>The part of \<^verbatim>\<open>dispatcher_command\<close> that runs a builtin between its redirections.\<close>

definition dispatch_builtin ::
  "handler \<Rightarrow> Command \<Rightarrow> ShellContext \<Rightarrow> world \<Rightarrow> (int \<times> ShellContext \<times> world) option" where
  "dispatch_builtin handle cmd ctx w = do {
     (ret, saved_out, saved_in, w) \<leftarrow> builtin_apply_redirect cmd w;
     if ret \<noteq> OK
     then do {
       (restore, w) \<leftarrow> builtin_restore_redirect saved_out saved_in w;
       Some (ret, if restore \<noteq> OK then ctx\<lparr>running := False\<rparr> else ctx, w) }
     else do {
       (ret, ctx, w) \<leftarrow> handle cmd ctx w;
       (ret, w) \<leftarrow> check_output ret w;
       (restore, w) \<leftarrow> builtin_restore_redirect saved_out saved_in w;
       if restore \<noteq> OK then Some (restore, ctx\<lparr>running := False\<rparr>, w)
       else Some (ret, ctx, w) } }"

definition dispatcher_command ::
  "Command list \<Rightarrow> ShellContext \<Rightarrow> world \<Rightarrow> ((int \<times> ShellContext) outcome \<times> world) option" where
  "dispatcher_command cs ctx w =
     (case cs of
        [] \<Rightarrow> Some (Parent (ERR_UNKNOWN, ctx), w)
      | cmd # next \<Rightarrow>
          (case argv0 cmd of
             None \<Rightarrow> Some (Parent (ERR_UNKNOWN, ctx), w)
           | Some name \<Rightarrow>
               if next \<noteq> [] \<and> command_chain_has_builtin cs
               then Some (Parent (ERR_PARSE, ctx), log_error ''builtin commands in pipelines are not supported'' w)
               else
                 (case builtin_lookup name of
                    None \<Rightarrow> execute_command cs ctx w
                  | Some handle \<Rightarrow>
                      if background cmd
                      then Some (Parent (ERR_PARSE, ctx), log_error ''background builtin commands are not supported'' w)
                      else do {
                        (ret, ctx, w) \<leftarrow> dispatch_builtin handle cmd ctx w;
                        Some (Parent (ret, ctx), w) })))"

section \<open>Effects\<close>

lemma dup2_retry_calm: "ensures (dup2_retry p q w) (\<lambda>(r, w'). calm w w' \<and> r \<in> {0, -1})"
  unfolding dup2_retry_def by (intro vcg) auto

lemma stdout_failed_calm: "ensures (stdout_failed m w) (\<lambda>(b, w'). calm w w')"
  unfolding stdout_failed_def by (intro vcg) (auto simp: move_simps dest!: called_moves)

lemmas dispatcher_calm [vcg] = ensures_mono2 [OF dup2_retry_calm] ensures_mono2 [OF stdout_failed_calm]

lemma dup_cloexec_eff: "ensures (dup_cloexec k w) (\<lambda>(r, w'). moves 0 (one_fd r) w w')"
  unfolding dup_cloexec_def by (intro vcg) (auto simp: move_simps one_fd_def dest!: called_moves)

text \<open>
  \<open>beside_std d w w'\<close>: the balance of every descriptor but the two standard ones changes by \<open>d\<close>,
  and the statics stay. (A kernel that hands out a standard descriptor, because it was closed, leaves it
  open, as it should.)
\<close>

definition beside_std :: "(int \<Rightarrow> int) \<Rightarrow> world \<Rightarrow> world \<Rightarrow> bool" where
  "beside_std d w w' \<longleftrightarrow>
     length (w_script w') \<le> length (w_script w) \<and> same_statics w w' \<and>
     (\<forall>fd. fd \<noteq> STDIN_FILENO \<and> fd \<noteq> STDOUT_FILENO \<longrightarrow> fd_bal w' fd = fd_bal w fd + d fd)"

lemma beside_std_trans:
  "beside_std d u v \<Longrightarrow> beside_std e v w \<Longrightarrow> beside_std (\<lambda>fd. d fd + e fd) u w"
  by (auto simp: beside_std_def intro: same_statics_trans)

lemma moves_beside: "moves l d w w' \<Longrightarrow> beside_std d w w'"
  by (simp add: beside_std_def moves_iff)

lemma fds_by_beside: "fds_by d w w' \<Longrightarrow> beside_std d w w'"
  by (auto simp: fds_by_def intro: moves_beside)

text \<open>Equal but for the standard descriptors, and the heap as it was.\<close>

definition aside :: "(int \<Rightarrow> int) \<Rightarrow> world \<Rightarrow> world \<Rightarrow> bool" where
  "aside d w w' \<longleftrightarrow> beside_std d w w' \<and> w_live w' = w_live w"

lemma aside_trans: "aside d u v \<Longrightarrow> aside e v w \<Longrightarrow> aside (\<lambda>fd. d fd + e fd) u w"
  by (auto simp: aside_def intro: beside_std_trans)

lemma aside_out [simp]:
  "aside d u (log_error m w) = aside d u w"
  by (simp add: aside_def beside_std_def)

lemma open_over_eff:
  assumes "target = STDIN_FILENO \<or> target = STDOUT_FILENO"
  shows "ensures (open_over path flags target e1 e2 w) (\<lambda>(r, w'). aside (\<lambda>_. 0) w w' \<and> r \<in> {OK, ERR_OPEN, ERR_DUP2})"
  unfolding open_over_def
  by (intro vcg) (use assms in \<open>auto simp: aside_def beside_std_def effects\<close>)

lemma apply_output_eff:
  "ensures (apply_output file to_end w) (\<lambda>(r, saved, w'). aside (one_fd saved) w w' \<and>
     r \<in> {OK, ERR_UNKNOWN, ERR_OPEN, ERR_DUP2})"
  unfolding apply_output_def
  by (intro vcg ensures_option ensures_mono2 [OF dup_cloexec_eff] ensures_mono2 [OF open_over_eff])
    (auto simp: aside_def beside_std_def effects moves_iff one_fd_def)

lemma apply_input_eff:
  "ensures (apply_input file w) (\<lambda>(r, saved, w'). aside (one_fd saved) w w' \<and> r \<in> {OK, ERR_OPEN, ERR_DUP2})"
  unfolding apply_input_def
  by (intro vcg ensures_mono2 [OF dup_cloexec_eff] ensures_mono2 [OF open_over_eff])
    (auto simp: aside_def beside_std_def effects moves_iff one_fd_def)

lemma one_fd_none [simp]: "one_fd (-1) fd = 0"
  by (simp add: one_fd_def)

lemma apply_redirect_eff:
  "ensures (builtin_apply_redirect cmd w) (\<lambda>(r, so, si, w').
     aside (\<lambda>fd. one_fd so fd + one_fd si fd) w w' \<and> r \<in> {OK, ERR_UNKNOWN, ERR_OPEN, ERR_DUP2})"
  unfolding builtin_apply_redirect_def
  by (intro vcg ensures_option ensures_mono3 [OF apply_output_eff] ensures_mono3 [OF apply_input_eff])
    (auto simp: aside_def beside_std_def intro: same_statics_trans)

lemma restore_one_eff:
  "ensures (restore_one saved target message w) (\<lambda>(r, w'). aside (\<lambda>fd. - one_fd saved fd) w w' \<and> r \<in> {OK, ERR_DUP2})"
  unfolding restore_one_def
  by (intro vcg) (auto simp: aside_def beside_std_def effects one_fd_def)

lemma restore_redirect_eff:
  "ensures (builtin_restore_redirect so si w) (\<lambda>(r, w').
     aside (\<lambda>fd. - one_fd so fd - one_fd si fd) w w' \<and> r \<in> {OK, ERR_DUP2})"
  unfolding builtin_restore_redirect_def
  by (intro vcg ensures_mono2 [OF restore_one_eff])
    (auto simp: aside_def beside_std_def intro: same_statics_trans)

end
