(* ===== verification/Descriptors.thy ===== *)
theory Descriptors
  imports World
begin

text \<open>
  What the descriptors of the process refer to, read off the calls that were made, and operations
  that leave all of them as they were.
\<close>

section \<open>The table of descriptors\<close>

text \<open>
  What a descriptor refers to: the file the shell was started with on it, or one it opened.
  \<open>fd_step\<close> is the documented effect of one answered call on the table of open descriptors;
  \<open>None\<close> says that no kernel answers so (a new descriptor is one that is not in use,
  \<^verbatim>\<open>F_DUPFD_CLOEXEC\<close> gives none below its argument, and only an open descriptor is duplicated).
\<close>

datatype fd_file = Inherited int | Opened string

type_synonym fd_table = "int \<Rightarrow> fd_file option"

fun fd_step :: "syscall \<Rightarrow> answer \<Rightarrow> fd_table \<Rightarrow> fd_table option" where
  "fd_step (Sys_open path flags) a t =
     (if a_ret a < 0 then Some t
      else if t (a_ret a) = None then Some (t(a_ret a := Some (Opened path))) else None)"
| "fd_step (Sys_dupfd_cloexec k least) a t =
     (if a_ret a < 0 then Some t
      else if t (a_ret a) = None \<and> least \<le> a_ret a \<and> t k \<noteq> None then Some (t(a_ret a := t k)) else None)"
| "fd_step (Sys_dup2 p q) a t =
     (if a_ret a < 0 then Some t else if t p \<noteq> None then Some (t(q := t p)) else None)"
| "fd_step (Sys_fopen path) a t =
     (if a_ret a < 0 then Some t
      else if t (a_ret a) = None then Some (t(a_ret a := Some (Opened path))) else None)"
| "fd_step (Sys_opendir path) a t =
     (if a_ret a < 0 then Some t
      else if t (a_ret a) = None then Some (t(a_ret a := Some (Opened path))) else None)"
| "fd_step (Sys_close k) a t = Some (t(k := None))"
| "fd_step (Sys_fclose k) a t = Some (t(k := None))"
| "fd_step (Sys_closedir k) a t = Some (t(k := None))"
| "fd_step Sys_pipe a t =
     (if a_ret a < 0 then Some t
      else case pipe_ends a of (r, e) \<Rightarrow>
        if t r = None \<and> t e = None \<and> r \<noteq> e then Some (t(r := Some (Opened ''pipe''), e := Some (Opened ''pipe''))) else None)"
| "fd_step c a t = Some t"

fun plays :: "trace \<Rightarrow> fd_table \<Rightarrow> fd_table option" where
  "plays [] t = Some t"
| "plays ((c, a) # tr) t = (case fd_step c a t of None \<Rightarrow> None | Some t \<Rightarrow> plays tr t)"

lemma plays_append: "plays (s @ tr) t = (case plays s t of None \<Rightarrow> None | Some t' \<Rightarrow> plays tr t')"
  by (induction s arbitrary: t) (auto split: option.splits)

text \<open>\<open>turns R w w'\<close>: on the way from \<open>w\<close> to \<open>w'\<close> the table changes by the relation \<open>R\<close>.\<close>

definition turns :: "(fd_table \<Rightarrow> fd_table \<Rightarrow> bool) \<Rightarrow> world \<Rightarrow> world \<Rightarrow> bool" where
  "turns R w w' \<longleftrightarrow>
     (\<exists>tr. w_trace w' = w_trace w @ tr \<and> (\<forall>t t'. plays tr t = Some t' \<longrightarrow> R t t'))"

lemma turns_trans: "turns R u v \<Longrightarrow> turns S v w \<Longrightarrow> turns (R OO S) u w"
  by (fastforce simp: turns_def plays_append relcompp_apply split: option.splits)

lemma turns_mono: "turns R w w' \<Longrightarrow> (\<And>t t'. R t t' \<Longrightarrow> S t t') \<Longrightarrow> turns S w w'"
  by (auto simp: turns_def)

lemma turns_refl [simp]: "(\<And>t. R t t) \<Longrightarrow> turns R w w"
  by (auto simp: turns_def)

lemma turns_out [simp]: "turns R w (log_error m v) = turns R w v"
  by (simp add: turns_def)

lemma called_turns: "called c a w w' \<Longrightarrow> turns (\<lambda>t t'. fd_step c a t = Some t') w w'"
  by (auto simp: turns_def called_def split: option.splits)

lemma sys_retry_turns:
  assumes "\<And>a t. a_ret a < 0 \<Longrightarrow> fd_step c a t = Some t"
  shows "ensures (sys_retry c w) (\<lambda>(a, w'). turns (\<lambda>t t'. fd_step c a t = Some t') w w')"
proof (induction w rule: script_induct)
  case (less w)
  have again: "turns (\<lambda>t t'. fd_step c b t = Some t') w w'"
    if "called c a w v" "a_ret a < 0" "turns (\<lambda>t t'. fd_step c b t = Some t') v w'" for a b v w'
    by (rule turns_mono [OF turns_trans [OF called_turns [OF that(1)] that(3)]]) (use that(2) assms in auto)
  show ?case
    by (subst sys_retry.simps, intro paths ensures_sys ensures_mono2 [OF less])
      (auto simp: called_turns called_def intro: again)
qed

text \<open>The table is as it was, but for the descriptors of \<open>S\<close> and those that were closed.\<close>

definition keep_fds :: "int set \<Rightarrow> fd_table \<Rightarrow> fd_table \<Rightarrow> bool" where
  "keep_fds S t t' \<longleftrightarrow> (\<forall>fd. fd \<notin> S \<and> t fd \<noteq> None \<longrightarrow> t' fd = t fd)"


lemma keep_fds_refl [simp]: "keep_fds S t t"
  by (simp add: keep_fds_def)

lemma keep_fds_trans: "keep_fds S t u \<Longrightarrow> keep_fds S u v \<Longrightarrow> keep_fds S t v"
  by (simp add: keep_fds_def)

text \<open>One more call at the end, or at the front.\<close>

lemma turns_then:
  "turns R u v \<Longrightarrow> called c a v w \<Longrightarrow> (\<And>t t1 t2. R t t1 \<Longrightarrow> fd_step c a t1 = Some t2 \<Longrightarrow> S t t2) \<Longrightarrow> turns S u w"
  by (rule turns_mono [OF turns_trans [OF _ called_turns]]) (auto simp: relcompp_apply)

lemma turns_comp:
  "turns R u v \<Longrightarrow> turns S v w \<Longrightarrow> (\<And>t t1 t2. R t t1 \<Longrightarrow> S t1 t2 \<Longrightarrow> T t t2) \<Longrightarrow> turns T u w"
  by (rule turns_mono [OF turns_trans]) (auto simp: relcompp_apply)

section \<open>Operations that close what they open\<close>

text \<open>
  \<open>owes u ks w\<close>: since \<open>u\<close> the descriptors \<open>ks\<close> were opened, the last one first, and are still
  open; every other descriptor refers to what it referred to in \<open>u\<close>. An operation that keeps it for
  all \<open>u\<close> and \<open>ks\<close> closes what it opens and nothing else.
\<close>

definition owes_fds :: "int list \<Rightarrow> fd_table \<Rightarrow> fd_table \<Rightarrow> bool" where
  "owes_fds ks t t' \<longleftrightarrow> distinct ks \<and> (\<forall>k\<in>set ks. t k = None \<and> t' k \<noteq> None) \<and> (\<forall>k. k \<notin> set ks \<longrightarrow> t' k = t k)"

definition owes :: "world \<Rightarrow> int list \<Rightarrow> world \<Rightarrow> bool" where
  "owes u ks w \<longleftrightarrow> turns (owes_fds ks) u w"

lemma owes_refl [simp]: "owes w [] w"
  by (simp add: owes_def owes_fds_def)

lemma owes_turns: "owes u [] w \<Longrightarrow> turns (=) u w"
  unfolding owes_def by (erule turns_mono) (auto simp: owes_fds_def fun_eq_iff)

lemma owes_out [simp]:
  "owes u ks (log_error m w) = owes u ks w" "owes u ks (log_info m w) = owes u ks w"
  "owes u ks (printf m w) = owes u ks w" "owes u ks (eprintf m w) = owes u ks w"
  "owes u ks (free_blocks n w) = owes u ks w" "owes u ks (log_setlevel l w) = owes u ks w"
  by (simp_all add: owes_def turns_def log_setlevel_def)

lemma owes_trace: "w_trace w' = w_trace w \<Longrightarrow> owes u ks w' = owes u ks w"
  by (simp add: owes_def turns_def)

lemma owes_neutral:
  "owes u ks w \<Longrightarrow> called c a w v \<Longrightarrow> (\<And>t. fd_step c a t = Some t) \<Longrightarrow> owes u ks v"
  unfolding owes_def by (erule turns_then) auto

lemma owes_opened:
  assumes "owes u ks w" and "called c a w v"
    and "\<And>t. fd_step c a t = (if a_ret a < 0 then Some t
      else if t (a_ret a) = None then Some (t(a_ret a := Some f)) else None)"
  shows "owes u (if a_ret a < 0 then ks else a_ret a # ks) v"
  using assms(1) unfolding owes_def
  by (rule turns_then [OF _ assms(2)]) (auto simp: assms(3) owes_fds_def split: if_splits)

lemma owes_closed:
  assumes "owes u (k # ks) w" and "called c a w v" and "\<And>t. fd_step c a t = Some (t(k := None))"
  shows "owes u ks v"
  using assms(1) unfolding owes_def
  by (rule turns_then [OF _ assms(2)]) (auto simp: assms(3) owes_fds_def)

text \<open>The rules by which an operation is followed, one for each kind of call.\<close>

lemma owes_open:
  "owes u ks w \<Longrightarrow> (\<And>a v. a_ret a < 0 \<Longrightarrow> owes u ks v \<Longrightarrow> Q (a, v)) \<Longrightarrow>
     (\<And>a v. \<not> a_ret a < 0 \<Longrightarrow> owes u (a_ret a # ks) v \<Longrightarrow> Q (a, v)) \<Longrightarrow> ensures (sys (Sys_open path flags) w) Q"
  "owes u ks w \<Longrightarrow> (\<And>a v. a_ret a < 0 \<Longrightarrow> owes u ks v \<Longrightarrow> Q (a, v)) \<Longrightarrow>
     (\<And>a v. \<not> a_ret a < 0 \<Longrightarrow> owes u (a_ret a # ks) v \<Longrightarrow> Q (a, v)) \<Longrightarrow> ensures (sys (Sys_fopen path) w) Q"
  "owes u ks w \<Longrightarrow> (\<And>a v. a_ret a < 0 \<Longrightarrow> owes u ks v \<Longrightarrow> Q (a, v)) \<Longrightarrow>
     (\<And>a v. \<not> a_ret a < 0 \<Longrightarrow> owes u (a_ret a # ks) v \<Longrightarrow> Q (a, v)) \<Longrightarrow> ensures (sys (Sys_opendir path) w) Q"
  by (rule ensures_sys, drule (1) owes_opened [where f = "Opened path"]; simp split: if_splits)+

lemma owes_close:
  "owes u (k # ks) w \<Longrightarrow> (\<And>a v. owes u ks v \<Longrightarrow> Q (a, v)) \<Longrightarrow> ensures (sys (Sys_close k) w) Q"
  "owes u (k # ks) w \<Longrightarrow> (\<And>a v. owes u ks v \<Longrightarrow> Q (a, v)) \<Longrightarrow> ensures (sys (Sys_fclose k) w) Q"
  "owes u (k # ks) w \<Longrightarrow> (\<And>v. owes u ks v \<Longrightarrow> R v) \<Longrightarrow> ensures (sysv (Sys_close k) w) R"
  "owes u (k # ks) w \<Longrightarrow> (\<And>v. owes u ks v \<Longrightarrow> R v) \<Longrightarrow> ensures (sysv (Sys_fclose k) w) R"
  "owes u (k # ks) w \<Longrightarrow> (\<And>v. owes u ks v \<Longrightarrow> R v) \<Longrightarrow> ensures (sysv (Sys_closedir k) w) R"
  by (auto intro!: ensures_sys ensures_sysv dest: owes_closed)

definition no_fd_call :: "syscall \<Rightarrow> bool" where
  "no_fd_call c \<longleftrightarrow> (\<forall>a t. fd_step c a t = Some t)"

lemma owes_call:
  "owes u ks w \<Longrightarrow> no_fd_call c \<Longrightarrow> (\<And>a v. owes u ks v \<Longrightarrow> Q (a, v)) \<Longrightarrow> ensures (sys c w) Q"
  "owes u ks w \<Longrightarrow> no_fd_call c \<Longrightarrow> (\<And>v. owes u ks v \<Longrightarrow> R v) \<Longrightarrow> ensures (sysv c w) R"
  by (auto simp: no_fd_call_def intro!: ensures_sys ensures_sysv dest: owes_neutral)

lemma sys_retry_owes:
  "owes u ks w \<Longrightarrow> no_fd_call c \<Longrightarrow> ensures (sys_retry c w) (\<lambda>(a, w'). owes u ks w')"
proof (induction w rule: script_induct)
  case (less w)
  show ?case
    by (subst sys_retry.simps, intro paths ensures_sys ensures_mono2 [OF less.IH])
      (use less.prems in \<open>auto simp: no_fd_call_def called_def dest: owes_neutral [of u ks w c]\<close>)
qed

lemmas owes_retry = ensures_mono2 [OF sys_retry_owes]

end
