(* ===== verification/Builtin_Descriptors.thy ===== *)
theory Builtin_Descriptors
  imports Builtin_Properties Descriptors
begin

text \<open>
  Every builtin leaves each descriptor as it was: whatever it opens, a file, a stream or a
  directory, it closes again, on every path, and it closes nothing else.
\<close>

section \<open>Calls that open and close nothing\<close>

lemma no_fd_calls:
  "no_fd_call (Sys_read k n)" "no_fd_call (Sys_write k s)" "no_fd_call Sys_nanosleep" "no_fd_call (Sys_fscanf n)"
  "no_fd_call (Sys_access p)" "no_fd_call Sys_ferror" "no_fd_call Sys_uname" "no_fd_call (Sys_gethostname n)"
  "no_fd_call Sys_sysconf" "no_fd_call (Sys_chdir p)" "no_fd_call Sys_getcwd" "no_fd_call (Sys_getenv p)"
  "no_fd_call (Sys_kill g sig)" "no_fd_call (Sys_waitpid g fl)" "no_fd_call (Sys_tcsetpgrp k g)"
  "no_fd_call (Sys_tcgetattr k)" "no_fd_call (Sys_tcsetattr k m)"
  by (simp_all add: no_fd_call_def)

lemmas owes_paths = paths ensures_option ensures_sum ensures_split no_fd_calls

named_theorems follows

lemma contras: "\<not> True \<Longrightarrow> P" "\<not> \<not> False \<Longrightarrow> P"
  by simp_all

lemmas [follows] = owes_open owes_close owes_call owes_retry

section \<open>Attribute files\<close>

lemma called_less: "called c a w v \<Longrightarrow> length (w_script v) < length (w_script w)"
  by (simp add: called_def)

lemma read_loop_owes:
  "owes u (fd # ks) w \<Longrightarrow> ensures (sysfs_read_loop fd room buffer w)
     (\<lambda>(complete, b, w'). owes u (if complete then fd # ks else ks) w')"
proof (induction w arbitrary: buffer rule: script_induct)
  case (less w)
  have read: "owes u (fd # ks) v" if "called (Sys_read fd n) a w v" for n a v
    using owes_neutral [OF less.prems that] by simp
  have again: "ensures (sysfs_read_loop fd room b v) (\<lambda>(complete, b, w'). owes u (if complete then fd # ks else ks) w')"
    if "called (Sys_read fd n) a w v" for n a v b
    using less.IH [OF called_less [OF that] read [OF that]] .
  have closed: "owes u ks x" if "called (Sys_read fd n) a w v" "called (Sys_close fd) b v x" for n a v b x
    using owes_closed [OF read [OF that(1)] that(2)] by simp
  show ?case
    by (subst sysfs_read_loop.simps, intro paths ensures_sys ensures_sysv)
      (use less.prems in \<open>auto intro: again read closed\<close>)
qed

lemma read_loop_follows:
  "owes u (fd # ks) w \<Longrightarrow> (\<And>b w'. owes u (fd # ks) w' \<Longrightarrow> Q (True, b, w')) \<Longrightarrow>
     (\<And>b w'. owes u ks w' \<Longrightarrow> Q (False, b, w')) \<Longrightarrow> ensures (sysfs_read_loop fd room buffer w) Q"
  apply (erule ensures_mono3 [OF read_loop_owes])
  subgoal for x b w' by (cases x) simp_all
  done

lemma sysfs_read_text_owes:
  "owes u ks w \<Longrightarrow> ensures (sysfs_read_text path room w) (\<lambda>(r, text, w'). owes u ks w')"
  unfolding sysfs_read_text_def
  by (erule (1) notE | erule contras | rule owes_paths | erule read_loop_follows follows | (simp; fail))+

lemmas [follows] = ensures_mono3 [OF sysfs_read_text_owes]

lemma sysfs_owes:
  "owes u ks w \<Longrightarrow> ensures (sysfs_read_long path w) (\<lambda>(v, w'). owes u ks w')"
  "owes u ks w \<Longrightarrow> ensures (sysfs_read_ulong path w) (\<lambda>(n, w'). owes u ks w')"
  "owes u ks w \<Longrightarrow> ensures (sysfs_read_ull path w) (\<lambda>(n, w'). owes u ks w')"
  "owes u ks w \<Longrightarrow> ensures (sysfs_write_text path value w) (\<lambda>(r, w'). owes u ks w')"
  unfolding sysfs_read_long_def sysfs_read_ulong_def sysfs_read_ull_def sysfs_write_text_def
  by (erule (1) notE | erule contras | rule owes_paths | erule follows | (simp; fail))+

lemmas [follows] = sysfs_owes [THEN ensures_mono2]

lemma led_reads_owes:
  "owes u ks w \<Longrightarrow> ensures (led_read_active_trigger name room w) (\<lambda>(t, w'). owes u ks w')"
  "owes u ks w \<Longrightarrow> ensures (led_read_max_brightness name w) (\<lambda>(m, w'). owes u ks w')"
  unfolding led_read_active_trigger_def led_read_max_brightness_def
  by (erule (1) notE | erule contras | rule owes_paths | erule follows | (simp; fail))+

lemmas [follows] = led_reads_owes [THEN ensures_mono2]

lemma led_writes_owes:
  "owes u ks w \<Longrightarrow> ensures (led_write_trigger name t w) (\<lambda>(r, w'). owes u ks w')"
  "owes u ks w \<Longrightarrow> ensures (led_write_brightness name v w) (\<lambda>(b, w'). owes u ks w')"
  unfolding led_write_trigger_def led_write_brightness_def
  by (erule (1) notE | erule contras | rule owes_paths | erule follows | (simp; fail))+

lemmas [follows] = led_writes_owes [THEN ensures_mono2]

lemma led_control_owes:
  "owes u ks w \<Longrightarrow> ensures (led_control_set_on name w) (\<lambda>(r, w'). owes u ks w')"
  "owes u ks w \<Longrightarrow> ensures (led_control_set_off name w) (\<lambda>(r, w'). owes u ks w')"
  "owes u ks w \<Longrightarrow> ensures (led_control_set_trigger name t w) (\<lambda>(r, w'). owes u ks w')"
  unfolding led_control_set_on_def led_control_set_off_def led_control_set_trigger_def
  by (erule (1) notE | erule contras | rule owes_paths | erule follows | (simp; fail))+

lemmas [follows] = led_control_owes [THEN ensures_mono2]

section \<open>Directories\<close>

lemma attr_owes:
  "owes u ks w \<Longrightarrow> ensures (attr_text base name file room w) (\<lambda>(t, w'). owes u ks w')"
  "owes u ks w \<Longrightarrow> ensures (attr_long base name file w) (\<lambda>(l, w'). owes u ks w')"
  "owes u ks w \<Longrightarrow> ensures (attr_ulong base name file w) (\<lambda>(n, w'). owes u ks w')"
  "owes u ks w \<Longrightarrow> ensures (attr_ull base name file w) (\<lambda>(m, w'). owes u ks w')"
  unfolding attr_text_def attr_long_def attr_ulong_def attr_ull_def
  by (erule (1) notE | erule contras | rule owes_paths | erule follows | (simp; fail))+

lemmas [follows] = attr_owes [THEN ensures_mono2]

text \<open>A directory whose entries are looked at by a probe that closes what it opens.\<close>

definition probe_owes :: "(string \<Rightarrow> world \<Rightarrow> ('a option \<times> world) option) \<Rightarrow> bool" where
  "probe_owes probe \<longleftrightarrow> (\<forall>name u ks w. owes u ks w \<longrightarrow> ensures (probe name w) (\<lambda>(x, w'). owes u ks w'))"

lemma probe_owesI:
  "(\<And>name u ks w. owes u ks w \<Longrightarrow> ensures (probe name w) (\<lambda>(x, w'). owes u ks w')) \<Longrightarrow> probe_owes probe"
  by (simp add: probe_owes_def)

lemma probe_follows:
  "probe_owes probe \<Longrightarrow> owes u ks w \<Longrightarrow> (\<And>x v. owes u ks v \<Longrightarrow> Q (x, v)) \<Longrightarrow> ensures (probe name w) Q"
  unfolding probe_owes_def by (fastforce elim!: ensures_mono2)

lemma entries_owes:
  "probe_owes probe \<Longrightarrow> owes u ks w \<Longrightarrow>
     ensures (collect_entries keep limit probe names found w) (\<lambda>(xs, w'). owes u ks w')"
proof (induction names arbitrary: found w)
  case (Cons name names)
  then show ?case
    unfolding collect_entries.simps by (intro paths probe_follows [OF Cons.prems(1)]) auto
qed (simp add: ensures_def)

lemma directory_owes:
  assumes "probe_owes probe" and "owes u ks w"
  shows "ensures (collect_directory base keep limit probe w) (\<lambda>(found, w'). owes u ks w')"
  unfolding collect_directory_def
  by (insert assms(2), (erule (1) notE | erule contras | rule owes_paths | erule ensures_mono2 [OF entries_owes [OF assms(1)]] follows | (simp; fail))+)

lemmas directory_follows = ensures_mono2 [OF directory_owes]

lemma led_trigger_owes:
  "owes u ks w \<Longrightarrow> ensures (read_led_trigger path room w) (\<lambda>(r, w'). owes u ks w')"
  unfolding read_led_trigger_def
  by (erule (1) notE | erule contras | rule owes_paths | erule follows | (simp; fail))+

lemmas [follows] = led_trigger_owes [THEN ensures_mono2]

lemma probes_owe:
  "probe_owes (thermal_probe base)" "probe_owes (network_probe base)" "probe_owes (hw_thermal_probe base)"
  "probe_owes (cpu_policy_probe base)" "probe_owes (hw_network_probe base)" "probe_owes (led_probe base)"
  unfolding thermal_probe_def network_probe_def hw_thermal_probe_def cpu_policy_probe_def hw_network_probe_def
    led_probe_def
  by (rule probe_owesI | erule (1) notE | erule contras | rule owes_paths | erule follows | (simp; fail))+

lemmas [follows] = probes_owe [THEN directory_follows]

lemma collect_from_owes:
  "owes u ks w \<Longrightarrow> ensures (thermal_monitor_collect_from base w) (\<lambda>(r, zs, w'). owes u ks w')"
  "owes u ks w \<Longrightarrow> ensures (network_monitor_collect_from base w) (\<lambda>(r, is, w'). owes u ks w')"
  unfolding thermal_monitor_collect_from_def network_monitor_collect_from_def
  by (erule (1) notE | erule contras | rule owes_paths | erule follows | (simp; fail))+

lemmas [follows] = collect_from_owes [THEN ensures_mono3]

lemma collect_owes:
  "owes u ks w \<Longrightarrow> ensures (collect_thermal w) (\<lambda>(zs, w'). owes u ks w')"
  "owes u ks w \<Longrightarrow> ensures (collect_cpu_frequency w) (\<lambda>(ps, w'). owes u ks w')"
  "owes u ks w \<Longrightarrow> ensures (collect_network w) (\<lambda>(is, w'). owes u ks w')"
  "owes u ks w \<Longrightarrow> ensures (collect_leds w) (\<lambda>(ls, w'). owes u ks w')"
  unfolding collect_thermal_def collect_cpu_frequency_def collect_network_def collect_leds_def
  by (erule (1) notE | erule contras | rule owes_paths | erule follows | (simp; fail))+

lemmas [follows] = collect_owes [THEN ensures_mono2]

lemma collect_all_owes:
  "owes u ks w \<Longrightarrow> ensures (thermal_monitor_collect w) (\<lambda>(r, zs, w'). owes u ks w')"
  "owes u ks w \<Longrightarrow> ensures (network_monitor_collect w) (\<lambda>(r, is, w'). owes u ks w')"
  "owes u ks w \<Longrightarrow> ensures (hardware_info_collect w) (\<lambda>(r, info, w'). owes u ks w')"
  unfolding thermal_monitor_collect_def network_monitor_collect_def hardware_info_collect_def
  by (erule (1) notE | erule contras | rule owes_paths | erule follows | (simp; fail))+

lemmas [follows] = collect_all_owes [THEN ensures_mono3]

section \<open>Streams\<close>

lemma readings_owe:
  "owes u ks w \<Longrightarrow> ensures (read_cpu_snapshot w) (\<lambda>(c, w'). owes u ks w')"
  "owes u ks w \<Longrightarrow> ensures (wait_cpu_sample w) (\<lambda>(r, w'). owes u ks w')"
  "owes u ks w \<Longrightarrow> ensures (read_memory w) (\<lambda>(m, w'). owes u ks w')"
  "owes u ks w \<Longrightarrow> ensures (scan_doubles path n w) (\<lambda>(d, w'). owes u ks w')"
  "owes u ks w \<Longrightarrow> ensures (read_process_count w) (\<lambda>(p, w'). owes u ks w')"
  unfolding read_cpu_snapshot_def wait_cpu_sample_def read_memory_def scan_doubles_def read_process_count_def
  by (erule (1) notE | erule contras | rule owes_paths | erule follows | (simp; fail))+

lemmas [follows] = readings_owe [THEN ensures_mono2]

lemma monitors_owe:
  "owes u ks w \<Longrightarrow> ensures (read_cpu w) (\<lambda>(c, w'). owes u ks w')"
  "owes u ks w \<Longrightarrow> ensures (read_load w) (\<lambda>(l, w'). owes u ks w')"
  "owes u ks w \<Longrightarrow> ensures (read_uptime w) (\<lambda>(d, w'). owes u ks w')"
  unfolding read_cpu_def read_load_def read_uptime_def
  by (erule (1) notE | erule contras | rule owes_paths | erule follows | (simp; fail))+

lemmas [follows] = monitors_owe [THEN ensures_mono2]

lemma runtime_monitor_owes:
  "owes u ks w \<Longrightarrow> ensures (runtime_monitor_collect w) (\<lambda>(m, w'). owes u ks w')"
  unfolding runtime_monitor_collect_def
  by (erule (1) notE | erule contras | rule owes_paths | erule follows | (simp; fail))+

lemmas [follows] = runtime_monitor_owes [THEN ensures_mono2]

lemma snapshot_owes:
  "owes u ks w \<Longrightarrow> ensures (runtime_snapshot_collect w) (\<lambda>(r, s, w'). owes u ks w')"
  unfolding runtime_snapshot_collect_def
  by (erule (1) notE | erule contras | rule owes_paths | erule follows | (simp; fail))+

lemmas [follows] = snapshot_owes [THEN ensures_mono3]

lemma tree_parts_owe:
  "owes u ks w \<Longrightarrow> ensures (read_property path room w) (\<lambda>(b, w'). owes u ks w')"
  unfolding read_property_def
  by (erule (1) notE | erule contras | rule owes_paths | erule follows | (simp; fail))+

lemmas [follows] = tree_parts_owe [THEN ensures_mono2]

lemma tree_owes:
  "owes u ks w \<Longrightarrow> ensures (device_tree_collect w) (\<lambda>(r, info, w'). owes u ks w')"
  unfolding device_tree_collect_def collect_model_def collect_compatible_def collect_bootargs_def
  by (erule (1) notE | erule contras | rule owes_paths | erule follows | (simp; fail))+

lemmas [follows] = tree_owes [THEN ensures_mono3]

lemma soc_probe_owes:
  "owes u ks w \<Longrightarrow> ensures (soc_probe name w) (\<lambda>(t, w'). owes u ks w')"
  unfolding soc_probe_def
  by (erule (1) notE | erule contras | rule owes_paths | erule follows | (simp; fail))+

lemmas [follows] = soc_probe_owes [THEN ensures_mono2]

lemma soc_search_owes: "owes u ks w \<Longrightarrow> ensures (soc_search names w) (\<lambda>(t, w'). owes u ks w')"
proof (induction names arbitrary: w)
  case (Cons name names)
  show ?case
    unfolding soc_search.simps
    by (insert Cons.prems, (erule (1) notE | erule contras | rule owes_paths | erule Cons.IH follows | (simp; fail))+)
qed (simp add: ensures_def)

lemmas [follows] = soc_search_owes [THEN ensures_mono2]

lemma system_parts_owe:
  "owes u ks w \<Longrightarrow> ensures (read_device_tree_model room w) (\<lambda>(b, w'). owes u ks w')"
  "owes u ks w \<Longrightarrow> ensures (get_cpu_info w) (\<lambda>(c, w'). owes u ks w')"
  "owes u ks w \<Longrightarrow> ensures (get_mem_info w) (\<lambda>(m, w'). owes u ks w')"
  "owes u ks w \<Longrightarrow> ensures (get_uptime_info w) (\<lambda>(d, w'). owes u ks w')"
  "owes u ks w \<Longrightarrow> ensures (get_thermal_info w) (\<lambda>(t, w'). owes u ks w')"
  unfolding read_device_tree_model_def get_cpu_info_def get_mem_info_def get_uptime_info_def get_thermal_info_def
  by (erule (1) notE | erule contras | rule owes_paths | erule follows | (simp; fail))+

lemmas [follows] = system_parts_owe [THEN ensures_mono2]

lemma system_info_owes:
  "owes u ks w \<Longrightarrow> ensures (system_info_collect w) (\<lambda>(r, w'). owes u ks w')"
  unfolding system_info_collect_def
  by (erule (1) notE | erule contras | rule owes_paths | erule follows | (simp; fail))+

lemmas [follows] = system_info_owes [THEN ensures_mono2]

lemma process_get_owes:
  "owes u ks w \<Longrightarrow> ensures (process_monitor_get pid w) (\<lambda>(r, w'). owes u ks w')"
  unfolding process_monitor_get_def
  by (erule (1) notE | erule contras | rule owes_paths | erule follows | (simp; fail))+

lemmas [follows] = process_get_owes [THEN ensures_mono2]

text \<open>Allocations and other steps that make no call.\<close>

lemma silent_follows:
  assumes "\<And>x v. m = (x, v) \<Longrightarrow> w_trace v = w_trace w" and "owes u ks w"
    and "\<And>x v. owes u ks v \<Longrightarrow> ensures (f x v) Q"
  shows "ensures (case m of (x, v) \<Rightarrow> f x v) Q"
  by (cases m) (use assms owes_trace [of "snd m" w u ks] in simp)

lemma realloc_trace: "realloc w = (got, v) \<Longrightarrow> w_trace v = w_trace w"
  by (auto simp: realloc_def malloc_def split: list.splits if_splits)

lemma malloc_follows:
  "owes u ks w \<Longrightarrow> (\<And>got v. owes u ks v \<Longrightarrow> ensures (f got v) Q) \<Longrightarrow>
     ensures (case malloc w of (got, v) \<Rightarrow> f got v) Q"
  "owes u ks w \<Longrightarrow> (\<And>got v. owes u ks v \<Longrightarrow> ensures (f got v) Q) \<Longrightarrow>
     ensures (case realloc w of (got, v) \<Rightarrow> f got v) Q"
  using silent_follows [of "malloc w" w] silent_follows [of "realloc w" w] malloc_script realloc_trace by blast+

lemma owes_realloc [simp]: "owes u ks (snd (realloc w)) = owes u ks w"
  using realloc_trace [of w "fst (realloc w)" "snd (realloc w)"] by (intro owes_trace) simp

lemma process_entries_owes:
  "owes u ks w \<Longrightarrow> ensures (process_entries names result capacity w) (\<lambda>(r, w'). owes u ks w')"
proof (induction names arbitrary: result capacity w)
  case (Cons name names)
  show ?case
    unfolding process_entries.simps
    by (insert Cons.prems, (erule (1) notE | erule contras | erule malloc_follows | rule owes_paths
        | erule Cons.IH follows | (simp; fail))+)
qed (simp add: ensures_def)

lemma process_collect_owes:
  "owes u ks w \<Longrightarrow> ensures (process_monitor_collect w) (\<lambda>(r, list, w'). owes u ks w')"
  unfolding process_monitor_collect_def
  by (erule (1) notE | erule contras | erule malloc_follows | rule owes_paths
      | erule ensures_mono2 [OF process_entries_owes] follows | (simp; fail))+

lemmas [follows] = process_collect_owes [THEN ensures_mono3]

section \<open>The configuration\<close>

lemma config_lines_follows:
  "owes u ks w \<Longrightarrow> (\<And>r c' v. owes u ks v \<Longrightarrow> ensures (f r c' v) Q) \<Longrightarrow>
     ensures (case config_lines n data c w of (r, c', v) \<Rightarrow> f r c' v) Q"
proof (cases "config_lines n data c w")
  case (fields r c' v)
  then have "w_trace v = w_trace w" using config_lines_run by blast
  from owes_trace [OF this, of u ks] fields
  show "owes u ks w \<Longrightarrow> (\<And>r c' v. owes u ks v \<Longrightarrow> ensures (f r c' v) Q) \<Longrightarrow> ?thesis" by simp
qed

lemma stream_check_owes: "owes u ks w \<Longrightarrow> ensures (stream_check f r w) (\<lambda>(r', w'). owes u ks w')"
  unfolding stream_check_def
  by (erule (1) notE | erule contras | rule owes_paths | erule follows | (simp; fail))+

lemma stream_close_owes: "owes u (k # ks) w \<Longrightarrow> ensures (stream_close k f r w) (\<lambda>(r', w'). owes u ks w')"
  unfolding stream_close_def
  by (erule (1) notE | erule contras | rule owes_paths | erule follows | (simp; fail))+

lemma config_load_owes: "owes u ks w \<Longrightarrow> ensures (config_load c f w) (\<lambda>(r, c', w'). owes u ks w')"
  unfolding config_load_def Let_def
  by (erule (1) notE | erule contras | erule config_lines_follows | rule owes_paths
      | erule ensures_mono2 [OF stream_check_owes] ensures_mono2 [OF stream_close_owes] follows | (simp; fail))+

lemmas [follows] = config_load_owes [THEN ensures_mono3]

section \<open>Jobs and the terminal\<close>

lemma terminal_owes:
  "owes u ks w \<Longrightarrow> ensures (terminal_set_pgrp g w) (\<lambda>(r, w'). owes u ks w')"
  "owes u ks w \<Longrightarrow> ensures (terminal_set_modes m w) (\<lambda>(s, w'). owes u ks w')"
  unfolding terminal_set_pgrp_def terminal_set_modes_def
  by (erule (1) notE | erule contras | rule owes_paths | erule follows | (simp; fail))+

lemmas [follows] = terminal_owes [THEN ensures_mono2]

lemma foreground_owes:
  "owes u ks w \<Longrightarrow> ensures (terminal_set_foreground g w) (\<lambda>(r, w'). owes u ks w')"
  "owes u ks w \<Longrightarrow> ensures (terminal_restore w) (\<lambda>(s, w'). owes u ks w')"
  unfolding terminal_set_foreground_def terminal_restore_def
  by (erule (1) notE | erule contras | rule owes_paths | erule follows | (simp; fail))+

lemmas [follows] = foreground_owes [THEN ensures_mono2]

lemma modes_owe:
  "owes u ks w \<Longrightarrow> ensures (terminal_get_modes m w) (\<lambda>(r, k, w'). owes u ks w')"
  "owes u ks w \<Longrightarrow> ensures (job_continue j w) (\<lambda>(s, j, w'). owes u ks w')"
  unfolding terminal_get_modes_def job_continue_def
  by (erule (1) notE | erule contras | rule owes_paths | erule follows | (simp; fail))+

lemmas [follows] = modes_owe [THEN ensures_mono3]

lemma restore_logged [follows]:
  "owes u ks w \<Longrightarrow> (\<And>r v. owes u ks v \<Longrightarrow> Q (r, v)) \<Longrightarrow> ensures (terminal_restore (log_error m w)) Q"
  by (rule ensures_mono2 [OF foreground_owes(2)]) simp_all

lemma wait_loop_owes: "owes u ks w \<Longrightarrow> ensures (job_wait_loop j w) (\<lambda>(r, j', w'). owes u ks w')"
proof (induction w arbitrary: j rule: script_induct)
  case (less w)
  have wait: "owes u ks v" if "called (Sys_waitpid g fl) a w v" for g fl a v
    using owes_neutral [OF less.prems that] by simp
  have again: "ensures (job_wait_loop i v) (\<lambda>(r, j', w'). owes u ks w')"
    if "called (Sys_waitpid g fl) a w v" for g fl a v i
    using less.IH [OF called_less [OF that] wait [OF that]] .
  show ?case
    by (subst job_wait_loop.simps, intro paths ensures_option ensures_sys)
      (use less.prems in \<open>auto intro: again wait\<close>)
qed

lemma wait_owes: "owes u ks w \<Longrightarrow> ensures (job_wait_foreground j w) (\<lambda>(r, j', w'). owes u ks w')"
  unfolding job_wait_foreground_def by (intro paths wait_loop_owes) simp_all

lemmas [follows] = wait_owes [THEN ensures_mono3]

lemma ctx_remove_follows:
  "owes u ks w \<Longrightarrow> (\<And>c v. owes u ks v \<Longrightarrow> ensures (f c v) Q) \<Longrightarrow>
     ensures (case ctx_remove g ctx w of (c, v) \<Rightarrow> f c v) Q"
  using remove_job_frees [of g "jobs (ctx_jobs ctx)" w]
  by (auto simp: ctx_remove_def job_remove_def split: if_splits prod.splits)

lemma fg_finish_owes: "owes u ks w \<Longrightarrow> ensures (fg_finish i job ctx w) (\<lambda>(r, ctx', w'). owes u ks w')"
  unfolding fg_finish_def Let_def
  by (erule (1) notE | erule contras | erule ctx_remove_follows | rule owes_paths | erule follows | (simp; fail))+

lemmas [follows] = fg_finish_owes [THEN ensures_mono3]

lemma fg_job_owes:
  "owes u ks w \<Longrightarrow> ensures (fg_job i ctx w) (\<lambda>(r, ctx', w'). owes u ks w')"
  unfolding fg_job_def
  by (erule (1) notE | erule contras | rule owes_paths | erule follows | (simp; fail))+

lemmas [follows] = fg_job_owes [THEN ensures_mono3]

section \<open>The table\<close>

text \<open>\<open>tidy handle\<close>: the handler closes exactly what it opens.\<close>

definition tidy :: "handler \<Rightarrow> bool" where
  "tidy handle \<longleftrightarrow> (\<forall>u ks cmd ctx w. owes u ks w \<longrightarrow> ensures (handle cmd ctx w) (\<lambda>(r, ctx', w'). owes u ks w'))"

lemma tidyI:
  "(\<And>u ks cmd ctx w. owes u ks w \<Longrightarrow> ensures (handle cmd ctx w) (\<lambda>(r, ctx', w'). owes u ks w')) \<Longrightarrow> tidy handle"
  by (simp add: tidy_def)

lemma owes_printed [simp]:
  "owes u ks (printf_all xs w) = owes u ks w" "owes u ks (system_info_print si w) = owes u ks w"
  "owes u ks (device_tree_print dt w) = owes u ks w" "owes u ks (hardware_info_print hw w) = owes u ks w"
  by (rule owes_trace; simp add: system_info_print_def device_tree_print_def hardware_info_print_def)+

lemma owes_list_jobs [simp]: "owes u ks (list_jobs js w) = owes u ks w"
  by (induction js arbitrary: w) (simp_all add: Let_def split: JobStatus.split)

lemma led_lists_owe:
  "owes u ks w \<Longrightarrow> ensures (builtin_led_list w) (\<lambda>(r, w'). owes u ks w')"
  "owes u ks w \<Longrightarrow> ensures (builtin_led_info name w) (\<lambda>(s, w'). owes u ks w')"
  unfolding builtin_led_list_def builtin_led_info_def
  by (erule (1) notE | erule contras | rule owes_paths | erule follows | (simp; fail))+

lemmas [follows] = led_lists_owe [THEN ensures_mono2]

lemma change_directory_owes:
  "owes u ks w \<Longrightarrow> ensures (change_directory d ctx w) (\<lambda>(r, ctx', w'). owes u ks w')"
  unfolding change_directory_def
  by (erule (1) notE | erule contras | rule owes_paths | erule follows | (simp; fail))+

lemma builtins_tidy:
  "tidy builtin_cd" "tidy builtin_pwd" "tidy builtin_exit" "tidy builtin_jobs" "tidy builtin_help"
  "tidy builtin_status" "tidy builtin_sysinfo" "tidy builtin_monitor" "tidy builtin_psinfo" "tidy builtin_dtinfo"
  "tidy builtin_hwinfo" "tidy builtin_led" "tidy builtin_fg" "tidy builtin_bg" "tidy builtin_reload"
  unfolding builtin_cd_def builtin_pwd_def builtin_exit_def builtin_jobs_def builtin_help_def builtin_status_def
    builtin_sysinfo_def builtin_monitor_def cmd_monitor_def builtin_psinfo_def cmd_psinfo_def builtin_dtinfo_def
    builtin_hwinfo_def builtin_led_def builtin_fg_def builtin_bg_def builtin_reload_def Let_def
    job_list_def process_monitor_free_def
  by (rule tidyI | erule (1) notE | erule contras | rule owes_paths | erule change_directory_owes follows | (simp; fail))+

lemma builtin_table_tidy: "builtin_lookup name = Some handle \<Longrightarrow> tidy handle"
  by (drule builtin_lookup_table) (auto simp: builtin_table_def builtins_tidy)

end
