(* ===== verification/Dispatcher_Properties.thy ===== *)
theory Dispatcher_Properties
  imports Dispatcher Builtin_Descriptors
begin

text \<open>
  What the shell's loop relies on when it hands a command line to \<^verbatim>\<open>dispatcher_command\<close>, and that
  the redirections of a builtin are undone.
\<close>

section \<open>The contract of a command line\<close>

text \<open>
  \<open>served ctx r ctx'\<close>: what one command line may do to the context. The job table gains one job at
  most; the line being typed and the last status are the loop's business.
\<close>

definition served :: "ShellContext \<Rightarrow> int \<Rightarrow> ShellContext \<Rightarrow> bool" where
  "served ctx r ctx' \<longleftrightarrow>
     last_exit_status ctx' = last_exit_status ctx \<and> config_file ctx' = config_file ctx \<and>
     input_buffer ctx' = input_buffer ctx \<and> input_discarding ctx' = input_discarding ctx \<and>
     (config_ok (config ctx) \<longrightarrow> config_ok (config ctx')) \<and> (running ctx' \<longrightarrow> running ctx) \<and>
     length (jobs (ctx_jobs ctx')) \<le> length (jobs (ctx_jobs ctx)) + 1 \<and>
     (last_exit_status ctx \<le> 255 \<longrightarrow> r \<le> 255)"

lemma served_refl: "r \<le> 255 \<Longrightarrow> served ctx r ctx"
  by (simp add: served_def)

lemma served_stopped: "r \<le> 255 \<Longrightarrow> served ctx r (ctx\<lparr>running := False\<rparr>)"
  by (simp add: served_def)

lemma settled_served: "settled ctx r ctx' \<Longrightarrow> served ctx r ctx'"
  by (simp add: settled_def served_def)

lemma served_stop: "settled ctx r ctx' \<Longrightarrow> s \<le> 255 \<Longrightarrow> served ctx s (ctx'\<lparr>running := False\<rparr>)"
  by (simp add: served_def settled_def)

lemma served_result: "served ctx r ctx' \<Longrightarrow> s \<le> 255 \<Longrightarrow> served ctx s ctx'"
  by (simp add: served_def)

lemma kept_ran_served: "kept ctx ctx' \<Longrightarrow> ran ctx r ctx' \<Longrightarrow> served ctx r ctx'"
  by (auto simp: kept_def ran_def served_def)

definition dispatch_ok :: "int \<Rightarrow> ShellContext \<Rightarrow> world \<Rightarrow> int \<times> ShellContext \<times> world \<Rightarrow> bool" where
  "dispatch_ok n ctx w res \<longleftrightarrow>
     (case res of (r, ctx', w') \<Rightarrow>
        beside_std (\<lambda>_. 0) w w' \<and> table_inv n (ctx_jobs ctx') w' \<and> served ctx r ctx')"

lemma inv_live: "table_inv n m w \<Longrightarrow> w_live v = w_live w \<Longrightarrow> table_inv n m v"
  by (simp add: table_inv_def)

lemma aside_inv: "aside d w v \<Longrightarrow> table_inv n m w \<Longrightarrow> table_inv n m v"
  by (auto simp: aside_def intro: inv_live)

lemma calm_aside: "calm w v \<Longrightarrow> aside (\<lambda>_. 0) w v"
  by (simp add: aside_def beside_std_def calm_moves moves_iff)

lemma aside_cancel:
  "aside (\<lambda>fd. one_fd so fd + one_fd si fd) w v \<Longrightarrow> aside (\<lambda>fd. - one_fd so fd - one_fd si fd) v u \<Longrightarrow>
     aside (\<lambda>_. 0) w u"
  by (auto simp: aside_def beside_std_def intro: same_statics_trans)

lemma beside_cancel:
  "aside (\<lambda>fd. one_fd so fd + one_fd si fd) w v \<Longrightarrow> fds_by (\<lambda>_. 0) v x \<Longrightarrow> calm x y \<Longrightarrow>
     aside (\<lambda>fd. - one_fd so fd - one_fd si fd) y u \<Longrightarrow> beside_std (\<lambda>_. 0) w u"
  by (auto simp: aside_def beside_std_def fds_by_def calm_moves moves_iff intro: same_statics_trans)

lemma check_output_eff: "ensures (check_output r w) (\<lambda>(r', w'). calm w w' \<and> (r' = r \<or> r' = ERR_UNKNOWN))"
  unfolding check_output_def by (intro vcg ensures_option) (auto simp: effects)

context builtin_set begin

lemma handler_eff:
  assumes "lookup name = Some handle" and "table_inv n (ctx_jobs ctx) w"
  shows "ensures (handle cmd ctx w) (\<lambda>(r, ctx', w').
     fds_by (\<lambda>_. 0) w w' \<and> table_inv n (ctx_jobs ctx') w' \<and> settled ctx r ctx')"
  using contract [OF assms] by (simp add: builtin_ok_def [abs_def])

lemma dispatch_eff:
  assumes "lookup name = Some handle" and inv: "table_inv n (ctx_jobs ctx) w"
  shows "ensures (dispatch_builtin handle cmd ctx w) (dispatch_ok n ctx w)"
  unfolding dispatch_builtin_def
proof (intro paths ensures_mono4 [OF apply_redirect_eff] ensures_mono2 [OF restore_redirect_eff]
    ensures_mono2 [OF check_output_eff] ensures_mono3 [OF handler_eff [OF assms(1), where n = n]], goal_cases)
  case (1 r so si w1 r' w2)
  then have "aside (\<lambda>_. 0) w w2" by (blast intro: aside_cancel)
  with inv 1 show ?case
    by (auto simp: dispatch_ok_def aside_def intro: inv_live served_refl served_stopped)
next
  case (2 r so si w1)
  then show ?case using inv by (auto intro: aside_inv)
next
  case (3 r so si w1 r2 ctx' w2 r3 w3 r4 w4)
  then have "beside_std (\<lambda>_. 0) w w4" by (blast intro: beside_cancel)
  moreover have "w_live w4 = w_live w2" using 3 by (simp add: aside_def calm_moves moves_iff)
  ultimately show ?case using 3
    by (auto simp: dispatch_ok_def intro: inv_live served_stop)
next
  case (4 r so si w1 r2 ctx' w2 r3 w3 r4 w4)
  then have "beside_std (\<lambda>_. 0) w w4" by (blast intro: beside_cancel)
  moreover have "w_live w4 = w_live w2" using 4 by (simp add: aside_def calm_moves moves_iff)
  moreover have "served ctx r3 ctx'"
    using 4 settled_served [of ctx r2 ctx'] by (auto intro: served_result)
  ultimately show ?case using 4 by (auto simp: dispatch_ok_def intro: inv_live)
qed

end


text \<open>A whole command line, whichever way it goes.\<close>

definition line_ok :: "int \<Rightarrow> ShellContext \<Rightarrow> world \<Rightarrow> (int \<times> ShellContext) outcome \<times> world \<Rightarrow> bool" where
  "line_ok n ctx w res \<longleftrightarrow>
     (\<forall>r ctx'. fst res = Parent (r, ctx') \<longrightarrow> dispatch_ok n ctx w (r, ctx', snd res))"

lemma line_ok_parent [simp]: "line_ok n ctx w (Parent (r, ctx'), w') = dispatch_ok n ctx w (r, ctx', w')"
  by (simp add: line_ok_def)

lemma parent_line_ok: "parent_ok n ctx w res \<Longrightarrow> line_ok n ctx w res"
  by (auto simp: parent_ok_def line_ok_def dispatch_ok_def intro: fds_by_beside kept_ran_served)

lemma refused_ok:
  "table_inv n (ctx_jobs ctx) w \<Longrightarrow> calm w v \<Longrightarrow> r \<le> 255 \<Longrightarrow> dispatch_ok n ctx w (r, ctx, v)"
  by (auto simp: dispatch_ok_def served_refl intro: inv_kept fds_by_beside calm_fds_by)

lemma dispatcher_command_eff:
  assumes "table_inv n (ctx_jobs ctx) w"
  shows "ensures (dispatcher_command cs ctx w) (line_ok n ctx w)"
proof -
  have run: "ensures (execute_command l ctx w) (line_ok n ctx w)" for l
    by (rule ensures_mono [OF execute_command_eff [OF assms] parent_line_ok])
  have builtin: "ensures (dispatch_builtin handle cmd ctx w) (\<lambda>(r, ctx', w'). dispatch_ok n ctx w (r, ctx', w'))"
    if "builtin_lookup name = Some handle" for name handle cmd
    using builtins.dispatch_eff [OF that assms] by (simp add: case_prod_beta')
  show ?thesis
    unfolding dispatcher_command_def
    by (cases cs) (auto simp del: execute_command.simps split: option.splits intro!: vcg run ensures_mono3 [OF builtin] refused_ok [OF assms])
qed


section \<open>Redirections and the table of descriptors\<close>

lemma dup2_turns:
  "ensures (dup2_retry p q w) (\<lambda>(r, w'). turns (\<lambda>t t'. if r < 0 then t' = t else t' = t(q := t p)) w w')"
  unfolding dup2_retry_def
  by (intro paths ensures_mono2 [OF sys_retry_turns]) (auto elim!: turns_mono split: if_splits)

lemma dup_cloexec_turns:
  "ensures (dup_cloexec k w) (\<lambda>(s, w'). turns (\<lambda>t t'. if s < 0 then t' = t
     else 3 \<le> s \<and> t s = None \<and> t k \<noteq> None \<and> t' = t(s := t k)) w w')"
  unfolding dup_cloexec_def
  by (intro paths ensures_sys) (auto dest!: called_turns elim!: turns_mono split: if_splits)

lemma stdout_failed_turns: "ensures (stdout_failed m w) (\<lambda>(b, w'). turns (=) w w')"
  unfolding stdout_failed_def
  by (intro paths ensures_sys)
    (auto dest!: called_turns dest: turns_trans elim!: turns_mono simp: relcompp_apply)


lemma open_over_turns:
  "ensures (open_over path flags target e1 e2 w) (\<lambda>(r, w'). turns (keep_fds {target}) w w')"
  unfolding open_over_def
proof (intro paths ensures_sys ensures_sysv ensures_mono2 [OF dup2_turns], goal_cases)
  case (1 a v)
  then show ?case by (auto dest!: called_turns elim!: turns_mono simp: keep_fds_def)
next
  case (2 a v r x b y)
  have "turns (\<lambda>t t'. t' = t(a_ret a := Some (Opened path)) \<and> t (a_ret a) = None) w v"
    using 2 by (auto dest!: called_turns elim!: turns_mono split: if_splits)
  then have again: "turns (\<lambda>t t'. t' = t(a_ret a := Some (Opened path)) \<and> t (a_ret a) = None) w x"
    by (rule turns_comp [OF _ 2(4)]) (use 2 in auto)
  have "turns (keep_fds {target}) w y" by (rule turns_then [OF again 2(6)]) (auto simp: keep_fds_def)
  then show ?case by simp
next
  case (3 a v r x b y c z)
  have "turns (\<lambda>t t'. t' = t(a_ret a := Some (Opened path)) \<and> t (a_ret a) = None) w v"
    using 3 by (auto dest!: called_turns elim!: turns_mono split: if_splits)
  then have over: "turns (\<lambda>t t'. \<exists>f. t' = t(a_ret a := Some (Opened path), target := f) \<and> t (a_ret a) = None) w x"
    by (rule turns_comp [OF _ 3(4)]) (use 3 in auto)
  have kept: "turns (keep_fds {target}) w y" by (rule turns_then [OF over 3(6)]) (auto simp: keep_fds_def)
  have "turns (keep_fds {target}) w z" by (rule turns_then [OF kept 3(7)]) simp
  then show ?case by simp
next
  case (4 a v b y)
  then have kept: "turns (keep_fds {target}) w v"
    by (auto dest!: called_turns elim!: turns_mono simp: keep_fds_def split: if_splits)
  have "turns (keep_fds {target}) w y" by (rule turns_then [OF kept 4(4)]) simp
  then show ?case by simp
qed


text \<open>A redirection of \<open>target\<close> with its old file saved at \<open>s\<close>, and its undoing.\<close>

definition saved :: "int \<Rightarrow> int \<Rightarrow> fd_table \<Rightarrow> fd_table \<Rightarrow> bool" where
  "saved target s t t' \<longleftrightarrow>
     (if s < 0 then keep_fds {} t t'
      else 3 \<le> s \<and> t s = None \<and> t target \<noteq> None \<and> t' s = t target \<and> keep_fds {target} t t')"

definition restored :: "int \<Rightarrow> int \<Rightarrow> fd_table \<Rightarrow> fd_table \<Rightarrow> bool" where
  "restored s target t t' \<longleftrightarrow> (if s < 0 then t' = t else t' = t(target := t s, s := None))"

lemma apply_input_turns:
  "ensures (apply_input file w) (\<lambda>(r, s, w'). turns (saved STDIN_FILENO s) w w')"
  unfolding apply_input_def
proof (intro paths ensures_mono2 [OF dup_cloexec_turns] ensures_mono2 [OF open_over_turns], goal_cases)
  case (1 s v)
  then have "turns (saved STDIN_FILENO s) w v" by (auto simp: saved_def elim: turns_mono)
  then show ?case by simp
next
  case (2 s v r u)
  then have "turns (saved STDIN_FILENO s) w u"
    by (intro turns_comp [OF 2(1,3)]) (auto simp: saved_def keep_fds_def)
  then show ?case by simp
qed

lemma apply_output_turns:
  "ensures (apply_output file to_end w) (\<lambda>(r, s, w'). turns (saved STDOUT_FILENO s) w w')"
  unfolding apply_output_def
proof (intro paths ensures_option ensures_sysv ensures_mono2 [OF dup_cloexec_turns] ensures_mono2 [OF open_over_turns]
    ensures_mono2 [OF stdout_failed_turns], goal_cases)
  case (1 x v s u)
  then have "turns (saved STDOUT_FILENO s) w u"
    by (elim turns_comp) (auto simp: saved_def keep_fds_def)
  then show ?case by simp
next
  case (2 x v s u r u')
  have "turns (\<lambda>t t'. 3 \<le> s \<and> t s = None \<and> t 1 \<noteq> None \<and> t' = t(s := t 1)) w u"
    by (rule turns_comp [OF 2(1,3)]) (use 2 in auto)
  then have "turns (saved STDOUT_FILENO s) w u'"
    by (rule turns_comp [OF _ 2(5)]) (use 2 in \<open>auto simp: saved_def keep_fds_def\<close>)
  then show ?case by simp
next
  case (3 x v m a u)
  have "turns (saved STDOUT_FILENO (-1)) w u"
    by (rule turns_then [OF 3(1,3)]) (auto simp: saved_def)
  then show ?case by simp
qed

lemma restore_one_turns:
  "ensures (restore_one s target m w) (\<lambda>(r, w'). r = OK \<longrightarrow> turns (restored s target) w w')"
  unfolding restore_one_def Let_def
proof (intro paths ensures_sysv ensures_mono2 [OF dup2_turns], goal_cases)
  case (1 r v a u b x)
  show ?case
  proof (cases "r < 0")
    case False
    have "called (Sys_close s) a v u" using 1 False by simp
    with 1 False have "turns (restored s target) w u"
      by (elim turns_then) (auto simp: restored_def)
    from turns_then [OF this 1(4), where S = "restored s target"] show ?thesis by simp
  qed simp
next
  case 2
  then show ?case by (simp add: restored_def)
qed


lemma saved_none [simp]: "saved target (-1) t t"
  by (simp add: saved_def)

lemma apply_redirect_turns:
  "ensures (builtin_apply_redirect cmd w) (\<lambda>(r, so, si, w').
     turns (saved STDOUT_FILENO so OO saved STDIN_FILENO si) w w')"
proof -
  have none: "turns (saved target (-1)) v v" for target v by simp
  show ?thesis
    unfolding builtin_apply_redirect_def
    by (intro paths ensures_option ensures_mono3 [OF apply_output_turns] ensures_mono3 [OF apply_input_turns])
      (auto intro: turns_trans none)
qed

lemma restore_redirect_turns:
  "ensures (builtin_restore_redirect so si w) (\<lambda>(r, w').
     r = OK \<longrightarrow> turns (restored so STDOUT_FILENO OO restored si STDIN_FILENO) w w')"
  unfolding builtin_restore_redirect_def
  by (intro paths ensures_mono2 [OF restore_one_turns]) (auto intro: turns_trans)

text \<open>The two saved descriptors are different and new, so undoing both gives the old files back.\<close>

lemma saved_restored:
  assumes "saved STDOUT_FILENO so t t1" "saved STDIN_FILENO si t1 t2" "keep_fds {} t2 t3"
    and "restored so STDOUT_FILENO t3 t4" "restored si STDIN_FILENO t4 t5"
    and open_std: "t STDIN_FILENO \<noteq> None" "t STDOUT_FILENO \<noteq> None"
  shows "keep_fds {} t t5"
proof -
  have out: "t2 so = t 1 \<and> so \<noteq> si" if "0 \<le> so"
    using assms(1,2) that by (cases "si < 0") (auto simp: saved_def keep_fds_def)
  have inp: "t2 si = t 0" if "0 \<le> si"
    using assms(1,2) that open_std by (cases "so < 0") (auto simp: saved_def keep_fds_def)
  have old: "t2 fd = t fd" if "t fd \<noteq> None" "fd = 1 \<longrightarrow> so < 0" "fd = 0 \<longrightarrow> si < 0" for fd
    using assms(1,2) that by (cases "so < 0"; cases "si < 0") (auto simp: saved_def keep_fds_def)
  have new: "0 \<le> so \<Longrightarrow> 3 \<le> so \<and> t so = None" "0 \<le> si \<Longrightarrow> 3 \<le> si \<and> t si = None"
    using assms(1,2) by (cases "t si"; auto simp: saved_def keep_fds_def split: if_splits)+
  have t3: "t3 fd = t2 fd" if "t2 fd \<noteq> None" for fd using assms(3) that by (simp add: keep_fds_def)
  have so: "t3 so = t 1" if "0 \<le> so" using out [OF that] t3 [of so] open_std by simp
  have si: "t3 si = t 0" if "0 \<le> si" using inp [OF that] t3 [of si] open_std by simp
  have "t5 fd = t fd" if fd: "t fd \<noteq> None" for fd
  proof (cases "fd = 1 \<and> 0 \<le> so \<or> fd = 0 \<and> 0 \<le> si")
    case True
    then show ?thesis
      using so si out new assms(4,5) old [OF fd] t3 [of fd] fd by (auto simp: restored_def split: if_splits)
  next
    case False
    then have "t3 fd = t fd" using old [OF fd] t3 [of fd] fd by auto
    moreover have "0 \<le> so \<longrightarrow> fd \<noteq> so" "0 \<le> si \<longrightarrow> fd \<noteq> si" using new fd by auto
    ultimately show ?thesis using False assms(4,5) by (auto simp: restored_def split: if_splits)
  qed
  then show ?thesis by (simp add: keep_fds_def)
qed

lemma tidy_ensures: "tidy handle \<Longrightarrow> ensures (handle cmd ctx w) (\<lambda>(r, ctx', w'). turns (keep_fds {}) w w')"
proof -
  assume "tidy handle"
  then have "ensures (handle cmd ctx w) (\<lambda>(r, ctx', w'). owes w [] w')" by (simp add: tidy_def)
  then show ?thesis by (rule ensures_mono3) (auto intro: turns_mono [OF owes_turns])
qed

lemma called_log [simp]: "called c a (log_error m w) w' = called c a w w'"
  by (simp add: called_def same_statics_def)

lemma check_output_turns: "ensures (check_output r w) (\<lambda>(r', w'). turns (=) w w')"
  unfolding check_output_def
  by (intro paths ensures_option ensures_sysv ensures_mono2 [OF stdout_failed_turns])
    (auto elim: turns_then)

definition undone :: "fd_table \<Rightarrow> fd_table \<Rightarrow> bool" where
  "undone t t' \<longleftrightarrow> (t STDIN_FILENO \<noteq> None \<and> t STDOUT_FILENO \<noteq> None \<longrightarrow> keep_fds {} t t')"

lemma dispatch_turns:
  assumes "tidy handle"
  shows "ensures (dispatch_builtin handle cmd ctx w) (\<lambda>(r, ctx', w'). running ctx' \<longrightarrow> turns undone w w')"
  unfolding dispatch_builtin_def
proof (intro paths ensures_mono4 [OF apply_redirect_turns] ensures_mono2 [OF restore_redirect_turns]
    ensures_mono2 [OF check_output_turns] ensures_mono3 [OF tidy_ensures [OF assms]], goal_cases)
  case (1 r so si v r' u)
  have "turns undone w u" if "r' = OK"
    by (rule turns_comp [OF 1(1)], rule 1(3) [rule_format, OF that])
      (auto simp: undone_def relcompp_apply intro: saved_restored [OF _ _ keep_fds_refl])
  then show ?case by auto
next
  case (2 r so si v r2 ctx' u r3 x r4 y)
  show ?case by simp
next
  case (3 r so si v r2 ctx' u r3 x r4 y)
  have keep: "turns (keep_fds {}) v x" by (rule turns_comp [OF 3(3,4)]) simp
  have "turns undone w y" if "turns (restored so 1 OO restored si 0) x y"
    by (rule turns_comp [OF 3(1) turns_trans [OF keep that]])
      (auto simp: undone_def relcompp_apply intro: saved_restored)
  then show ?case using 3 by simp
qed

section \<open>Properties\<close>

text \<open>C7: when a builtin of the table has run behind its redirections, or a redirection
  failed, and the shell goes on, every descriptor that was open, standard input and output among them,
  refers to the file it referred to before, on every path. What this rests on: standard input and
  output were open, as \<^verbatim>\<open>main\<close> sees to, and the answers to the calls are those of a kernel
  that hands out descriptors not in use.
\<close>
theorem stdio_restored:
  assumes "builtin_lookup name = Some handle" and "dispatch_builtin handle cmd ctx w = Some (r, ctx', w')"
    and "running ctx'" and "w_trace w' = w_trace w @ tr" and "plays tr t = Some t'"
    and "t STDIN_FILENO \<noteq> None" and "t STDOUT_FILENO \<noteq> None" and "t fd \<noteq> None"
  shows "t' fd = t fd"
  using ensures_D3 [OF assms(2) dispatch_turns [OF builtin_table_tidy [OF assms(1)]]] assms(3-8)
  by (auto simp: turns_def undone_def keep_fds_def)

definition demo_redirected :: Command where
  "demo_redirected = command_init\<lparr>argv := [''status''],
     redirect := \<lparr>input_file = None, output_file = Some ''out'', append = False\<rparr>\<rparr>"

definition demo_answers :: "answer list" where
  "demo_answers = [ok 0, ok 0, ok 10, ok 3, ok 1, ok 0, ok 0, ok 0, ok 0, ok 1, ok 0, ok 0]"

definition demo_table :: fd_table where
  "demo_table fd = (if fd \<in> {0, 1, 2} then Some (Inherited fd) else None)"

theorem stdio_restored_witness:
  "\<exists>ctx' w' t'. dispatch_builtin builtin_status demo_redirected (blank_context\<lparr>running := True\<rparr>)
       (init_world demo_answers) = Some (OK, ctx', w') \<and>
     (Sys_open ''out'' [O_WRONLY, O_CREAT, O_TRUNC], ok 3) \<in> set (w_trace w') \<and>
     plays (w_trace w') demo_table = Some t' \<and> t' 1 = Some (Inherited 1)"
proof -
  let ?ctx = "blank_context\<lparr>running := True\<rparr>"
  have "(case dispatch_builtin builtin_status demo_redirected ?ctx (init_world demo_answers) of
      Some (r, c, v) \<Rightarrow> r = 0 \<and> running c \<and> plays (w_trace v) demo_table \<noteq> None \<and>
        (Sys_open ''out'' [O_WRONLY, O_CREAT, O_TRUNC], ok 3) \<in> set (w_trace v)
    | None \<Rightarrow> False)" by code_simp
  then obtain ctx' w' t' where run: "dispatch_builtin builtin_status demo_redirected ?ctx (init_world demo_answers) =
      Some (0, ctx', w')" "running ctx'" "plays (w_trace w') demo_table = Some t'"
      "(Sys_open ''out'' [O_WRONLY, O_CREAT, O_TRUNC], ok 3) \<in> set (w_trace w')"
    by (auto split: option.splits)
  have "w_trace w' = w_trace (init_world demo_answers) @ w_trace w'" by (simp add: init_world_def)
  moreover have "builtin_lookup ''status'' = Some builtin_status" by (simp add: builtin_lookup_def builtin_table_def)
  ultimately show ?thesis using stdio_restored [OF _ run(1,2) _ run(3), of _ 1] run
    by (auto simp: demo_table_def)
qed

text \<open>C13: whatever a command line is, refused, run by the executor or run by a builtin
  with redirections, back in the shell's own process every descriptor but the two standard ones is
  balanced, the heap holds the job table, which is well formed and has at most one job more, and the
  line being typed is untouched; the result is an error or an exit status.
\<close>
theorem dispatcher_line:
  assumes "table_ok (ctx_jobs ctx)" and "dispatcher_command cs ctx w = Some (Parent (r, ctx'), w')"
  shows "(2 \<le> fd \<longrightarrow> fd_bal w' fd = fd_bal w fd) \<and>
     w_live w' - table_blocks (ctx_jobs ctx') = w_live w - table_blocks (ctx_jobs ctx) \<and>
     table_ok (ctx_jobs ctx') \<and> length (jobs (ctx_jobs ctx')) \<le> length (jobs (ctx_jobs ctx)) + 1 \<and>
     input_buffer ctx' = input_buffer ctx \<and> (config_ok (config ctx) \<longrightarrow> config_ok (config ctx')) \<and>
     (last_exit_status ctx \<le> 255 \<longrightarrow> r \<le> 255)"
proof -
  have "table_inv (w_live w - table_blocks (ctx_jobs ctx)) (ctx_jobs ctx) w"
    using assms(1) by (simp add: table_inv_def)
  from ensures_D [OF assms(2) dispatcher_command_eff [OF this]] show ?thesis
    by (auto simp: dispatch_ok_def table_inv_def beside_std_def served_def)
qed

theorem dispatcher_line_witness:
  "\<exists>ctx' w'. dispatcher_command [demo_redirected] (blank_context\<lparr>running := True\<rparr>) (init_world demo_answers) =
       Some (Parent (OK, ctx'), w') \<and> fd_bal w' 10 = 0 \<and> fd_bal w' 3 = 0 \<and> w_live w' = 0"
proof -
  let ?ctx = "blank_context\<lparr>running := True\<rparr>"
  have "(case dispatcher_command [demo_redirected] ?ctx (init_world demo_answers) of
      Some (Parent (r, c), v) \<Rightarrow> r = 0 \<and> jobs (ctx_jobs c) = [] | _ \<Rightarrow> False)" by code_simp
  then obtain ctx' w' where run: "dispatcher_command [demo_redirected] ?ctx (init_world demo_answers) =
      Some (Parent (0, ctx'), w')" and none: "jobs (ctx_jobs ctx') = []"
    by (auto split: option.splits outcome.splits)
  have "table_ok (ctx_jobs ?ctx)" by (simp add: blank_context_def table_ok_def jobmanager_init_def)
  from dispatcher_line [OF this run, of 10] dispatcher_line [OF this run, of 3] run none show ?thesis
    by (auto simp: table_blocks_def blank_context_def jobmanager_init_def init_world_def)
qed

text \<open>C31: a pipeline with a builtin anywhere in it, and a builtin in the background, are
  refused as parse errors: no call is made, nothing is redirected and the context is unchanged.
\<close>
theorem dispatcher_refuses:
  assumes "argv0 (hd cs) \<noteq> None"
    and "1 < length cs \<and> (\<exists>c\<in>set cs. \<exists>a\<in>set builtin_names. argv0 c = Some a) \<or>
      (\<exists>c a. cs = [c] \<and> background c \<and> argv0 c = Some a \<and> a \<in> set builtin_names)"
  shows "\<exists>w'. dispatcher_command cs ctx w = Some (Parent (ERR_PARSE, ctx), w') \<and>
    w_trace w' = w_trace w \<and> w_script w' = w_script w"
proof -
  have "(case argv0 c of None \<Rightarrow> False | Some a \<Rightarrow> builtin_lookup a \<noteq> None) =
      (\<exists>a\<in>set builtin_names. argv0 c = Some a)" for c
    by (cases "argv0 c") (simp_all add: builtin_lookup_names del: not_None_eq)
  then have chain: "command_chain_has_builtin l = (\<exists>c\<in>set l. \<exists>a\<in>set builtin_names. argv0 c = Some a)" for l
    by (simp add: command_chain_has_builtin_def list_ex_iff del: not_None_eq)
  from assms(2) show ?thesis
  proof (elim disjE exE conjE)
    assume many: "1 < length cs" and b: "\<exists>c\<in>set cs. \<exists>a\<in>set builtin_names. argv0 c = Some a"
    from many obtain c c2 l where cs: "cs = c # c2 # l" by (cases cs; cases "tl cs") auto
    from b have "command_chain_has_builtin (c # c2 # l)" unfolding chain cs .
    then show ?thesis using assms(1) by (auto simp: cs dispatcher_command_def split: option.splits)
  next
    fix c a assume "cs = [c]" "background c" "argv0 c = Some a" "a \<in> set builtin_names"
    then show ?thesis using builtin_lookup_names [of a] by (auto simp: dispatcher_command_def)
  qed
qed

theorem dispatcher_refuses_witness:
  "\<exists>w'. dispatcher_command [demo_ls, demo_redirected] blank_context (init_world []) =
     Some (Parent (ERR_PARSE, blank_context), w') \<and> w_trace w' = []"
proof -
  have h: "argv0 (hd [demo_ls, demo_redirected]) \<noteq> None" by (simp add: demo_ls_def argv0_def)
  have "argv0 demo_redirected = Some ''status''" "''status'' \<in> set builtin_names"
    by (simp_all add: demo_redirected_def argv0_def builtin_names_def)
  with dispatcher_refuses [OF h, of blank_context "init_world []"] show ?thesis
    by (auto simp: init_world_def)
qed

end
