(* ===== verification/Shell.thy ===== *)
theory Shell
  imports Dispatcher_Properties Parser Sig
begin

text \<open>
  \<^verbatim>\<open>src/shell.c\<close> and \<^verbatim>\<open>src/main.c\<close>: the line being typed, the loop over terminal input and signals,
  setting up and tearing down. A run that ends in a forked child is \<open>Child_gone\<close>; everything else is
  told of the shell's own process.
\<close>

datatype ShellStatus = SHELL_STATUS_OK | SHELL_STATUS_ERROR

section \<open>Output\<close>

definition shell_normalize_status :: "int \<Rightarrow> int" where
  "shell_normalize_status status = (if status < 0 then 1 else status)"

definition shell_reset_input :: "ShellContext \<Rightarrow> ShellContext" where
  "shell_reset_input ctx = ctx\<lparr>input_buffer := [], input_discarding := False\<rparr>"

function shell_flush_stdout :: "world \<Rightarrow> (int \<times> world) option" where
  "shell_flush_stdout w =
     (case sys Sys_fflush w of
        None \<Rightarrow> None
      | Some (a, w) \<Rightarrow>
          if a_ret a = 0 then Some (0, w)
          else if a_err a \<noteq> EINTR then Some (-1, w)
          else (case sys Sys_clearerr w of
                  None \<Rightarrow> None
                | Some (b, w) \<Rightarrow> shell_flush_stdout w))"
  by pat_completeness auto
termination
  by (relation "measure (\<lambda>w. length (w_script w))") (auto dest!: sys_script_less)

declare shell_flush_stdout.simps [simp del]

function shell_write_all :: "int \<Rightarrow> string \<Rightarrow> world \<Rightarrow> (int \<times> world) option" where
  "shell_write_all fd buffer w =
     (if buffer = [] then Some (0, w)
      else
        (case sys (Sys_write fd buffer) w of
           None \<Rightarrow> None
         | Some (ret, w) \<Rightarrow>
             if a_ret ret < 0
             then (if a_err ret = EINTR then shell_write_all fd buffer w else Some (-1, w))
             else if a_ret ret = 0 then Some (-1, w)
             else shell_write_all fd (drop (nat (a_ret ret)) buffer) w))"
  by pat_completeness auto
termination
  by (relation "measure (\<lambda>(fd, buffer, w). length (w_script w))") (auto dest!: sys_script_less)

declare shell_write_all.simps [simp del]

definition shell_print_prompt :: "ShellContext \<Rightarrow> world \<Rightarrow> (int \<times> world) option" where
  "shell_print_prompt ctx w =
     (let prompt = ''>>'' @ prompts (config ctx) @ '' '' in
      if \<not> snprintf_fits 128 prompt then Some (-1, w)
      else do {
        (r, w) \<leftarrow> shell_flush_stdout w;
        if r < 0 then Some (-1, w) else shell_write_all STDOUT_FILENO prompt w })"

section \<open>Input\<close>

text \<open>The line without the carriage return before its end.\<close>

definition strip_cr :: "string \<Rightarrow> string" where
  "strip_cr s = (if s \<noteq> [] \<and> last s = CR then butlast s else s)"

definition shell_dispatch_input :: "ShellContext \<Rightarrow> world \<Rightarrow> (ShellContext outcome \<times> world) option" where
  "shell_dispatch_input ctx w =
     (let ctx = ctx\<lparr>input_buffer := strip_cr (input_buffer ctx)\<rparr>;
          (cmd_list, status, w) = parse_line (input_buffer ctx) (Some (last_exit_status ctx)) w;
          ctx = ctx\<lparr>last_exit_status := (case status of Some s \<Rightarrow> s | None \<Rightarrow> last_exit_status ctx)\<rparr>
      in case cmd_list of
        None \<Rightarrow> Some (Parent (shell_reset_input ctx), w)
      | Some cs \<Rightarrow> do {
          (res, w) \<leftarrow> dispatcher_command cs ctx w;
          Some (case res of
              Child_gone \<Rightarrow> (Child_gone, w)
            | Parent (status, ctx) \<Rightarrow>
                let ctx = ctx\<lparr>last_exit_status := shell_normalize_status status\<rparr>;
                    w = command_free cs w
                in (Parent (shell_reset_input ctx), w)) })"

text \<open>
  The result of \<^verbatim>\<open>shell_read_input\<close>: its code, \<^verbatim>\<open>line_done\<close>, \<^verbatim>\<open>eof\<close> and the context.
\<close>

record input_result =
  in_ret :: int
  in_line_done :: bool
  in_eof :: bool
  in_ctx :: ShellContext

definition read_result :: "int \<Rightarrow> bool \<Rightarrow> bool \<Rightarrow> ShellContext \<Rightarrow> input_result" where
  "read_result ret line_done eof ctx = \<lparr>in_ret = ret, in_line_done = line_done, in_eof = eof, in_ctx = ctx\<rparr>"

text \<open>Dispatching, then returning with \<^verbatim>\<open>*line_done = 1\<close>.\<close>

definition dispatch_done :: "bool \<Rightarrow> ShellContext \<Rightarrow> world \<Rightarrow> (input_result outcome \<times> world) option" where
  "dispatch_done eof ctx w = do {
     (res, w) \<leftarrow> shell_dispatch_input ctx w;
     Some (case res of
         Child_gone \<Rightarrow> (Child_gone, w)
       | Parent ctx \<Rightarrow> (Parent (read_result 0 True eof ctx), w)) }"

definition shell_read_input :: "ShellContext \<Rightarrow> world \<Rightarrow> (input_result outcome \<times> world) option" where
  "shell_read_input ctx w = do {
     (ret, w) \<leftarrow> sys (Sys_read STDIN_FILENO 1) w;
     let ch = hd (read_data 1 ret);
     if a_ret ret < 0
     then Some (if a_err ret = EINTR then (Parent (read_result 0 False False ctx), w)
                else (Parent (read_result (-1) False False ctx), log_error ''read stdin failed: %s'' w))
     else if a_ret ret = 0
     then (if \<not> input_discarding ctx \<and> 0 < input_length ctx then dispatch_done True ctx w
           else Some (Parent (read_result 0 True True (shell_reset_input ctx)), w))
     else if input_discarding ctx
     then Some (if ch = LF then (Parent (read_result 0 True False (shell_reset_input ctx)), w)
                else (Parent (read_result 0 False False ctx), w))
     else if ch = LF then dispatch_done False ctx w
     else if SHELL_INPUT_SIZE \<le> input_length ctx + 1
     then Some (Parent (read_result 0 False False
                  (ctx\<lparr>last_exit_status := 2, input_buffer := [], input_discarding := True\<rparr>)),
                eprintf (''minishell: input line is too long'' @ [LF]) w)
     else Some (Parent (read_result 0 False False (ctx\<lparr>input_buffer := input_buffer ctx @ [ch]\<rparr>)), w) }"

section \<open>The loop\<close>

abbreviation (input) FD_SETSIZE :: int where "FD_SETSIZE \<equiv> 1024"

definition fd_isset :: "int \<Rightarrow> answer \<Rightarrow> bool" where
  "fd_isset fd a \<longleftrightarrow> 0 \<le> fd \<and> nat fd \<in> set (a_fds a)"

text \<open>What a turn does about a child that ended, and about \<^verbatim>\<open>^C\<close>.\<close>

definition reap_children :: "ShellContext \<Rightarrow> world \<Rightarrow> (ShellContext \<times> world) option" where
  "reap_children ctx w = do {
     (js, w) \<leftarrow> job_reap (ctx_jobs ctx) w;
     let (js, w) = job_cleanup_done js w;
     Some (ctx\<lparr>ctx_jobs := js\<rparr>, w) }"

definition interrupt_line :: "ShellContext \<Rightarrow> world \<Rightarrow> (bool \<times> ShellContext \<times> world) option" where
  "interrupt_line ctx w = do {
     let ctx = shell_reset_input ctx;
     (r, w) \<leftarrow> shell_flush_stdout w;
     (r, w) \<leftarrow> (if r < 0 then Some (r, w) else shell_write_all STDOUT_FILENO [LF] w);
     if r < 0 then Some (False, ctx, log_error ''failed write interrupt prompt'' w)
     else Some (True, ctx, w) }"

text \<open>
  The part of the loop that serves the event pipe: false if the shell has to stop with an error.
  The second component is \<^verbatim>\<open>prompt\<close>.
\<close>

definition shell_events :: "ShellContext \<Rightarrow> world \<Rightarrow> (bool \<times> bool \<times> ShellContext \<times> world) option" where
  "shell_events ctx w = do {
     (r, w) \<leftarrow> event_drain w;
     if r < 0 then Some (False, False, ctx, log_error ''failed drain event pipe'' w)
     else do {
       (events, w) \<leftarrow> signal_take_events w;
       (ctx, w) \<leftarrow> (if events AND SIGNAL_EVENT_CHILD \<noteq> 0 then reap_children ctx w else Some (ctx, w));
       if events AND SIGNAL_EVENT_INTERRUPT \<noteq> 0
       then do {
         (go, ctx, w) \<leftarrow> interrupt_line ctx w;
         Some (go, go, ctx, w) }
       else Some (True, False, ctx, w) } }"

text \<open>One turn of the loop behind the prompt: go on, with or without a new prompt, or stop.\<close>

datatype turn = Turn_on bool ShellContext | Turn_stop ShellStatus ShellContext

definition after_input :: "bool \<Rightarrow> input_result outcome \<Rightarrow> turn outcome" where
  "after_input prompt res =
     (case res of
        Child_gone \<Rightarrow> Child_gone
      | Parent r \<Rightarrow>
          Parent (if in_ret r < 0 then Turn_stop SHELL_STATUS_ERROR (in_ctx r)
                  else if in_eof r then Turn_stop SHELL_STATUS_OK (in_ctx r)
                  else Turn_on (prompt \<or> in_line_done r) (in_ctx r)))"

definition shell_turn :: "int \<Rightarrow> ShellContext \<Rightarrow> world \<Rightarrow> (turn outcome \<times> world) option" where
  "shell_turn event_fd ctx w = do {
     (ret, w) \<leftarrow> sys (Sys_select [STDIN_FILENO, event_fd]) w;
     if a_ret ret < 0
     then Some (if a_err ret = EINTR then (Parent (Turn_on False ctx), w)
                else (Parent (Turn_stop SHELL_STATUS_ERROR ctx), log_error ''select failed: %s'' w))
     else do {
       (go, prompt, ctx, w) \<leftarrow>
         (if fd_isset event_fd ret then shell_events ctx w else Some (True, False, ctx, w));
       if \<not> go then Some (Parent (Turn_stop SHELL_STATUS_ERROR ctx), w)
       else if \<not> running ctx then Some (Parent (Turn_stop SHELL_STATUS_OK ctx), w)
       else if fd_isset STDIN_FILENO ret
       then do {
         (res, w) \<leftarrow> shell_read_input ctx w;
         Some (after_input prompt res, w) }
       else Some (Parent (Turn_on prompt ctx), w) } }"

text \<open>One round of \<^verbatim>\<open>while (ctx->running)\<close>: the state before the next one, or the end of the loop.\<close>

type_synonym loop_state = "bool \<times> ShellContext \<times> world"
type_synonym loop_end = "(ShellStatus \<times> ShellContext) outcome \<times> world"

definition shell_round :: "int \<Rightarrow> loop_state \<Rightarrow> (loop_state + loop_end) option" where
  "shell_round event_fd s = (case s of (prompt, ctx, w) \<Rightarrow>
     if \<not> running ctx then Some (Inr (Parent (SHELL_STATUS_OK, ctx), w))
     else do {
       (r, w) \<leftarrow> (if prompt then shell_print_prompt ctx w else Some (0, w));
       if r < 0 then Some (Inr (Parent (SHELL_STATUS_ERROR, ctx), log_error ''failed write prompt'' w))
       else do {
         (res, w) \<leftarrow> shell_turn event_fd ctx w;
         Some (case res of
             Child_gone \<Rightarrow> Inr (Child_gone, w)
           | Parent t \<Rightarrow>
               (case t of
                  Turn_stop status ctx \<Rightarrow> Inr (Parent (status, ctx), w)
                | Turn_on prompt ctx \<Rightarrow> Inl (prompt, ctx, w))) } })"

text \<open>The loop; \<open>None\<close> as long as the shell waits for its next answer.\<close>

partial_function (option) shell_loop :: "int \<Rightarrow> loop_state \<Rightarrow> loop_end option" where
  "shell_loop event_fd s = do {
     x \<leftarrow> shell_round event_fd s;
     (case x of
        Inl s \<Rightarrow> shell_loop event_fd s
      | Inr res \<Rightarrow> Some res) }"

declare shell_loop.simps [code]

definition shell_run :: "ShellContext \<Rightarrow> world \<Rightarrow> loop_end option" where
  "shell_run ctx w =
     (let event_fd = event_getfd w in
      if event_fd < 0 then Some (Parent (SHELL_STATUS_ERROR, ctx), log_error ''invalid event fd'' w)
      else if FD_SETSIZE \<le> event_fd
      then Some (Parent (SHELL_STATUS_ERROR, ctx), log_error ''event fd %d exceeds FD_SETSIZE %d'' w)
      else shell_loop event_fd (True, ctx, w))"

section \<open>Setting up and tearing down\<close>

text \<open>The greeting: ``initialised'' in Chinese, as UTF-8.\<close>

definition greeting :: string where
  "greeting = ''>>shell'' @
     [CHR 0xE5, CHR 0x88, CHR 0x9D, CHR 0xE5, CHR 0xA7, CHR 0x8B, CHR 0xE5, CHR 0x8C,
      CHR 0x96, CHR 0xE6, CHR 0x88, CHR 0x90, CHR 0xE5, CHR 0x8A, CHR 0x9F]"

definition shell_init :: "world \<Rightarrow> (ShellStatus \<times> ShellContext \<times> world) option" where
  "shell_init w = do {
     let w = log_init w;
     (ctx, w) \<leftarrow> shell_context_init w;
     (r, w) \<leftarrow> event_init w;
     if r < 0
     then do {
       (ctx, w) \<leftarrow> shell_context_destroy ctx w;
       Some (SHELL_STATUS_ERROR, ctx, w) }
     else do {
       (r, w) \<leftarrow> terminal_init w;
       if r < 0
       then do {
         w \<leftarrow> event_shut w;
         (ctx, w) \<leftarrow> shell_context_destroy ctx w;
         Some (SHELL_STATUS_ERROR, ctx, w) }
       else do {
         (r, w) \<leftarrow> signal_init w;
         if r < 0
         then do {
           w \<leftarrow> signal_shutdown w;
           w \<leftarrow> terminal_shutdown w;
           w \<leftarrow> event_shut w;
           (ctx, w) \<leftarrow> shell_context_destroy ctx w;
           Some (SHELL_STATUS_ERROR, ctx, w) }
         else Some (SHELL_STATUS_OK, ctx, log_info greeting w) } } }"

text \<open>The farewell: ``left'' in Chinese, as UTF-8.\<close>

definition farewell :: string where
  "farewell = ''>>MiniShell '' @
     [CHR 0xE5, CHR 0xB7, CHR 0xB2, CHR 0xE9, CHR 0x80, CHR 0x80, CHR 0xE5, CHR 0x87, CHR 0xBA] @ [CR, LF]"

definition shell_cleanup :: "ShellContext \<Rightarrow> world \<Rightarrow> (ShellContext \<times> world) option" where
  "shell_cleanup ctx w = do {
     (ctx, w) \<leftarrow> shell_context_destroy ctx w;
     w \<leftarrow> signal_shutdown w;
     w \<leftarrow> event_shut w;
     w \<leftarrow> terminal_shutdown w;
     (r, w) \<leftarrow> shell_flush_stdout w;
     if r = 0
     then do {
       (r, w) \<leftarrow> shell_write_all STDOUT_FILENO farewell w;
       Some (ctx, w) }
     else Some (ctx, w) }"

section \<open>main\<close>

definition ensure_standard_fd :: "int \<Rightarrow> open_flag list \<Rightarrow> world \<Rightarrow> (int \<times> world) option" where
  "ensure_standard_fd target flags w = do {
     (a, w) \<leftarrow> sys (Sys_getfd target) w;
     if 0 \<le> a_ret a then Some (0, w)
     else if a_err a \<noteq> EBADF then Some (-1, w)
     else do {
       (fd, w) \<leftarrow> sys (Sys_open ''/dev/null'' flags) w;
       if a_ret fd < 0 then Some (-1, w)
       else if a_ret fd \<noteq> target
       then do {
         (r, w) \<leftarrow> sys (Sys_dup2 (a_ret fd) target) w;
         w \<leftarrow> sysv (Sys_close (a_ret fd)) w;
         Some (if a_ret r < 0 then -1 else 0, w) }
       else Some (0, w) } }"

definition ensure_standard_fds :: "world \<Rightarrow> (int \<times> world) option" where
  "ensure_standard_fds w = do {
     (r, w) \<leftarrow> ensure_standard_fd 0 [O_RDONLY] w;
     if r < 0 then Some (-1, w)
     else do {
       (r, w) \<leftarrow> ensure_standard_fd 1 [O_WRONLY] w;
       if r < 0 then Some (-1, w)
       else do {
         (r, w) \<leftarrow> ensure_standard_fd 2 [O_WRONLY] w;
         if r < 0 then Some (-1, w) else Some (0, w) } } }"

definition minishell_main :: "world \<Rightarrow> (int outcome \<times> world) option" where
  "minishell_main w = do {
     (r, w) \<leftarrow> ensure_standard_fds w;
     if r < 0 then Some (Parent 1, w)
     else do {
       (status, ctx, w) \<leftarrow> shell_init w;
       if status \<noteq> SHELL_STATUS_OK then Some (Parent 1, w)
       else do {
         (res, w) \<leftarrow> shell_run ctx w;
         (case res of
            Child_gone \<Rightarrow> Some (Child_gone, w)
          | Parent (run_status, ctx) \<Rightarrow> do {
              let exit_status = last_exit_status ctx;
              (ctx, w) \<leftarrow> shell_cleanup ctx w;
              Some (Parent (if run_status \<noteq> SHELL_STATUS_OK then 1 else exit_status), w) }) } } }"

end
