(* ===== verification/Shell_Properties.thy ===== *)
theory Shell_Properties
  imports Shell
begin

text \<open>
  What the loop of the shell keeps from its first prompt to its end, what becomes of the bytes typed,
  and what \<^verbatim>\<open>main\<close> leaves behind.
\<close>

section \<open>Output\<close>

lemma shell_flush_stdout_calm: "ensures (shell_flush_stdout w) (\<lambda>(r, w'). calm w w' \<and> r \<in> {0, -1})"
proof (induction w rule: script_induct)
  case (less w)
  show ?case
    by (subst shell_flush_stdout.simps, intro vcg ensures_mono2 [OF less]) (auto simp: effects)
qed

lemma shell_write_all_calm: "ensures (shell_write_all fd buffer w) (\<lambda>(r, w'). calm w w' \<and> r \<in> {0, -1})"
proof (induction w arbitrary: buffer rule: script_induct)
  case (less w)
  show ?case
    by (subst shell_write_all.simps, intro vcg ensures_mono2 [OF less]) (auto simp: effects)
qed

lemmas shell_calm1 [vcg] = ensures_mono2 [OF shell_flush_stdout_calm] ensures_mono2 [OF shell_write_all_calm]

lemma shell_print_prompt_calm: "ensures (shell_print_prompt ctx w) (\<lambda>(r, w'). calm w w' \<and> r \<in> {0, -1})"
  unfolding shell_print_prompt_def by (intro vcg) (auto intro: calm_trans)

lemmas shell_calm2 [vcg] = ensures_mono2 [OF shell_print_prompt_calm]

section \<open>Parsing\<close>

text \<open>Parsing makes no call; it moves the heap, and the exit status is the old one, 1 or 2.\<close>

lemma malloc_moves: "malloc w = (b, v) \<Longrightarrow> moves (of_bool b) (\<lambda>_. 0) w v"
  by (auto simp: malloc_def moves_iff same_statics_def split: list.splits)

lemma free_moves: "moves (- k) (\<lambda>_. 0) w (free_blocks k w)"
  by (auto simp: moves_iff same_statics_def)

definition parsed :: "int option \<Rightarrow> world \<Rightarrow> int option \<Rightarrow> world \<Rightarrow> bool" where
  "parsed ctx w ctx' w' \<longleftrightarrow> (\<exists>k. moves k (\<lambda>_. 0) w w') \<and> (ctx' = ctx \<or> ctx' = map_option (\<lambda>_. 1) ctx \<or> ctx' = map_option (\<lambda>_. 2) ctx)"

lemma fail_parsed:
  "syntax_fail ctx head m w = (r, ctx', w') \<Longrightarrow> parsed ctx w ctx' w'"
  "memory_fail ctx head w = (r, ctx', w') \<Longrightarrow> parsed ctx w ctx' w'"
  "tokenize_fail ctx res w = (r, ctx', w') \<Longrightarrow> parsed ctx w ctx' w'"
  by (auto simp: syntax_fail_def memory_fail_def tokenize_fail_def command_free_blocks parsed_def moves_def
      Let_def)

lemma moves_heap_trans: "moves l (\<lambda>_. 0) u v \<Longrightarrow> moves k (\<lambda>_. 0) v w \<Longrightarrow> moves (l + k) (\<lambda>_. 0) u w"
  by (drule (1) moves_trans) simp

lemma parsed_later: "malloc w = (b, v) \<Longrightarrow> parsed ctx v ctx' w' \<Longrightarrow> parsed ctx w ctx' w'"
  unfolding parsed_def by (blast dest: malloc_moves moves_heap_trans)

lemma new_command_later: "new_command w = (c, v) \<Longrightarrow> parsed ctx v ctx' w' \<Longrightarrow> parsed ctx w ctx' w'"
  by (auto simp: new_command_def split: prod.splits if_splits intro: parsed_later)

lemma parsed_refl: "parsed ctx w ctx w"
  by (auto simp: parsed_def moves_iff intro: exI [of _ 0])

lemma build_tokens_parsed: "build_tokens ctx ts before current w = (r, ctx', w') \<Longrightarrow> parsed ctx w ctx' w'"
proof (induction ctx ts before current w arbitrary: r ctx' w' rule: build_tokens.induct)
  case (1 ctx before current w)
  then show ?case by (auto simp: finish_chain_def parsed_refl split: if_splits dest: fail_parsed)
next
  case (2 ctx t rest before current w)
  then show ?case
    by (cases "t_type t")
      (auto simp: Let_def split: if_splits prod.splits option.splits dest: fail_parsed intro: parsed_later new_command_later)
qed

lemma parse_line_parsed: "parse_line line ctx w = (r, ctx', w') \<Longrightarrow> parsed ctx w ctx' w'"
  by (auto simp: parse_line_def build_command_def parsed_refl split: prod.splits if_splits option.splits
      dest: fail_parsed build_tokens_parsed intro: new_command_later)

section \<open>The invariant of the loop\<close>

text \<open>
  \<open>shell_inv n ctx w\<close>: the job table is well formed and, beside \<open>n\<close> blocks, the only thing on the heap;
  the configuration, its path and the line being typed are within their bounds, and the last status is
  an exit status. A step of the loop keeps it, and the descriptors beside the standard ones.
\<close>

definition shell_inv :: "int \<Rightarrow> ShellContext \<Rightarrow> world \<Rightarrow> bool" where
  "shell_inv n ctx w \<longleftrightarrow>
     table_inv n (ctx_jobs ctx) w \<and> config_ok (config ctx) \<and>
     length (config_file ctx) < SHELL_CONFIG_PATH_SIZE \<and> length (input_buffer ctx) < SHELL_INPUT_SIZE \<and>
     0 \<le> last_exit_status ctx \<and> last_exit_status ctx \<le> 255"

definition going :: "int \<Rightarrow> world \<Rightarrow> ShellContext \<Rightarrow> world \<Rightarrow> bool" where
  "going n w ctx' w' \<longleftrightarrow> shell_inv n ctx' w' \<and> beside_std (\<lambda>_. 0) w w'"

lemma beside_refl [simp]: "beside_std (\<lambda>_. 0) w w"
  by (simp add: beside_std_def)

lemma calm_beside: "calm w w' \<Longrightarrow> beside_std (\<lambda>_. 0) w w'"
  by (simp add: calm_moves moves_beside)

lemma beside_step: "beside_std (\<lambda>_. 0) u v \<Longrightarrow> beside_std (\<lambda>_. 0) v w \<Longrightarrow> beside_std (\<lambda>_. 0) u w"
  by (drule (1) beside_std_trans) simp

lemma beside_heap: "moves k (\<lambda>_. 0) w w' \<Longrightarrow> beside_std (\<lambda>_. 0) w w'"
  by (rule moves_beside)

lemma beside_out [simp]:
  "beside_std d u (log_error m w) = beside_std d u w" "beside_std d u (eprintf m w) = beside_std d u w"
  "beside_std d u (free_blocks k w) = beside_std d u w"
  by (simp_all add: beside_std_def same_statics_def)

lemma shell_inv_out [simp]:
  "shell_inv n ctx (log_error m w) = shell_inv n ctx w" "shell_inv n ctx (eprintf m w) = shell_inv n ctx w"
  by (simp_all add: shell_inv_def)

lemma going_out [simp]:
  "going n u ctx (log_error m w) = going n u ctx w" "going n u ctx (eprintf m w) = going n u ctx w"
  by (simp_all add: going_def)

lemma calm_shell_inv: "calm w w' \<Longrightarrow> shell_inv n ctx w \<Longrightarrow> shell_inv n ctx w'"
  by (simp add: shell_inv_def table_inv_def calm_moves moves_iff)

lemma going_start: "shell_inv n ctx w \<Longrightarrow> going n w ctx w"
  by (simp add: going_def)

lemma going_calm: "going n u ctx w \<Longrightarrow> calm w w' \<Longrightarrow> going n u ctx w'"
  by (auto simp: going_def intro: calm_shell_inv beside_step calm_beside)

lemma going_trans: "going n u ctx v \<Longrightarrow> going n v ctx' w \<Longrightarrow> going n u ctx' w"
  by (auto simp: going_def intro: beside_step)

lemma going_inv: "going n u ctx w \<Longrightarrow> shell_inv n ctx w"
  by (simp add: going_def)

lemma shell_inv_reset [simp]: "shell_inv n ctx w \<Longrightarrow> shell_inv n (shell_reset_input ctx) w"
  by (simp add: shell_inv_def shell_reset_input_def)

lemma going_reset [simp]: "going n u ctx w \<Longrightarrow> going n u (shell_reset_input ctx) w"
  by (simp add: going_def)

text \<open>One dispatched line.\<close>

lemma parsed_status: "parsed (Some s) w c w' \<Longrightarrow> \<exists>s'. c = Some s' \<and> (s' = s \<or> s' = 1 \<or> s' = 2)"
  by (auto simp: parsed_def)

lemma strip_cr_length: "length (strip_cr s) \<le> length s"
  by (simp add: strip_cr_def)

lemma reset_input_sel [simp]:
  "input_buffer (shell_reset_input ctx) = []" "\<not> input_discarding (shell_reset_input ctx)"
  "running (shell_reset_input ctx) = running ctx" "ctx_jobs (shell_reset_input ctx) = ctx_jobs ctx"
  "last_exit_status (shell_reset_input ctx) = last_exit_status ctx"
  by (simp_all add: shell_reset_input_def)

lemma dispatched_going:
  assumes "dispatch_ok (n + chain_blocks cs) ctx v (a, b, y)" and "beside_std (\<lambda>_. 0) w v"
    and "config_ok (config ctx)" and "length (config_file ctx) < SHELL_CONFIG_PATH_SIZE"
    and "last_exit_status ctx \<le> 255"
  shows "going n w (shell_reset_input (b\<lparr>last_exit_status := shell_normalize_status a\<rparr>)) (command_free cs y)"
  using assms
  by (auto simp: dispatch_ok_def served_def going_def shell_inv_def shell_reset_input_def table_inv_def
      shell_normalize_status_def command_free_blocks intro: beside_step)

lemma shell_dispatch_input_eff:
  assumes inv: "shell_inv n ctx w"
  shows "ensures (shell_dispatch_input ctx w) (\<lambda>(res, w'). \<forall>ctx'. res = Parent ctx' \<longrightarrow>
     going n w ctx' w' \<and> input_buffer ctx' = [] \<and> \<not> input_discarding ctx')"
proof -
  let ?line = "strip_cr (input_buffer ctx)"
  obtain r c v where p: "parse_line ?line (Some (last_exit_status ctx)) w = (r, c, v)"
    by (cases "parse_line ?line (Some (last_exit_status ctx)) w")
  from parsed_status [OF parse_line_parsed [OF p]] obtain s where
    c: "c = Some s" and s: "0 \<le> s" "s \<le> 255" using inv by (auto simp: shell_inv_def)
  obtain k where k: "moves k (\<lambda>_. 0) w v" using parse_line_parsed [OF p] by (auto simp: parsed_def)
  have live: "w_live v = w_live w + (case r of None \<Rightarrow> 0 | Some cs \<Rightarrow> chain_blocks cs)"
    by (rule parse_line_live [OF p])
  let ?ctx = "ctx\<lparr>input_buffer := ?line, last_exit_status := s\<rparr>"
  have short: "length ?line < SHELL_INPUT_SIZE"
    using inv strip_cr_length [of "input_buffer ctx"] by (simp add: shell_inv_def)
  show ?thesis
  proof (cases r)
    case None
    then have "shell_inv n ?ctx v" using inv live s short by (simp add: shell_inv_def table_inv_def)
    then show ?thesis using None p c beside_heap [OF k]
      by (simp add: shell_dispatch_input_def going_def ensures_def shell_reset_input_def shell_inv_def)
  next
    case (Some cs)
    have tab: "table_inv (n + chain_blocks cs) (ctx_jobs ?ctx) v"
      using inv live Some by (simp add: shell_inv_def table_inv_def)
    have step: "ensures (dispatcher_command cs ?ctx v) (\<lambda>(res, v').
        (\<forall>r ctx'. res = Parent (r, ctx') \<longrightarrow> dispatch_ok (n + chain_blocks cs) ?ctx v (r, ctx', v')))"
      using dispatcher_command_eff [OF tab] by (simp add: line_ok_def [abs_def] case_prod_beta')
    have next1: "going n w (shell_reset_input (b\<lparr>last_exit_status := shell_normalize_status a\<rparr>)) (command_free cs y)"
      if "dispatch_ok (n + chain_blocks cs) ?ctx v (a, b, y)" for a b y
      by (rule dispatched_going [OF that beside_heap [OF k]]) (use inv s in \<open>auto simp: shell_inv_def\<close>)
    show ?thesis
      using Some p c unfolding shell_dispatch_input_def Let_def
      by (auto intro!: vcg ensures_mono2 [OF step] next1 split: outcome.splits prod.splits)
  qed
qed

text \<open>One character.\<close>

lemma read_result_sel [simp]:
  "in_ret (read_result r l e ctx) = r" "in_line_done (read_result r l e ctx) = l"
  "in_eof (read_result r l e ctx) = e" "in_ctx (read_result r l e ctx) = ctx"
  by (simp_all add: read_result_def)

lemma dispatch_done_eff:
  "shell_inv n ctx w \<Longrightarrow> ensures (dispatch_done eof ctx w) (\<lambda>(res, w'). \<forall>r. res = Parent r \<longrightarrow> going n w (in_ctx r) w')"
  unfolding dispatch_done_def
  by (intro vcg ensures_mono2 [OF shell_dispatch_input_eff]) (auto split: outcome.splits)

lemma shell_inv_typed:
  "shell_inv n ctx w \<Longrightarrow> Suc (input_length ctx) < SHELL_INPUT_SIZE \<Longrightarrow>
     shell_inv n (ctx\<lparr>input_buffer := input_buffer ctx @ [ch]\<rparr>) w"
  "shell_inv n ctx w \<Longrightarrow>
     shell_inv n (ctx\<lparr>last_exit_status := 2, input_buffer := [], input_discarding := True\<rparr>) w"
  by (auto simp: shell_inv_def input_length_def)

lemma going_typed:
  "going n u ctx w \<Longrightarrow> Suc (input_length ctx) < SHELL_INPUT_SIZE \<Longrightarrow>
     going n u (ctx\<lparr>input_buffer := input_buffer ctx @ [ch]\<rparr>) w"
  "going n u ctx w \<Longrightarrow>
     going n u (ctx\<lparr>last_exit_status := 2, input_buffer := [], input_discarding := True\<rparr>) w"
  by (simp_all add: going_def shell_inv_typed)

lemma shell_read_input_eff:
  assumes inv: "shell_inv n ctx w"
  shows "ensures (shell_read_input ctx w) (\<lambda>(res, w'). \<forall>r. res = Parent r \<longrightarrow> going n w (in_ctx r) w')"
proof -
  have read: "going n w ctx v" if "called c a w v" "fd_delta c a = (\<lambda>_. 0)" for c a v
    using called_moves [OF that(1)] that(2) going_calm [OF going_start [OF inv]] by (simp add: calm_moves)
  have whole: "ensures (dispatch_done eof ctx v) (\<lambda>(res, w'). \<forall>r. res = Parent r \<longrightarrow> going n w (in_ctx r) w')"
    if "going n w ctx v" for eof v
    by (rule ensures_mono2 [OF dispatch_done_eff [OF going_inv [OF that]]]) (auto intro: going_trans [OF that])
  show ?thesis
    unfolding shell_read_input_def
    by (intro paths ensures_sys) (auto intro!: whole read going_reset going_typed)
qed

text \<open>The event branch.\<close>

lemma reap_inv: "table_inv n m w \<Longrightarrow> ensures (job_reap m w) (\<lambda>(m', w'). table_inv n m' w' \<and> calm w w')"
  unfolding job_reap_def
  by (intro paths ensures_mono2 [OF reaping.sweep_calm]) (auto simp: effects intro: same_jobs_inv)

lemma cleanup_beside: "job_cleanup_done m w = (m', w') \<Longrightarrow> beside_std (\<lambda>_. 0) w w'"
  by (auto simp: job_cleanup_done_def cleanup_jobs_filter)

lemma reap_children_going:
  assumes "going n u ctx w"
  shows "ensures (reap_children ctx w) (\<lambda>(ctx', w'). going n u ctx' w')"
proof -
  have next1: "going n u (ctx\<lparr>ctx_jobs := m\<rparr>) v"
    if "table_inv n js w'" "calm w w'" "job_cleanup_done js w' = (m, v)" for js w' m v
    using assms cleanup_inv [OF that(1,3)] beside_step [OF beside_step [OF _ calm_beside [OF that(2)]] cleanup_beside [OF that(3)]]
    by (simp add: going_def shell_inv_def)
  have inv: "table_inv n (ctx_jobs ctx) w" using assms by (simp add: going_def shell_inv_def)
  show ?thesis
    unfolding reap_children_def Let_def
    by (intro paths ensures_split ensures_mono2 [OF reap_inv [OF inv]]) (auto intro: next1)
qed

lemma interrupt_line_going:
  assumes "going n u ctx w"
  shows "ensures (interrupt_line ctx w) (\<lambda>(go, ctx', w'). going n u ctx' w' \<and> input_buffer ctx' = [])"
  unfolding interrupt_line_def
  by (intro vcg) (auto intro: going_calm [OF assms] going_reset calm_trans)

lemma shell_events_going:
  assumes "going n u ctx w"
  shows "ensures (shell_events ctx w) (\<lambda>(go, prompt, ctx', w'). going n u ctx' w')"
  unfolding shell_events_def
  by (intro vcg ensures_mono2 [OF reap_children_going] ensures_mono3 [OF interrupt_line_going])
    (auto intro: going_calm [OF going_calm [OF assms]])

text \<open>A turn, and the loop.\<close>

fun turn_ctx :: "turn \<Rightarrow> ShellContext" where
  "turn_ctx (Turn_on p ctx) = ctx"
| "turn_ctx (Turn_stop st ctx) = ctx"

lemma shell_read_input_going:
  "going n u ctx w \<Longrightarrow> ensures (shell_read_input ctx w) (\<lambda>(res, w'). \<forall>r. res = Parent r \<longrightarrow> going n u (in_ctx r) w')"
  by (rule ensures_mono2 [OF shell_read_input_eff [OF going_inv]]) (auto intro: going_trans)

lemma shell_turn_going:
  assumes "going n u ctx w"
  shows "ensures (shell_turn fd ctx w) (\<lambda>(res, w'). \<forall>t. res = Parent t \<longrightarrow> going n u (turn_ctx t) w')"
proof -
  have select: "going n u ctx v" if "called (Sys_select fds) a w v" for fds a v
    using called_moves [OF that] going_calm [OF assms] by (simp add: calm_moves)
  show ?thesis
    unfolding shell_turn_def
    by (intro paths ensures_sys ensures_mono4 [OF shell_events_going] ensures_mono2 [OF shell_read_input_going])
      (auto simp: after_input_def intro: select split: outcome.splits)
qed

definition stopped_going :: "int \<Rightarrow> world \<Rightarrow> loop_end \<Rightarrow> bool" where
  "stopped_going n u y \<longleftrightarrow> (\<forall>status ctx. fst y = Parent (status, ctx) \<longrightarrow> going n u ctx (snd y))"

lemma stopped_going_simps [simp]:
  "stopped_going n u (Parent (status, ctx), w) \<longleftrightarrow> going n u ctx w" "stopped_going n u (Child_gone, w)"
  by (simp_all add: stopped_going_def)

fun head_going :: "int \<Rightarrow> world \<Rightarrow> loop_state \<Rightarrow> bool" where
  "head_going n u (prompt, ctx, w) = going n u ctx w"

lemma shell_round_going:
  assumes "head_going n u s"
  shows "ensures (shell_round fd s) (case_sum (head_going n u) (stopped_going n u))"
proof (cases s)
  case (fields prompt ctx w)
  with assms have "going n u ctx w" by simp
  then show ?thesis
    unfolding fields shell_round_def
    by (auto intro!: vcg ensures_mono2 [OF shell_turn_going] intro: going_calm split: outcome.splits turn.splits)
qed

lemma shell_loop_going: "head_going n u s \<Longrightarrow> ensures (shell_loop fd s) (stopped_going n u)"
proof -
  have "head_going n u s \<longrightarrow> stopped_going n u y" if "shell_loop fd s = Some y" for y
  proof (rule shell_loop.raw_induct [OF _ that])
    fix loop fd s y
    assume IH: "\<And>fd s y. loop fd s = Some y \<Longrightarrow> head_going n u s \<longrightarrow> stopped_going n u y"
      and body: "shell_round fd s \<bind> case_sum (loop fd) Some = Some y"
    show "head_going n u s \<longrightarrow> stopped_going n u y"
    proof
      assume h: "head_going n u s"
      from body obtain x where x: "shell_round fd s = Some x" "case_sum (loop fd) Some x = Some y"
        by (auto simp: bind_Some)
      from ensures_D [OF x(1) shell_round_going [OF h]] x(2) IH show "stopped_going n u y"
        by (cases x) auto
    qed
  qed
  then show "ensures (shell_loop fd s) (stopped_going n u)" if "head_going n u s"
    using that by (auto simp: ensures_def split: option.splits)
qed

text \<open>The states between two rounds.\<close>

definition shell_cycle :: "int \<Rightarrow> loop_state \<Rightarrow> loop_state \<Rightarrow> bool" where
  "shell_cycle fd s s' \<longleftrightarrow> shell_round fd s = Some (Inl s')"

lemma shell_cycle_going: "rtranclp (shell_cycle fd) s s' \<Longrightarrow> head_going n u s \<Longrightarrow> head_going n u s'"
  by (induction rule: rtranclp_induct) (auto simp: shell_cycle_def dest!: ensures_D [OF _ shell_round_going])

lemma shell_cycle_loop: "rtranclp (shell_cycle fd) s s' \<Longrightarrow> shell_loop fd s = shell_loop fd s'"
  by (induction rule: rtranclp_induct) (auto simp: shell_cycle_def shell_loop.simps [of fd])

lemma shell_run_going: "going n u ctx w \<Longrightarrow> ensures (shell_run ctx w) (stopped_going n u)"
  unfolding shell_run_def by (intro vcg ensures_mono [OF shell_loop_going]) auto

section \<open>Start and end\<close>

text \<open>
  \<open>holds fd b l w\<close>: the heap has \<open>l\<close> blocks, and \<open>fd\<close> is open as often as it was (\<open>b\<close>), and once more for each
  module that owns it. Each step of starting and ending keeps that account.
\<close>

definition owned :: "world \<Rightarrow> int \<Rightarrow> int" where
  "owned w fd = event_owns w fd + terminal_owns w fd"

definition holds :: "int \<Rightarrow> int \<Rightarrow> int \<Rightarrow> world \<Rightarrow> bool" where
  "holds fd b l w \<longleftrightarrow> w_live w = l \<and> fd_bal w fd = b + owned w fd"

definition no_terminal :: "world \<Rightarrow> bool" where
  "no_terminal w \<longleftrightarrow> w_terminal_fd w < 0"

lemma owned_none: "event_none w \<Longrightarrow> no_terminal w \<Longrightarrow> owned w fd = 0"
  by (simp add: owned_def event_owns_none terminal_owns_def no_terminal_def)

lemma terminal_owns_none: "no_terminal w \<Longrightarrow> terminal_owns w fd = 0"
  by (simp add: terminal_owns_def no_terminal_def)

lemma terminal_frame:
  "same_terminal w w' \<Longrightarrow> (\<forall>fd. terminal_owns w' fd = terminal_owns w fd) \<and> no_terminal w' = no_terminal w"
  by (simp add: terminal_owns_def same_terminal_def no_terminal_def)

lemma event_frame:
  "same_event w w' \<Longrightarrow> (\<forall>fd. event_owns w' fd = event_owns w fd) \<and> event_none w' = event_none w"
  by (simp add: event_owns_def event_none_def same_event_def)

lemma statics_frame:
  "same_statics w w' \<Longrightarrow> (\<forall>fd. owned w' fd = owned w fd) \<and> event_none w' = event_none w \<and> no_terminal w' = no_terminal w"
  by (simp add: same_statics_def owned_def event_owns_def terminal_owns_def event_none_def no_terminal_def)

lemmas frames = terminal_frame event_frame statics_frame

definition same_owners :: "world \<Rightarrow> world \<Rightarrow> bool" where
  "same_owners w w' \<longleftrightarrow> (event_none w \<longrightarrow> event_none w') \<and> (no_terminal w \<longrightarrow> no_terminal w')"

lemma same_owners_trans: "same_owners u v \<Longrightarrow> same_owners v w \<Longrightarrow> same_owners u w"
  by (simp add: same_owners_def)

lemma holds_calm: "calm w w' \<Longrightarrow> holds fd b l w \<Longrightarrow> holds fd b l w' \<and> same_owners w w'"
  by (auto simp: holds_def calm_moves moves_iff same_owners_def dest!: frames)

lemma holds_event_init:
  "holds fd b l w \<Longrightarrow> 0 \<le> fd \<Longrightarrow>
     ensures (event_init w) (\<lambda>(r, v). holds fd b l v \<and> (no_terminal w \<longrightarrow> no_terminal v) \<and> (r < 0 \<longrightarrow> event_none v))"
  by (rule ensures_mono2 [OF event_init_eff [where fd = fd]], assumption, clarsimp simp: holds_def owned_def,
    drule terminal_frame, simp)

lemma holds_terminal_init:
  "holds fd b l w \<Longrightarrow> no_terminal w \<Longrightarrow>
     ensures (terminal_init w) (\<lambda>(r, v). holds fd b l v \<and> (event_none w \<longrightarrow> event_none v) \<and> (r < 0 \<longrightarrow> no_terminal v))"
  by (rule ensures_mono2 [OF terminal_init_eff], clarsimp simp: holds_def owned_def terminal_owns_none,
    drule event_frame, simp add: no_terminal_def, linarith)

lemma holds_event_shut:
  "holds fd b l w \<Longrightarrow> ensures (event_shut w) (\<lambda>v. holds fd b l v \<and> event_none v \<and> (no_terminal w \<longrightarrow> no_terminal v))"
  by (rule ensures_mono [OF event_shut_eff]) (auto simp: holds_def owned_def event_owns_none dest!: frames)

lemma holds_terminal_shutdown:
  "holds fd b l w \<Longrightarrow>
     ensures (terminal_shutdown w) (\<lambda>v. holds fd b l v \<and> no_terminal v \<and> (event_none w \<longrightarrow> event_none v))"
  by (rule ensures_mono [OF terminal_shutdown_eff])
    (auto simp: holds_def owned_def no_terminal_def terminal_owns_def dest!: frames)

lemma holds_signal_shutdown:
  "holds fd b l w \<Longrightarrow> ensures (signal_shutdown w) (\<lambda>v. holds fd b l v \<and> same_owners w v)"
  by (rule ensures_mono [OF signal_shutdown_calm]) (auto dest: holds_calm)

lemma holds_destroy:
  "holds fd b l w \<Longrightarrow> table_ok (ctx_jobs ctx) \<Longrightarrow>
     ensures (shell_context_destroy ctx w) (\<lambda>(ctx', v). holds fd b (l - table_blocks (ctx_jobs ctx)) v \<and> same_owners w v)"
  unfolding shell_context_destroy_def
  by (intro paths ensures_mono2 [OF job_shutdown_eff])
    (auto simp: holds_def same_owners_def dest!: frames)

lemmas holds_vcg =
  ensures_mono2 [OF holds_event_init] ensures_mono2 [OF holds_terminal_init] ensures_mono [OF holds_event_shut]
  ensures_mono [OF holds_terminal_shutdown] ensures_mono [OF holds_signal_shutdown] ensures_mono2 [OF holds_destroy]

text \<open>A process that has just started, or has given everything back.\<close>

definition fresh :: "world \<Rightarrow> bool" where
  "fresh w \<longleftrightarrow> w_live w = 0 \<and> event_none w \<and> no_terminal w"

lemma fresh_holds: "fresh w \<Longrightarrow> holds fd (fd_bal w fd) 0 w"
  by (simp add: fresh_def holds_def owned_none)

lemma holds_fresh: "holds fd b 0 w \<Longrightarrow> event_none w \<Longrightarrow> no_terminal w \<Longrightarrow> fresh w \<and> fd_bal w fd = b"
  by (simp add: fresh_def holds_def owned_none)

lemma holds_log [simp]: "holds fd b l (log_info m w) = holds fd b l w" "event_none (log_info m w) = event_none w"
  "no_terminal (log_info m w) = no_terminal w" "shell_inv n ctx (log_info m w) = shell_inv n ctx w"
  by (simp_all add: holds_def owned_def event_owns_def terminal_owns_def event_none_def no_terminal_def shell_inv_def)

lemma holds_level [simp]: "fresh (log_init w) = fresh w" "holds fd b l (log_init w) = holds fd b l w"
  "event_none (log_init w) = event_none w" "no_terminal (log_init w) = no_terminal w"
  by (simp_all add: log_init_def holds_def owned_def event_owns_def terminal_owns_def fresh_def event_none_def no_terminal_def)

lemma init_context_inv:
  "ctx_ok ctx \<Longrightarrow> ctx_jobs ctx = jobmanager_init \<Longrightarrow> last_exit_status ctx = 0 \<Longrightarrow> holds fd b 0 w \<Longrightarrow> shell_inv 0 ctx w"
  by (simp add: shell_inv_def ctx_ok_def table_inv_def holds_def jobmanager_init_def table_blocks_def)

lemma init_context_table: "table_ok jobmanager_init" "table_blocks jobmanager_init = 0"
  by (simp_all add: table_ok_def jobmanager_init_def table_blocks_def)

definition over :: "int \<Rightarrow> int \<Rightarrow> world \<Rightarrow> bool" where
  "over fd b w \<longleftrightarrow> fresh w \<and> fd_bal w fd = b"

lemma holds_over: "holds fd b 0 w \<Longrightarrow> event_none w \<Longrightarrow> no_terminal w \<Longrightarrow> over fd b w"
  using holds_fresh by (simp add: over_def)

lemma over_holds: "over fd b w \<Longrightarrow> holds fd b 0 w \<and> event_none w \<and> no_terminal w"
  using fresh_holds [of w fd] by (auto simp: over_def fresh_def)

lemma over_calm: "over fd b w \<Longrightarrow> calm w w' \<Longrightarrow> over fd b w'"
  using over_holds [of fd b w] holds_calm [of w w' fd b 0] by (auto simp: same_owners_def intro: holds_over)

definition started :: "int \<Rightarrow> int \<Rightarrow> ShellStatus \<times> ShellContext \<times> world \<Rightarrow> bool" where
  "started fd b res \<longleftrightarrow> (case res of (status, ctx, w) \<Rightarrow> holds fd b 0 w \<and>
     (if status = SHELL_STATUS_OK then shell_inv 0 ctx w \<and> running ctx else event_none w \<and> no_terminal w))"

lemma started_simps [simp]:
  "started fd b (SHELL_STATUS_OK, ctx, w) \<longleftrightarrow> holds fd b 0 w \<and> shell_inv 0 ctx w \<and> running ctx"
  "started fd b (SHELL_STATUS_ERROR, ctx, w) \<longleftrightarrow> holds fd b 0 w \<and> event_none w \<and> no_terminal w"
  by (auto simp: started_def)

lemma started_over: "started fd b (status, ctx, w) \<Longrightarrow> status \<noteq> SHELL_STATUS_OK \<Longrightarrow> over fd b w"
  by (cases status) (auto intro: holds_over)

lemma shell_init_eff:
  assumes "fresh w" and "0 \<le> fd"
  shows "ensures (shell_init w) (started fd (fd_bal w fd))"
proof -
  let ?b = "fd_bal w fd"
  have start: "holds fd ?b 0 v \<and> event_none v \<and> no_terminal v" if "calm (log_init w) v" for v
    using holds_calm [OF that, of fd ?b 0] fresh_holds [OF assms(1), of fd] assms(1)
    by (auto simp: same_owners_def fresh_def)
  have quit: "ensures (shell_context_destroy ctx v) (\<lambda>x. ensures (Some (SHELL_STATUS_ERROR, x)) (started fd ?b))"
    if "ctx_jobs ctx = jobmanager_init" "holds fd ?b 0 v" "event_none v" "no_terminal v" for ctx v
    using that
    by (intro ensures_mono2 [OF holds_destroy]) (auto simp: init_context_table same_owners_def ensures_def)
  have sig: "ensures (signal_init v) (\<lambda>(r, v'). holds fd ?b 0 v')" if "holds fd ?b 0 v" for v
    by (rule ensures_mono2 [OF signal_init_calm]) (use that in \<open>auto dest: holds_calm\<close>)
  show ?thesis
    unfolding shell_init_def Let_def
    by (intro paths ensures_mono2 [OF shell_context_init_eff])
      (auto dest!: start intro!: paths ensures_mono2 [OF holds_event_init [where fd = fd and b = ?b and l = 0]]
        ensures_mono2 [OF holds_terminal_init [where fd = fd and b = ?b and l = 0]] ensures_mono2 [OF sig]
        ensures_mono [OF holds_event_shut [where fd = fd and b = ?b and l = 0]]
        ensures_mono [OF holds_terminal_shutdown [where fd = fd and b = ?b and l = 0]]
        ensures_mono [OF holds_signal_shutdown [where fd = fd and b = ?b and l = 0]]
        quit assms(2) intro: init_context_inv simp: same_owners_def)
qed

text \<open>What the loop keeps of the account, and what tearing down gives back.\<close>

lemma going_holds:
  assumes "going 0 u ctx w" and "holds fd b l u" and "2 \<le> fd"
  shows "holds fd b (table_blocks (ctx_jobs ctx)) w"
proof -
  have "same_statics u w" "fd_bal w fd = fd_bal u fd" "w_live w = table_blocks (ctx_jobs ctx)"
    using assms(1,3) by (simp_all add: going_def beside_std_def shell_inv_def table_inv_def)
  with statics_frame [OF this(1)] assms(2) show ?thesis by (simp add: holds_def)
qed

lemma shell_cleanup_eff:
  assumes "table_ok (ctx_jobs ctx)" and "holds fd b (table_blocks (ctx_jobs ctx)) w"
  shows "ensures (shell_cleanup ctx w) (\<lambda>(c, v). over fd b v)"
proof -
  have close: "ensures (terminal_shutdown u) (\<lambda>w. over fd b w)" if "holds fd b 0 u \<and> event_none u" for u
    using that by (intro ensures_mono [OF holds_terminal_shutdown [of fd b 0]]) (auto intro: holds_over)
  have shut: "ensures (event_shut u) (\<lambda>w. holds fd b 0 w \<and> event_none w)" if "holds fd b 0 u" for u
    by (rule ensures_mono [OF holds_event_shut [OF that]]) simp
  have sig: "ensures (signal_shutdown u) (\<lambda>w. holds fd b 0 w)" if "holds fd b 0 u" for u
    by (rule ensures_mono [OF holds_signal_shutdown [OF that]]) simp
  show ?thesis
    unfolding shell_cleanup_def
    by (intro paths ensures_mono2 [OF holds_destroy [OF assms(2,1)]] ensures_mono [OF sig] ensures_mono [OF shut]
        ensures_mono [OF close] ensures_mono2 [OF shell_flush_stdout_calm] ensures_mono2 [OF shell_write_all_calm])
      (auto intro: over_calm)
qed

section \<open>main\<close>

definition booted :: "int \<Rightarrow> world \<Rightarrow> world \<Rightarrow> bool" where
  "booted fd w w' \<longleftrightarrow> (fresh w \<longrightarrow> fresh w') \<and> (3 \<le> fd \<longrightarrow> fd_bal w' fd = fd_bal w fd)"

lemma booted_trans: "booted fd u v \<Longrightarrow> booted fd v w \<Longrightarrow> booted fd u w"
  by (simp add: booted_def)

lemma called_booted: "called c a w w' \<Longrightarrow> fd_delta c a fd = d \<Longrightarrow>
    (fresh w \<longrightarrow> fresh w') \<and> fd_bal w' fd = fd_bal w fd + d"
  by (drule called_moves) (auto simp: moves_iff fresh_def dest!: statics_frame)

lemma ensure_standard_fd_eff:
  assumes "0 \<le> target" and "target < 3"
  shows "ensures (ensure_standard_fd target flags w) (\<lambda>(r, w'). booted fd w w')"
  unfolding ensure_standard_fd_def
  by (intro paths ensures_sys ensures_sysv) (use assms in \<open>auto simp: booted_def dest!: called_booted [where fd = fd, OF _ refl]\<close>)

lemma ensure_standard_fds_eff: "ensures (ensure_standard_fds w) (\<lambda>(r, w'). booted fd w w')"
  unfolding ensure_standard_fds_def
  by (intro paths ensures_mono2 [OF ensure_standard_fd_eff [where fd = fd]]) (auto intro: booted_trans)

lemma minishell_main_eff:
  assumes "fresh w" and "3 \<le> fd"
  shows "ensures (minishell_main w) (\<lambda>(res, v). \<forall>r. res = Parent r \<longrightarrow>
     0 \<le> r \<and> r \<le> 255 \<and> over fd (fd_bal w fd) v)"
proof -
  let ?b = "fd_bal w fd"
  have booted: "over fd ?b v" if "booted fd w v" for v
    using that assms by (simp add: booted_def over_def)
  have init: "ensures (shell_init v) (started fd ?b)" if "booted fd w v" for v
    using shell_init_eff [of v fd] booted [OF that] assms(2) by (simp add: over_def)
  have run: "ensures (shell_run ctx v) (stopped_going 0 v)" if "started fd ?b (SHELL_STATUS_OK, ctx, v)" for ctx v
    using that by (intro shell_run_going going_start) simp
  have clean: "ensures (shell_cleanup ctx v) (\<lambda>(c, v). over fd ?b v)"
    if "stopped_going 0 u (Parent (st, ctx), v)" "started fd ?b (SHELL_STATUS_OK, c, u)" for ctx u v st c
    using that going_holds [of u ctx v fd ?b 0] assms(2)
    by (intro shell_cleanup_eff) (auto simp: going_def shell_inv_def table_inv_def)
  show ?thesis
    unfolding minishell_main_def
    by (intro paths ensures_mono2 [OF ensure_standard_fds_eff [where fd = fd]])
      (auto dest: booted intro!: paths ensures_mono [OF init] ensures_mono [OF run] ensures_mono2 [OF clean]
        dest: started_over simp: going_def shell_inv_def intro: holds_over split: outcome.splits)
qed

section \<open>A run\<close>

text \<open>
  The equations that compute a run of the shell, and the answers to one: no configuration file, no
  terminal; the prompt is written, a character is typed, or the input ends.
\<close>

lemmas run_defs =
  init_world_def ok_def fail_def sys_def sysv_def Let_def log_init_def log_info_def log_write_def log_setlevel_def
  minishell_main_def ensure_standard_fds_def ensure_standard_fd_def
  shell_init_def shell_context_init_def shell_context_set_config_path_def blank_context_def config_init_def
  try_beside_executable_def event_init_def event_open_def event_set_flags_def pipe_ends_def terminal_init_def
  signal_init_def set_signal_action_def ignore_signal_def
  shell_run_def event_getfd_def shell_loop.simps shell_round_def shell_print_prompt_def snprintf_fits_def
  shell_flush_stdout.simps shell_write_all.simps shell_turn_def fd_isset_def shell_read_input_def read_data_def
  input_length_def shell_reset_input_def read_result_def after_input_def
  shell_cleanup_def shell_context_destroy_def job_shutdown_def jobmanager_init_def
  signal_shutdown_def event_shut_def terminal_shutdown_def

definition ready :: answer where
  "ready = (ok 1)\<lparr>a_fds := [0]\<rparr>"

definition key_answer :: "char \<Rightarrow> answer" where
  "key_answer c = (ok 1)\<lparr>a_bytes := [c]\<rparr>"

definition four_ok :: "answer list" where
  "four_ok = [ok 0, ok 0, ok 0, ok 0]"

definition demo_start :: "answer list" where
  "demo_start = [fail ENOENT, fail ENOENT, fail ENOENT, (ok 0)\<lparr>a_fds := [3, 4]\<rparr>] @ four_ok @ four_ok @ four_ok @ four_ok"

definition demo_typing :: "answer list" where
  "demo_typing = demo_start @ [ok 0, ok 99, ready, key_answer CHR ''l'']"

definition demo_run :: "answer list" where
  "demo_run = [ok 0, ok 0, ok 0] @ demo_start @ [ok 0, ok 99, ready, ok 0] @ four_ok @ [ok 0, ok 0, ok 0] @ [ok 99]"

lemma prompt_short: "copy_bounded PROMPTS_SIZE ''MiniShell'' = ''MiniShell''"
  by code_simp

lemmas demo_defs = demo_run_def demo_typing_def demo_start_def four_ok_def ready_def key_answer_def prompt_short farewell_def

lemma fresh_init: "fresh (init_world script)"
  by (simp add: fresh_def init_world_def event_none_def no_terminal_def)

section \<open>Properties\<close>

text \<open>C1: from a start that succeeds, whatever is typed, whichever signals arrive and whatever the
  kernel answers, every time the loop comes round the context is well formed, the last status is an exit
  status, the heap holds the job table and nothing else, and the descriptors opened and not closed
  are the ones of the event pipe and the terminal.\<close>

theorem shell_always:
  assumes "fresh w" and "shell_init w = Some (SHELL_STATUS_OK, ctx, v)"
    and "rtranclp (shell_cycle event_fd) (True, ctx, v) (prompt, ctx', w')" and "2 \<le> fd"
  shows "ctx_ok ctx' \<and> 0 \<le> last_exit_status ctx' \<and> last_exit_status ctx' \<le> 255 \<and>
     w_live w' = table_blocks (ctx_jobs ctx') \<and> fd_bal w' fd = fd_bal w fd + owned w' fd"
proof -
  have start: "holds fd (fd_bal w fd) 0 v" "shell_inv 0 ctx v"
    using ensures_D [OF assms(2) shell_init_eff [OF assms(1), of fd]] assms(4) by auto
  have "going 0 v ctx' w'"
    using shell_cycle_going [OF assms(3), of 0 v] going_start [OF start(2)] by simp
  with going_holds [OF this start(1) assms(4)] show ?thesis
    by (auto simp: going_def shell_inv_def table_inv_def holds_def ctx_ok_def)
qed

theorem shell_always_witness:
  "\<exists>ctx v ctx' w'. shell_init (init_world demo_typing) = Some (SHELL_STATUS_OK, ctx, v) \<and>
     rtranclp (shell_cycle 3) (True, ctx, v) (False, ctx', w') \<and> input_buffer ctx' = ''l'' \<and>
     w_live w' = table_blocks (ctx_jobs ctx') \<and> fd_bal w' 3 = owned w' 3"
proof -
  have "map_option (\<lambda>(st, ctx, v). (st, map_option
      (\<lambda>x. case x of Inl (p, c, u) \<Rightarrow> Some (p, input_buffer c) | Inr e \<Rightarrow> None) (shell_round 3 (True, ctx, v))))
      (shell_init (init_world demo_typing)) = Some (SHELL_STATUS_OK, Some (Some (False, ''l'')))"
    by (simp add: demo_defs run_defs)
  then obtain ctx v x where init: "shell_init (init_world demo_typing) = Some (SHELL_STATUS_OK, ctx, v)"
    and x: "shell_round 3 (True, ctx, v) = Some x"
      "(case x of Inl (p, c, u) \<Rightarrow> Some (p, input_buffer c) | Inr e \<Rightarrow> None) = Some (False, ''l'')"
    by auto
  from x(2) obtain c u where c: "x = Inl (False, c, u)" "input_buffer c = ''l''" by (cases x) auto
  then have cycle: "rtranclp (shell_cycle 3) (True, ctx, v) (False, c, u)"
    using x(1) by (simp add: shell_cycle_def r_into_rtranclp)
  from shell_always [OF fresh_init init cycle, of 3] init c cycle show ?thesis by (auto simp: init_world_def)
qed

text \<open>C2: if the program ends in its own process, its exit status lies between 0 and 255,
  every block of the heap has been freed, and every descriptor above the three standard ones that it
  opened, those behind streams and directories included, is closed, whichever way it ended and
  whatever failed on the way. The descriptors 0 to 2 are not in it: a standard one that was closed at
  the start is opened on \<^verbatim>\<open>/dev/null\<close> and stays so.\<close>

theorem minishell_main_clean:
  assumes "fresh w" and "minishell_main w = Some (Parent r, w')" and "3 \<le> fd"
  shows "0 \<le> r \<and> r \<le> 255 \<and> w_live w' = 0 \<and> event_none w' \<and> no_terminal w' \<and> fd_bal w' fd = fd_bal w fd"
  using ensures_D2 [OF assms(2) minishell_main_eff [OF assms(1,3)]] by (simp add: over_def fresh_def)

theorem minishell_main_clean_witness:
  "\<exists>w'. minishell_main (init_world demo_run) = Some (Parent 0, w') \<and> length (w_trace w') = 35 \<and>
     w_live w' = 0 \<and> fd_bal w' 3 = 0"
proof -
  have "map_option (\<lambda>(r, w). (r, length (w_trace w))) (minishell_main (init_world demo_run)) = Some (Parent 0, 35)"
    by (simp add: demo_defs run_defs)
  then obtain w' where run: "minishell_main (init_world demo_run) = Some (Parent 0, w')" "length (w_trace w') = 35" by auto
  from minishell_main_clean [OF fresh_init run(1), of 3] run show ?thesis by (simp add: init_world_def)
qed

end
