(* ===== verification/Shell_Input.thy ===== *)
theory Shell_Input
  imports Shell_Properties "HOL-Library.Sublist"
begin

text \<open>
  What becomes of the bytes: of those the shell writes, over short and interrupted writes, and of those
  the user types, over interrupted calls and lines that are too long.
\<close>

section \<open>Writing\<close>

text \<open>What the kernel accepted of a sequence of writes.\<close>

fun accepted :: "trace \<Rightarrow> string" where
  "accepted [] = []"
| "accepted ((Sys_write fd b, a) # t) = take (nat (a_ret a)) b @ accepted t"
| "accepted (x # t) = accepted t"

definition writes_only :: "int \<Rightarrow> trace \<Rightarrow> bool" where
  "writes_only fd t \<longleftrightarrow> (\<forall>(c, a)\<in>set t. \<exists>b. c = Sys_write fd b)"

definition written :: "int \<Rightarrow> string \<Rightarrow> world \<Rightarrow> int \<times> world \<Rightarrow> bool" where
  "written fd buffer w res \<longleftrightarrow> (case res of (r, w') \<Rightarrow> \<exists>t. w_trace w' = w_trace w @ t \<and> writes_only fd t \<and>
     prefix (accepted t) buffer \<and> (r = 0) = (accepted t = buffer))"

lemma written_step:
  assumes "sys (Sys_write fd buffer) w = Some (a, v)" and "written fd (drop k buffer) v res"
    and "take (nat (a_ret a)) buffer = take k buffer"
  shows "written fd buffer w res"
proof -
  obtain r w' where res: "res = (r, w')" by (cases res)
  from assms(2) obtain t where t: "w_trace w' = w_trace v @ t" "writes_only fd t"
    "prefix (accepted t) (drop k buffer)" "(r = 0) = (accepted t = drop k buffer)"
    by (auto simp: written_def res)
  have "w_trace w' = w_trace w @ (Sys_write fd buffer, a) # t" using t(1) sys_trace [OF assms(1)] by simp
  moreover have "accepted ((Sys_write fd buffer, a) # t) = take k buffer @ accepted t" using assms(3) by simp
  moreover have "prefix (take k buffer @ accepted t) buffer"
    using t(3) by (metis append_take_drop_id same_prefix_prefix)
  moreover have "(accepted t = drop k buffer) = (take k buffer @ accepted t = buffer)"
    by (metis append_take_drop_id same_append_eq)
  ultimately show ?thesis
    using t(2,4) unfolding written_def res by (auto simp: writes_only_def)
qed

lemma shell_write_all_written: "ensures (shell_write_all fd buffer w) (written fd buffer w)"
proof (induction w arbitrary: buffer rule: script_induct)
  case (less w)
  have stop: "written fd buffer w (-1, v)" if "sys (Sys_write fd buffer) w = Some (a, v)" "a_ret a \<le> 0" "buffer \<noteq> []" for a v
    by (rule written_step [OF that(1), where k = 0])
      (use that(2,3) in \<open>auto simp: written_def writes_only_def\<close>)
  have go: "written fd buffer w res"
    if "sys (Sys_write fd buffer) w = Some (a, v)" "shell_write_all fd (drop (nat (a_ret a)) buffer) v = Some res" for a v res
    using written_step [OF that(1) ensures_D [OF that(2) less]] sys_script_less [OF that(1)] by simp
  have again: "written fd buffer w res"
    if "sys (Sys_write fd buffer) w = Some (a, v)" "a_ret a < 0" "shell_write_all fd buffer v = Some res" for a v res
    using go [OF that(1)] that(2,3) by simp
  show ?case
    by (subst shell_write_all.simps)
      (auto simp: ensures_def written_def writes_only_def split: option.splits if_splits dest: go again stop)
qed

section \<open>Typing\<close>

text \<open>
  \<open>types\<close>: the answers to the calls of the loop while characters are typed: for each of them a select
  that reports standard input only and a read that returns the character, and between them selects
  and reads that are interrupted and selects that report neither descriptor. What the loop does when a
  signal is reported is not part of it; that is theory \<open>Signal_Delivery\<close>.
\<close>

definition stdin_ready :: "int \<Rightarrow> answer \<Rightarrow> bool" where
  "stdin_ready event_fd a \<longleftrightarrow> 0 \<le> a_ret a \<and> fd_isset STDIN_FILENO a \<and> \<not> fd_isset event_fd a"

definition gives_char :: "answer \<Rightarrow> char \<Rightarrow> bool" where
  "gives_char a c \<longleftrightarrow> a_ret a = 1 \<and> take 1 (a_bytes a) = [c]"

definition interrupted :: "answer \<Rightarrow> bool" where
  "interrupted a \<longleftrightarrow> a_ret a < 0 \<and> a_err a = EINTR"

definition idle :: "int \<Rightarrow> answer \<Rightarrow> bool" where
  "idle event_fd a \<longleftrightarrow> 0 \<le> a_ret a \<and> \<not> fd_isset STDIN_FILENO a \<and> \<not> fd_isset event_fd a"

inductive types :: "int \<Rightarrow> answer list \<Rightarrow> string \<Rightarrow> bool" for event_fd where
  none: "types event_fd [] []"
| key: "types event_fd as cs \<Longrightarrow> stdin_ready event_fd s \<Longrightarrow> gives_char a c \<Longrightarrow> c \<noteq> LF \<Longrightarrow>
    types event_fd (s # a # as) (c # cs)"
| select_interrupted: "types event_fd as cs \<Longrightarrow> interrupted s \<Longrightarrow> types event_fd (s # as) cs"
| select_idle: "types event_fd as cs \<Longrightarrow> idle event_fd s \<Longrightarrow> types event_fd (s # as) cs"
| read_interrupted: "types event_fd as cs \<Longrightarrow> stdin_ready event_fd s \<Longrightarrow> interrupted a \<Longrightarrow>
    types event_fd (s # a # as) cs"

text \<open>The line after one more character, and after several.\<close>

definition type_char :: "ShellContext \<Rightarrow> char \<Rightarrow> ShellContext" where
  "type_char ctx c =
     (if input_discarding ctx then ctx
      else if SHELL_INPUT_SIZE \<le> input_length ctx + 1
      then ctx\<lparr>last_exit_status := 2, input_buffer := [], input_discarding := True\<rparr>
      else ctx\<lparr>input_buffer := input_buffer ctx @ [c]\<rparr>)"

definition too_long :: "ShellContext \<Rightarrow> ShellContext" where
  "too_long ctx = ctx\<lparr>last_exit_status := 2, input_buffer := [], input_discarding := True\<rparr>"

abbreviation too_long_message :: string where
  "too_long_message \<equiv> ''minishell: input line is too long'' @ [LF]"

lemma discarding_stays: "input_discarding ctx \<Longrightarrow> foldl type_char ctx cs = ctx"
  by (induction cs) (simp_all add: type_char_def)

lemma typed_line:
  "\<not> input_discarding ctx \<Longrightarrow> input_length ctx < SHELL_INPUT_SIZE \<Longrightarrow> foldl type_char ctx cs =
     (if input_length ctx + length cs < SHELL_INPUT_SIZE then ctx\<lparr>input_buffer := input_buffer ctx @ cs\<rparr>
      else too_long ctx)"
proof (induction cs arbitrary: ctx)
  case (Cons c cs)
  show ?case
  proof (cases "SHELL_INPUT_SIZE \<le> input_length ctx + 1")
    case True
    then have "type_char ctx c = too_long ctx" using Cons.prems by (simp add: type_char_def too_long_def)
    then show ?thesis using True discarding_stays [of "too_long ctx" cs] by (simp add: too_long_def)
  next
    case False
    let ?ctx = "ctx\<lparr>input_buffer := input_buffer ctx @ [c]\<rparr>"
    have "type_char ctx c = ?ctx" using False Cons.prems by (simp add: type_char_def)
    then show ?thesis using Cons.IH [of ?ctx] Cons.prems False
      by (simp add: input_length_def too_long_def)
  qed
qed simp

text \<open>
  One key, one round. \<open>heard\<close>: what a stretch of the loop leaves: the answers still to come, the
  messages it wrote, and the heap as it was.
\<close>

definition heard :: "string list \<Rightarrow> answer list \<Rightarrow> world \<Rightarrow> world \<Rightarrow> bool" where
  "heard messages as w v \<longleftrightarrow>
     w_script v = as \<and> w_err v = w_err w @ messages \<and> w_live v = w_live w \<and> w_allocs v = w_allocs w"

lemma heard_trans: "heard ms as u v \<Longrightarrow> heard ns bs v w \<Longrightarrow> heard (ms @ ns) bs u w"
  by (simp add: heard_def)

lemma heard_script: "heard ms as u v \<Longrightarrow> w_script v = as"
  by (simp add: heard_def)

lemma heard_refl: "w_script w = as \<Longrightarrow> heard [] as w w"
  by (simp add: heard_def)

lemma heard_eprintf [simp]: "heard [m] as u (eprintf m v) \<longleftrightarrow> heard [] as u v"
  by (simp add: heard_def eprintf_def)

lemma sys_script: "w_script w = a # as \<Longrightarrow> \<exists>v. sys c w = Some (a, v) \<and> heard [] as w v"
  by (simp add: sys_def heard_def)

lemma round_select_interrupted:
  assumes "w_script w = s # as" and "interrupted s" and "running ctx"
  shows "\<exists>v. shell_cycle fd (False, ctx, w) (False, ctx, v) \<and> heard [] as w v"
  using sys_script [OF assms(1), of "Sys_select [STDIN_FILENO, fd]"] assms(2,3)
  by (auto simp: shell_cycle_def shell_round_def shell_turn_def interrupted_def)

lemma round_select_idle:
  assumes "w_script w = s # as" and "idle fd s" and "running ctx"
  shows "\<exists>v. shell_cycle fd (False, ctx, w) (False, ctx, v) \<and> heard [] as w v"
  using sys_script [OF assms(1), of "Sys_select [STDIN_FILENO, fd]"] assms(2,3)
  by (auto simp: shell_cycle_def shell_round_def shell_turn_def idle_def)

lemma turn_reads:
  assumes "w_script w = s # as" and "stdin_ready fd s" and "running ctx"
  shows "\<exists>v. heard [] as w v \<and>
    shell_turn fd ctx w = map_option (\<lambda>(res, w). (after_input False res, w)) (shell_read_input ctx v)"
  using sys_script [OF assms(1), of "Sys_select [STDIN_FILENO, fd]"] assms(2,3)
  by (auto simp: shell_turn_def stdin_ready_def map_conv_bind_option case_prod_beta' comp_def)

lemma round_reads:
  assumes "w_script w = s # a # as" and "stdin_ready fd s" and "running ctx"
    and "\<And>u. heard [] (a # as) w u \<Longrightarrow>
      \<exists>v r. shell_read_input ctx u = Some (Parent r, v) \<and> in_ret r = 0 \<and> \<not> in_eof r \<and> P (in_line_done r) (in_ctx r) v"
  shows "\<exists>prompt ctx' v. shell_cycle fd (False, ctx, w) (prompt, ctx', v) \<and> P prompt ctx' v"
proof -
  obtain u where u: "heard [] (a # as) w u"
    and t: "shell_turn fd ctx w = map_option (\<lambda>(res, w). (after_input False res, w)) (shell_read_input ctx u)"
    using turn_reads [OF assms(1-3)] by blast
  from assms(4) [OF u] t assms(3) show ?thesis
    by (auto simp: shell_cycle_def shell_round_def after_input_def)
qed

lemma round_read_interrupted:
  assumes "w_script w = s # a # as" and "stdin_ready fd s" and "interrupted a" and "running ctx"
  shows "\<exists>v. shell_cycle fd (False, ctx, w) (False, ctx, v) \<and> heard [] as w v"
proof -
  have "\<exists>v r. shell_read_input ctx u = Some (Parent r, v) \<and> in_ret r = 0 \<and> \<not> in_eof r \<and>
      \<not> in_line_done r \<and> in_ctx r = ctx \<and> heard [] as w v"
    if "heard [] (a # as) w u" for u
    using sys_script [OF heard_script [OF that], of "Sys_read STDIN_FILENO 1"] assms(3) heard_trans [OF that]
    by (auto simp: shell_read_input_def interrupted_def)
  from round_reads [OF assms(1,2,4), of "\<lambda>p c v. \<not> p \<and> c = ctx \<and> heard [] as w v"] this
  show ?thesis by auto
qed

lemma gives_char_data: "gives_char a c \<Longrightarrow> hd (read_data 1 a) = c \<and> a_ret a = 1"
  by (cases "a_bytes a") (auto simp: gives_char_def read_data_def Let_def)

text \<open>A line that becomes too long with this character is reported once.\<close>

definition overflows :: "ShellContext \<Rightarrow> bool" where
  "overflows ctx \<longleftrightarrow> \<not> input_discarding ctx \<and> SHELL_INPUT_SIZE \<le> input_length ctx + 1"

lemma round_key:
  assumes "w_script w = s # a # as" and "stdin_ready fd s" and "gives_char a c" and "c \<noteq> LF" and "running ctx"
  shows "\<exists>v. shell_cycle fd (False, ctx, w) (False, type_char ctx c, v) \<and>
    heard (if overflows ctx then [too_long_message] else []) as w v"
proof -
  have "\<exists>v r. shell_read_input ctx u = Some (Parent r, v) \<and> in_ret r = 0 \<and> \<not> in_eof r \<and>
      \<not> in_line_done r \<and> in_ctx r = type_char ctx c \<and>
      heard (if overflows ctx then [too_long_message] else []) as w v"
    if "heard [] (a # as) w u" for u
    using sys_script [OF heard_script [OF that], of "Sys_read STDIN_FILENO 1"] gives_char_data [OF assms(3)]
      assms(4) heard_trans [OF that, of "[]" as]
    by (auto simp: shell_read_input_def type_char_def overflows_def)
  from round_reads [OF assms(1,2,5), of "\<lambda>p c' v. \<not> p \<and> c' = type_char ctx c \<and>
      heard (if overflows ctx then [too_long_message] else []) as w v"] this
  show ?thesis by auto
qed

lemma running_type_char [simp]: "running (foldl type_char ctx cs) = running ctx"
  by (induction cs arbitrary: ctx) (simp_all add: type_char_def)

text \<open>How many of the characters make the line too long: at most one.\<close>

fun overflow_messages :: "ShellContext \<Rightarrow> string \<Rightarrow> string list" where
  "overflow_messages ctx [] = []"
| "overflow_messages ctx (c # cs) =
     (if overflows ctx then [too_long_message] else []) @ overflow_messages (type_char ctx c) cs"

lemma no_more_messages: "input_discarding ctx \<Longrightarrow> overflow_messages ctx cs = []"
  by (induction cs) (simp_all add: overflows_def type_char_def)

lemma overflow_once:
  "\<not> input_discarding ctx \<Longrightarrow> input_length ctx < SHELL_INPUT_SIZE \<Longrightarrow> overflow_messages ctx cs =
     (if input_length ctx + length cs < SHELL_INPUT_SIZE then [] else [too_long_message])"
proof (induction cs arbitrary: ctx)
  case (Cons c cs)
  show ?case
  proof (cases "overflows ctx")
    case True
    then have "input_discarding (type_char ctx c)" by (simp add: overflows_def type_char_def)
    then show ?thesis using True no_more_messages Cons.prems by (simp add: overflows_def)
  next
    case False
    let ?ctx = "ctx\<lparr>input_buffer := input_buffer ctx @ [c]\<rparr>"
    have "type_char ctx c = ?ctx" using False Cons.prems by (simp add: type_char_def overflows_def)
    then show ?thesis using Cons.IH [of ?ctx] Cons.prems False by (simp add: input_length_def overflows_def)
  qed
qed simp

lemma again:
  assumes "shell_cycle fd s (False, ctx, u)" and "heard ms as w u"
    and "w_script u = as \<Longrightarrow> running ctx \<Longrightarrow> \<exists>v. rtranclp (shell_cycle fd) (False, ctx, u) (False, ctx', v) \<and> heard ns rest u v"
    and "running ctx"
  shows "\<exists>v. rtranclp (shell_cycle fd) s (False, ctx', v) \<and> heard (ms @ ns) rest w v"
  using assms(3) [OF heard_script [OF assms(2)] assms(4)] assms(1) heard_trans [OF assms(2)]
  by (blast intro: converse_rtranclp_into_rtranclp)

lemma typing_cycles:
  assumes "types fd as cs" and "w_script w = as @ rest" and "running ctx"
  shows "\<exists>v. rtranclp (shell_cycle fd) (False, ctx, w) (False, foldl type_char ctx cs, v) \<and>
    heard (overflow_messages ctx cs) rest w v"
  using assms
proof (induction arbitrary: ctx w rule: types.induct)
  case none
  then show ?case by (auto intro: heard_refl)
next
  case (key as cs s a c)
  have run: "running (type_char ctx c)" using running_type_char [of ctx "[c]"] key.prems(2) by simp
  obtain u where "shell_cycle fd (False, ctx, w) (False, type_char ctx c, u)"
    "heard (if overflows ctx then [too_long_message] else []) (as @ rest) w u"
    using round_key [OF _ key.hyps(2,3,4) key.prems(2), of w "as @ rest"] key.prems(1) by auto
  from again [OF this key.IH [of u "type_char ctx c"] run] show ?case by simp
next
  case (select_interrupted as cs s)
  obtain u where "shell_cycle fd (False, ctx, w) (False, ctx, u)" "heard [] (as @ rest) w u"
    using round_select_interrupted [of w s "as @ rest" ctx fd] select_interrupted by auto
  then show ?case using select_interrupted.IH [of u ctx] select_interrupted.prems(2) again [where ms = "[]"] by fastforce
next
  case (select_idle as cs s)
  obtain u where "shell_cycle fd (False, ctx, w) (False, ctx, u)" "heard [] (as @ rest) w u"
    using round_select_idle [of w s "as @ rest" fd ctx] select_idle by auto
  then show ?case using select_idle.IH [of u ctx] select_idle.prems(2) again [where ms = "[]"] by fastforce
next
  case (read_interrupted as cs s a)
  obtain u where "shell_cycle fd (False, ctx, w) (False, ctx, u)" "heard [] (as @ rest) w u"
    using round_read_interrupted [of w s a "as @ rest" fd ctx] read_interrupted by auto
  then show ?case using read_interrupted.IH [of u ctx] read_interrupted.prems(2) again [where ms = "[]"] by fastforce
qed

text \<open>The line end.\<close>

lemma loop_line_end:
  assumes "w_script w = s # a # as" and "stdin_ready fd s" and "gives_char a LF" and "running ctx"
  shows "\<exists>v. heard [] as w v \<and> shell_loop fd (False, ctx, w) =
    (if input_discarding ctx then shell_loop fd (True, shell_reset_input ctx, v)
     else do {
       (res, v) \<leftarrow> shell_dispatch_input ctx v;
       (case res of
          Child_gone \<Rightarrow> Some (Child_gone, v)
        | Parent ctx \<Rightarrow> shell_loop fd (True, ctx, v)) })"
proof -
  obtain u where u: "heard [] (a # as) w u"
    and t: "shell_turn fd ctx w = map_option (\<lambda>(res, w). (after_input False res, w)) (shell_read_input ctx u)"
    using turn_reads [OF assms(1,2,4)] by blast
  obtain v where v: "sys (Sys_read STDIN_FILENO 1) u = Some (a, v)" "heard [] as w v"
    using sys_script [OF heard_script [OF u], of "Sys_read STDIN_FILENO 1"] heard_trans [OF u] by auto
  have r: "shell_read_input ctx u =
      (if input_discarding ctx then Some (Parent (read_result 0 True False (shell_reset_input ctx)), v)
       else dispatch_done False ctx v)"
    using v(1) gives_char_data [OF assms(3)] by (simp add: shell_read_input_def)
  show ?thesis
  proof (intro exI conjI)
    show "shell_loop fd (False, ctx, w) =
      (if input_discarding ctx then shell_loop fd (True, shell_reset_input ctx, v)
       else do {
         (res, v) \<leftarrow> shell_dispatch_input ctx v;
         (case res of
            Child_gone \<Rightarrow> Some (Child_gone, v)
          | Parent ctx \<Rightarrow> shell_loop fd (True, ctx, v)) })"
      using assms(4)
      by (subst shell_loop.simps, cases "shell_dispatch_input ctx v")
        (auto simp: shell_round_def t r after_input_def dispatch_done_def split: outcome.splits)
  qed (use v in auto)
qed

lemma line_heard:
  assumes "types fd as cs" and "stdin_ready fd s" and "gives_char a LF" and "w_script w = as @ s # a # rest"
    and "running ctx" and "input_buffer ctx = []" and "\<not> input_discarding ctx"
  shows "\<exists>v. heard (if length cs < SHELL_INPUT_SIZE then [] else [too_long_message]) rest w v \<and>
    shell_loop fd (False, ctx, w) =
     (if length cs < SHELL_INPUT_SIZE
      then do {
        (res, v) \<leftarrow> shell_dispatch_input (ctx\<lparr>input_buffer := cs\<rparr>) v;
        (case res of
           Child_gone \<Rightarrow> Some (Child_gone, v)
         | Parent ctx \<Rightarrow> shell_loop fd (True, ctx, v)) }
      else shell_loop fd (True, shell_reset_input (ctx\<lparr>last_exit_status := 2\<rparr>), v))"
proof -
  have empty: "input_length ctx = 0" using assms(6) by (simp add: input_length_def)
  let ?ctx = "foldl type_char ctx cs"
  obtain u where u: "rtranclp (shell_cycle fd) (False, ctx, w) (False, ?ctx, u)"
    "heard (overflow_messages ctx cs) (s # a # rest) w u"
    using typing_cycles [OF assms(1,4,5)] by blast
  have run: "running ?ctx" using assms(5) by simp
  have short: "?ctx = (if length cs < SHELL_INPUT_SIZE then ctx\<lparr>input_buffer := cs\<rparr> else too_long ctx)"
    "overflow_messages ctx cs = (if length cs < SHELL_INPUT_SIZE then [] else [too_long_message])"
    using typed_line [OF assms(7), of cs] overflow_once [OF assms(7), of cs] empty assms(6) by simp_all
  have reset: "shell_reset_input (too_long ctx) = shell_reset_input (ctx\<lparr>last_exit_status := 2\<rparr>)"
    by (simp add: shell_reset_input_def too_long_def)
  have disc: "input_discarding ?ctx \<longleftrightarrow> \<not> length cs < SHELL_INPUT_SIZE" using short(1) assms(7) by (simp add: too_long_def)
  from loop_line_end [OF heard_script [OF u(2)] assms(2,3) run] shell_cycle_loop [OF u(1)] heard_trans [OF u(2)]
  show ?thesis unfolding disc unfolding short reset [symmetric] by (fastforce split: if_splits)
qed

section \<open>Properties\<close>

text \<open>C25: \<^verbatim>\<open>shell_write_all\<close> reports success exactly when the bytes the kernel
  accepted, over all writes, are the whole buffer, in order and without repetition, however short or
  interrupted the writes were; otherwise they are a proper prefix of it. It writes to its descriptor
  only.\<close>

theorem shell_write_complete:
  assumes "shell_write_all fd buffer w = Some (r, w')"
  shows "\<exists>t. w_trace w' = w_trace w @ t \<and> writes_only fd t \<and> prefix (accepted t) buffer \<and>
     (r = 0) = (accepted t = buffer)"
  using ensures_D [OF assms shell_write_all_written] by (simp add: written_def)

theorem shell_write_complete_witness:
  "\<exists>w' t. shell_write_all 1 ''hello'' (init_world [ok 2, fail EINTR, ok 3]) = Some (0, w') \<and>
     w_trace w' = t \<and> accepted t = ''hello'' \<and> length t = 3"
proof -
  let ?w = "init_world [ok 2, fail EINTR, ok 3]"
  have run: "map_option (\<lambda>(r, w). (r, length (w_trace w))) (shell_write_all 1 ''hello'' ?w) = Some (0, 3)" by code_simp
  then obtain w' where w': "shell_write_all 1 ''hello'' ?w = Some (0, w')" "length (w_trace w') = 3" by auto
  from shell_write_complete [OF w'(1)] w' show ?thesis by (auto simp: init_world_def)
qed

text \<open>C11: a line typed to a running shell while no signal is reported is neither lost nor mangled
  by interrupted selects and reads and by selects that report nothing. If it fits the buffer, the loop hands exactly its characters to
  \<^verbatim>\<open>shell_dispatch_input\<close> and goes on with a new prompt; if not, no part of it is ever run: it is
  reported once, the status is 2, and the loop goes on with an empty line.\<close>

theorem line_typed:
  assumes "types fd as cs" and "stdin_ready fd s" and "gives_char a LF" and "w_script w = as @ s # a # rest"
    and "running ctx" and "input_buffer ctx = []" and "\<not> input_discarding ctx"
  shows "\<exists>v. w_script v = rest \<and>
    (if length cs < SHELL_INPUT_SIZE
     then w_err v = w_err w \<and> shell_loop fd (False, ctx, w) = do {
       (res, v) \<leftarrow> shell_dispatch_input (ctx\<lparr>input_buffer := cs\<rparr>) v;
       (case res of
          Child_gone \<Rightarrow> Some (Child_gone, v)
        | Parent ctx \<Rightarrow> shell_loop fd (True, ctx, v)) }
     else w_err v = w_err w @ [''minishell: input line is too long'' @ [LF]] \<and>
       shell_loop fd (False, ctx, w) = shell_loop fd (True, shell_reset_input (ctx\<lparr>last_exit_status := 2\<rparr>), v))"
  using line_heard [OF assms] by (auto simp: heard_def split: if_splits)

theorem line_typed_witness:
  "\<exists>v. w_script v = [] \<and>
     shell_loop 3 (False, blank_context\<lparr>running := True\<rparr>, init_world
       [fail EINTR, ready, key_answer CHR ''l'', ok 0, ready, fail EINTR, ready, key_answer CHR ''s'',
        ready, key_answer LF]) =
     do {
       (res, v) \<leftarrow> shell_dispatch_input (blank_context\<lparr>running := True, input_buffer := ''ls''\<rparr>) v;
       (case res of
          Child_gone \<Rightarrow> Some (Child_gone, v)
        | Parent ctx \<Rightarrow> shell_loop 3 (True, ctx, v)) }"
proof -
  have ready: "stdin_ready 3 ready" by (simp add: stdin_ready_def ready_def ok_def fd_isset_def)
  have key: "gives_char (key_answer c) c" for c by (simp add: gives_char_def key_answer_def ok_def)
  have eintr: "interrupted (fail EINTR)" by (simp add: interrupted_def fail_def ok_def)
  have none: "idle 3 (ok 0)" by (simp add: idle_def ok_def fd_isset_def)
  have "types 3 [fail EINTR, ready, key_answer CHR ''l'', ok 0, ready, fail EINTR, ready, key_answer CHR ''s''] ''ls''"
    by (intro types.intros ready key eintr none) simp_all
  from line_typed [OF this ready key [of LF],
      of "init_world [fail EINTR, ready, key_answer CHR ''l'', ok 0, ready, fail EINTR, ready, key_answer CHR ''s'',
        ready, key_answer LF]" "[]" "blank_context\<lparr>running := True\<rparr>"]
  show ?thesis by (auto simp: init_world_def blank_context_def)
qed

end
