(* ===== verification/Returns.thy ===== *)
theory Returns
  imports Shell_Properties
begin

text \<open>
  Operations that end. \<open>gives\<close> is the total counterpart of \<open>ensures\<close>: the computation has a result.
  What it costs is counted in answers of the kernel: \<open>credit\<close> is the number of answers still to
  come, less two for each that is an interruption. An answer that is none uses up one unit of it, an
  interruption gives one back, which pays for the repeated call and for the
  \<^verbatim>\<open>clearerr\<close> in front of it. An operation that needs \<open>k\<close> units therefore ends within
  \<open>k\<close> calls, and two more for each interruption.
\<close>

section \<open>Having a result\<close>

named_theorems total

definition gives :: "'a option \<Rightarrow> ('a \<Rightarrow> bool) \<Rightarrow> bool" where
  "gives m Q \<longleftrightarrow> (\<exists>x. m = Some x \<and> Q x)"

lemma gives_D: "gives m Q \<Longrightarrow> \<exists>x. m = Some x \<and> Q x"
  by (simp add: gives_def)

lemma gives_mono: "gives m P \<Longrightarrow> (\<And>x. P x \<Longrightarrow> Q x) \<Longrightarrow> gives m Q"
  by (auto simp: gives_def)

lemma gives_mono2: "gives m (\<lambda>(x, y). P x y) \<Longrightarrow> (\<And>x y. P x y \<Longrightarrow> Q (x, y)) \<Longrightarrow> gives m Q"
  by (auto simp: gives_def)

lemma gives_mono3:
  "gives m (\<lambda>(x, y, z). P x y z) \<Longrightarrow> (\<And>x y z. P x y z \<Longrightarrow> Q (x, y, z)) \<Longrightarrow> gives m Q"
  by (auto simp: gives_def)

lemma gives_ensures: "gives m P \<Longrightarrow> ensures m Q \<Longrightarrow> gives m (\<lambda>x. P x \<and> Q x)"
  by (auto simp: gives_def ensures_def)

lemma gives_Some [total]: "Q x \<Longrightarrow> gives (Some x) Q"
  by (simp add: gives_def)

lemma gives_bind [total]: "gives m (\<lambda>x. gives (f x) Q) \<Longrightarrow> gives (Option.bind m f) Q"
  by (auto simp: gives_def)

lemma gives_case [total]: "gives m (\<lambda>x. gives (f x) Q) \<Longrightarrow> gives (case m of None \<Rightarrow> None | Some x \<Rightarrow> f x) Q"
  by (auto simp: gives_def)

lemma gives_if [total]: "(b \<Longrightarrow> gives x Q) \<Longrightarrow> (\<not> b \<Longrightarrow> gives y Q) \<Longrightarrow> gives (if b then x else y) Q"
  by simp

lemma gives_prod [total]: "gives (f a b) Q \<Longrightarrow> gives (case (a, b) of (x, y) \<Rightarrow> f x y) Q"
  by simp

lemma gives_Let [total]: "gives (f x) Q \<Longrightarrow> gives (Let x f) Q"
  by simp

lemma gives_map: "gives (map_option f m) Q \<longleftrightarrow> gives m (\<lambda>x. Q (f x))"
  by (auto simp: gives_def)

section \<open>Credit\<close>

definition credit :: "answer list \<Rightarrow> int" where
  "credit as = int (length as) - 2 * int (length (filter (\<lambda>a. a_err a = EINTR) as))"

lemma credit_Cons: "credit (a # as) = credit as + (if a_err a = EINTR then -1 else 1)"
  by (simp add: credit_def)

lemma gives_sys [total]:
  assumes "0 < credit (w_script w)"
    and "\<And>a w'. length (w_script w') < length (w_script w) \<Longrightarrow> credit (w_script w) - 1 \<le> credit (w_script w') \<Longrightarrow>
      (a_err a = EINTR \<Longrightarrow> credit (w_script w') = credit (w_script w) + 1) \<Longrightarrow> Q (a, w')"
  shows "gives (sys c w) Q"
proof (cases "w_script w")
  case Nil
  with assms(1) show ?thesis by (simp add: credit_def)
next
  case (Cons a as)
  with assms(2) show ?thesis by (simp add: gives_def sys_def credit_Cons)
qed

lemma gives_sysv [total]:
  "0 < credit (w_script w) \<Longrightarrow>
     (\<And>w'. credit (w_script w) - 1 \<le> credit (w_script w') \<Longrightarrow> Q w') \<Longrightarrow> gives (sysv c w) Q"
  by (auto simp: sysv_def gives_map intro: gives_sys)

lemma sys_retry_gives:
  "0 < credit (w_script w) \<Longrightarrow>
     gives (sys_retry c w) (\<lambda>(a, w'). credit (w_script w) - 1 \<le> credit (w_script w'))"
proof (induction w rule: script_induct)
  case (less w)
  show ?case
    by (subst sys_retry.simps, intro total gives_mono2 [OF less.IH]) (use less.prems in auto)
qed

lemmas retry_total [total] = gives_mono2 [OF sys_retry_gives]

section \<open>Output\<close>

lemma shell_flush_stdout_returns:
  "0 < credit (w_script w) \<Longrightarrow>
     gives (shell_flush_stdout w) (\<lambda>(r, w'). credit (w_script w) - 1 \<le> credit (w_script w'))"
proof (induction w rule: script_induct)
  case (less w)
  show ?case
    by (subst shell_flush_stdout.simps, intro total gives_mono2 [OF less.IH]) (use less.prems in auto)
qed

lemma shell_write_all_returns:
  "int (length buffer) \<le> credit (w_script w) \<Longrightarrow>
     gives (shell_write_all fd buffer w) (\<lambda>(r, w'). credit (w_script w) - int (length buffer) \<le> credit (w_script w'))"
proof (induction w arbitrary: buffer rule: script_induct)
  case (less w)
  show ?case
    by (cases buffer; subst shell_write_all.simps, intro total gives_mono2 [OF less.IH]) (use less.prems in auto)
qed

lemmas output_total [total] =
  gives_mono2 [OF shell_flush_stdout_returns] gives_mono2 [OF shell_write_all_returns]

section \<open>Sweeps over the job table\<close>

definition process_count :: "Job list \<Rightarrow> int" where
  "process_count js = (\<Sum>j\<leftarrow>js. int (length (j_processes j)))"

lemma process_count_simps [simp]:
  "process_count [] = 0" "process_count (j # js) = int (length (j_processes j)) + process_count js"
  by (simp_all add: process_count_def)

lemma process_count_nonneg: "0 \<le> process_count js"
  by (induction js) simp_all

lemma process_count_same: "same_jobs js js' \<Longrightarrow> process_count js' = process_count js \<and> length js' = length js"
  unfolding same_jobs_def
  by (induction rule: list_all2_induct) (auto simp: same_job_def dest: map_eq_imp_length_eq)

text \<open>A sweep whose visits need one unit each.\<close>

locale job_sweep_returns = job_sweep +
  assumes visit_returns: "0 < credit (w_script w) \<Longrightarrow>
    gives (visit i p w) (\<lambda>(p', w'). credit (w_script w) - 1 \<le> credit (w_script w'))"
begin

lemma all_returns:
  "int (length ps) \<le> credit (w_script w) \<Longrightarrow>
     gives (visit_all i ps w) (\<lambda>(ps', w'). credit (w_script w) - int (length ps) \<le> credit (w_script w'))"
proof (induction ps arbitrary: w)
  case Nil
  then show ?case unfolding all_Nil by (simp add: gives_def)
next
  case (Cons p ps)
  show ?case unfolding all_Cons
    by (intro total gives_mono2 [OF visit_returns] gives_mono2 [OF Cons.IH]) (use Cons.prems in auto)
qed

lemma sweep_returns:
  "process_count js \<le> credit (w_script w) \<Longrightarrow>
     gives (sweep js w) (\<lambda>(js', w'). credit (w_script w) - process_count js \<le> credit (w_script w'))"
proof (induction js arbitrary: w)
  case Nil
  then show ?case unfolding sweep_Nil by (simp add: gives_def)
next
  case (Cons j js)
  have "0 \<le> process_count js" by (rule process_count_nonneg)
  then show ?case unfolding sweep_Cons
    by (intro total gives_mono2 [OF all_returns] gives_mono2 [OF Cons.IH]) (use Cons.prems in auto)
qed

lemma sweep_total:
  assumes "process_count js \<le> credit (w_script w)"
  shows "gives (sweep js w) (\<lambda>(js', w'). credit (w_script w) - process_count js \<le> credit (w_script w') \<and> same_jobs js js')"
  by (rule gives_mono [OF gives_ensures [OF sweep_returns [OF assms] sweep_calm]]) auto

end

lemma try_reap_loop_returns:
  "0 < credit (w_script w) \<Longrightarrow>
     gives (process_try_reap_loop p w) (\<lambda>(r, p', w'). credit (w_script w) - 1 \<le> credit (w_script w'))"
proof (induction w rule: script_induct)
  case (less w)
  show ?case
    by (subst process_try_reap_loop.simps, intro total gives_mono3 [OF less.IH]) (use less.prems in auto)
qed

lemma force_reap_loop_returns:
  "0 < credit (w_script w) \<Longrightarrow>
     gives (process_force_reap_loop p w) (\<lambda>(p', w'). credit (w_script w) - 1 \<le> credit (w_script w'))"
proof (induction w rule: script_induct)
  case (less w)
  show ?case
    by (subst process_force_reap_loop.simps, intro total gives_mono2 [OF less.IH]) (use less.prems in auto)
qed

interpretation polite_total: job_sweep_returns
  "\<lambda>_ p w. map_option snd (process_try_reap p w)"
  "\<lambda>_ ps w. map_option snd (try_reap_processes ps w)"
  "\<lambda>js w. map_option snd (try_reap_jobs js w)"
proof unfold_locales
  show "gives (map_option snd (process_try_reap p w)) (\<lambda>(p', w'). credit (w_script w) - 1 \<le> credit (w_script w'))"
    if "0 < credit (w_script w)" for p w
    using that unfolding process_try_reap_def gives_map
    by (intro total gives_mono3 [OF try_reap_loop_returns]) auto
qed

interpretation forced_total: job_sweep_returns
  "\<lambda>_. process_force_reap" "\<lambda>_. force_reap_processes" force_reap_jobs
proof unfold_locales
  show "gives (process_force_reap p w) (\<lambda>(p', w'). credit (w_script w) - 1 \<le> credit (w_script w'))"
    if "0 < credit (w_script w)" for p w
    using that unfolding process_force_reap_def
    by (intro total gives_mono2 [OF force_reap_loop_returns]) auto
qed

lemma try_reap_jobs_total:
  assumes "process_count js \<le> credit (w_script w)"
  shows "gives (try_reap_jobs js w) (\<lambda>(r, js', w').
    credit (w_script w) - process_count js \<le> credit (w_script w') \<and> same_jobs js js')"
  using polite_total.sweep_total [OF assms] by (auto simp: gives_map case_prod_beta')

section \<open>Shutting down\<close>

lemma continue_jobs_total:
  "int (length js) \<le> credit (w_script w) \<Longrightarrow>
     gives (continue_jobs js w) (\<lambda>(js', w'). credit (w_script w) - int (length js) \<le> credit (w_script w'))"
proof (induction js arbitrary: w)
  case (Cons j js)
  show ?case unfolding continue_jobs.simps continue_stopped_job_def
    by (intro total gives_mono2 [OF Cons.IH]) (use Cons.prems in \<open>auto split: if_splits\<close>)
qed (simp add: gives_def)

lemma terminate_jobs_total:
  "int (length js) \<le> credit (w_script w) \<Longrightarrow>
     gives (terminate_jobs js w) (\<lambda>w'. credit (w_script w) - int (length js) \<le> credit (w_script w'))"
proof (induction js arbitrary: w)
  case (Cons j js)
  show ?case unfolding terminate_jobs.simps
    by (intro total gives_mono [OF Cons.IH]) (use Cons.prems in \<open>auto split: if_splits\<close>)
qed (simp add: gives_def)

lemma kill_jobs_total:
  "int (length js) \<le> credit (w_script w) \<Longrightarrow>
     gives (kill_jobs js w) (\<lambda>w'. credit (w_script w) - int (length js) \<le> credit (w_script w'))"
proof (induction js arbitrary: w)
  case (Cons j js)
  show ?case unfolding kill_jobs.simps
    by (intro total gives_mono [OF Cons.IH]) (use Cons.prems in \<open>auto split: if_splits\<close>)
qed (simp add: gives_def)

lemma shutdown_retry_total:
  "int n * (process_count (jobs m) + 1) \<le> credit (w_script w) \<Longrightarrow>
     gives (shutdown_retry n m w) (\<lambda>(m', w').
       credit (w_script w) - int n * (process_count (jobs m) + 1) \<le> credit (w_script w') \<and> same_jobs (jobs m) (jobs m'))"
proof (induction n arbitrary: m w)
  case (Suc n)
  let ?p = "process_count (jobs m)"
  obtain r where r: "int n * (?p + 1) = r" "0 \<le> r" using process_count_nonneg [of "jobs m"] by simp
  have mult: "int (Suc n) * (?p + 1) = r + ?p + 1" using r(1) by (simp add: algebra_simps)
  note enough = Suc.prems [unfolded mult] process_count_nonneg [of "jobs m"] r(2)
  have IH: "gives (shutdown_retry n m' v) (\<lambda>(m'', w').
      credit (w_script w) - (r + ?p + 1) \<le> credit (w_script w') \<and> same_jobs (jobs m) (jobs m''))"
    if "same_jobs (jobs m) (jobs m')" "credit (w_script w) - ?p - 1 \<le> credit (w_script v)" for m' v
    using Suc.IH [of m' v] enough that process_count_same [OF that(1)] r(1)
    by (auto elim!: gives_mono intro: same_jobs_trans)
  show ?case unfolding shutdown_retry.simps jobmanager_try_reap_all_def shutdown_sleep_def mult
    by (intro total gives_mono3 [OF try_reap_jobs_total] IH) (use enough in auto)
qed (simp add: gives_def)

text \<open>What shutting down needs at most: for each job the three signals of its group, for each process
  51 attempts to reap it, and the pauses between them.\<close>

definition shutdown_cost :: "JobManager \<Rightarrow> int" where
  "shutdown_cost m = 3 * int (length (jobs m)) + 51 * process_count (jobs m) + 50"

lemma job_shutdown_total:
  assumes "shutdown_cost m \<le> credit (w_script w)"
  shows "gives (job_shutdown m w) (\<lambda>(m', w'). credit (w_script w) - shutdown_cost m \<le> credit (w_script w'))"
proof -
  have continued: "gives (continue_jobs (jobs m) w) (\<lambda>(js, w').
      credit (w_script w) - int (length (jobs m)) \<le> credit (w_script w') \<and>
      process_count js = process_count (jobs m) \<and> length js = length (jobs m))"
    using assms process_count_nonneg [of "jobs m"]
    by (intro gives_mono [OF gives_ensures [OF continue_jobs_total continue_jobs_eff]])
      (auto simp: shutdown_cost_def dest: process_count_same)
  have retried: "gives (shutdown_retry 50 m' v) (\<lambda>(m'', w').
      credit (w_script v) - 50 * (process_count (jobs m') + 1) \<le> credit (w_script w') \<and>
      process_count (jobs m'') = process_count (jobs m') \<and> length (jobs m'') = length (jobs m'))"
    if "50 * (process_count (jobs m') + 1) \<le> credit (w_script v)" for m' v
    using that by (intro gives_mono [OF shutdown_retry_total]) (auto dest: process_count_same)
  show ?thesis
    unfolding job_shutdown_def
    by (intro total gives_mono2 [OF continued] gives_mono [OF terminate_jobs_total] gives_mono2 [OF retried]
        gives_mono [OF kill_jobs_total] gives_mono2 [OF forced_total.sweep_total])
      (use assms process_count_nonneg [of "jobs m"] in \<open>auto simp: shutdown_cost_def job_destroy_def\<close>)
qed

text \<open>The rest of \<^verbatim>\<open>shell_cleanup\<close>.\<close>

lemma signal_shutdown_total:
  "4 \<le> credit (w_script w) \<Longrightarrow> gives (signal_shutdown w) (\<lambda>w'. credit (w_script w) - 4 \<le> credit (w_script w'))"
  unfolding signal_shutdown_def ignore_signal_def by (intro total) auto

lemma event_shut_total:
  "2 \<le> credit (w_script w) \<Longrightarrow> gives (event_shut w) (\<lambda>w'. credit (w_script w) - 2 \<le> credit (w_script w'))"
  unfolding event_shut_def by (intro total) auto

lemma terminal_shutdown_total:
  "3 \<le> credit (w_script w) \<Longrightarrow> gives (terminal_shutdown w) (\<lambda>w'. credit (w_script w) - 3 \<le> credit (w_script w'))"
  unfolding terminal_shutdown_def terminal_restore_def terminal_set_pgrp_def terminal_set_modes_def
  by (intro total) auto

definition cleanup_cost :: "JobManager \<Rightarrow> int" where
  "cleanup_cost m = shutdown_cost m + 10 + int (length farewell)"

lemma shell_cleanup_total:
  assumes "cleanup_cost (ctx_jobs ctx) \<le> credit (w_script w)"
  shows "gives (shell_cleanup ctx w) (\<lambda>(ctx', w'). credit (w_script w) - cleanup_cost (ctx_jobs ctx) \<le> credit (w_script w'))"
  unfolding shell_cleanup_def shell_context_destroy_def
  by (intro total gives_mono2 [OF job_shutdown_total] gives_mono [OF signal_shutdown_total]
      gives_mono [OF event_shut_total] gives_mono [OF terminal_shutdown_total])
    (use assms in \<open>auto simp: cleanup_cost_def\<close>)

section \<open>Properties\<close>

text \<open>C17: shutting the job table down ends, whatever the processes do and whatever the calls
  answer: each job costs at most three signals and each process at most 51 attempts to reap it, with at
  most 50 pauses, and every interrupted call two answers more. As soon as the kernel has given that many answers, the
  table is empty.\<close>

theorem job_shutdown_ends:
  assumes "3 * int (length (jobs m)) + 51 * process_count (jobs m) + 50 +
      2 * int (length (filter (\<lambda>a. a_err a = EINTR) (w_script w))) \<le> int (length (w_script w))"
    and "table_ok m"
  shows "\<exists>w'. job_shutdown m w = Some (jobmanager_init, w') \<and> w_live w' = w_live w - table_blocks m"
proof -
  have "shutdown_cost m \<le> credit (w_script w)" using assms(1) by (simp add: shutdown_cost_def credit_def)
  from gives_D [OF gives_ensures [OF job_shutdown_total [OF this] job_shutdown_eff [OF assms(2)]]]
  show ?thesis by (auto simp: jobmanager_init_def)
qed

definition demo_table :: JobManager where
  "demo_table = \<lparr>jobs = [\<lparr>j_id = 1, j_pgid = 7, j_status = JOB_RUNNING, j_command = ''sleep'',
     j_processes = [new_process 7], j_modes = 0, j_modes_valid = False\<rparr>], nextid = 2\<rparr>"

theorem job_shutdown_ends_witness:
  "\<exists>w'. job_shutdown demo_table (init_world (fail EINTR # replicate 105 (ok 0))) = Some (jobmanager_init, w') \<and>
     w_live w' = -2"
proof -
  let ?w = "init_world (fail EINTR # replicate 105 (ok 0))"
  have "table_ok demo_table" by code_simp
  moreover have "table_blocks demo_table = 2" by code_simp
  moreover have "3 * int (length (jobs demo_table)) + 51 * process_count (jobs demo_table) + 50 +
      2 * int (length (filter (\<lambda>a. a_err a = EINTR) (w_script ?w))) \<le> int (length (w_script ?w))" by code_simp
  ultimately show ?thesis using job_shutdown_ends [of demo_table ?w] by (simp add: init_world_def)
qed

end
