(* ===== verification/Session.thy ===== *)
theory Session
  imports Shell_Input Parser_Roundtrip Returns
begin

text \<open>
  What the parts do together: a line that is typed is parsed and dispatched as the command chain it
  stands for, and a session that is left, by the end of the input or by \<^verbatim>\<open>exit\<close>, ends.
\<close>

section \<open>Typed chains\<close>

lemma render_ends: "ts \<noteq> [] \<Longrightarrow> last (render ts) = SPACE"
  by (induction ts rule: rev_induct) (simp_all add: render_def)

lemma strip_cr_render [simp]: "strip_cr (render ts) = render ts"
  using render_ends [of ts] by (cases "ts = []") (auto simp: strip_cr_def)

lemma dispatch_chain:
  assumes "chain_ok cs" and "w_allocs w = []" and "input_buffer ctx = render (chain_tokens cs)"
  shows "shell_dispatch_input ctx w = do {
    (res, v) \<leftarrow> dispatcher_command cs ctx (w\<lparr>w_live := w_live w + chain_blocks cs\<rparr>);
    Some (case res of
        Child_gone \<Rightarrow> (Child_gone, v)
      | Parent (status, ctx) \<Rightarrow>
          (Parent (shell_reset_input (ctx\<lparr>last_exit_status := shell_normalize_status status\<rparr>)), command_free cs v)) }"
proof -
  have same: "ctx\<lparr>input_buffer := render (chain_tokens cs)\<rparr> = ctx" using assms(3) by simp
  show ?thesis
    unfolding shell_dispatch_input_def assms(3) strip_cr_render same Let_def parse_printed [OF assms(1,2)]
    by simp
qed

lemma chain_typed:
  assumes "types fd as (render (chain_tokens cs))" and "chain_ok cs"
    and "length (render (chain_tokens cs)) < SHELL_INPUT_SIZE" and "stdin_ready fd s" and "gives_char a LF"
    and "w_script w = as @ s # a # rest" and "w_allocs w = []"
    and "running ctx" and "input_buffer ctx = []" and "\<not> input_discarding ctx"
  shows "\<exists>v. w_script v = rest \<and> w_err v = w_err w \<and> w_live v = w_live w + chain_blocks cs \<and>
    shell_loop fd (False, ctx, w) = do {
      (res, v) \<leftarrow> dispatcher_command cs (ctx\<lparr>input_buffer := render (chain_tokens cs)\<rparr>) v;
      (case res of
         Child_gone \<Rightarrow> Some (Child_gone, v)
       | Parent (status, ctx) \<Rightarrow>
           shell_loop fd (True, shell_reset_input (ctx\<lparr>last_exit_status := shell_normalize_status status\<rparr>),
             command_free cs v)) }"
proof -
  let ?ctx = "ctx\<lparr>input_buffer := render (chain_tokens cs)\<rparr>"
  obtain u where u: "heard [] rest w u" and loop: "shell_loop fd (False, ctx, w) = do {
      (res, v) \<leftarrow> shell_dispatch_input ?ctx u;
      (case res of Child_gone \<Rightarrow> Some (Child_gone, v) | Parent ctx \<Rightarrow> shell_loop fd (True, ctx, v)) }"
    using line_heard [OF assms(1,4,5,6,8,9,10)] assms(3) by auto
  have "w_allocs u = []" using u assms(7) by (simp add: heard_def)
  note run = dispatch_chain [OF assms(2) this, of ?ctx]
  let ?v = "u\<lparr>w_live := w_live u + chain_blocks cs\<rparr>"
  show ?thesis
  proof (intro exI conjI)
    show "shell_loop fd (False, ctx, w) = do {
      (res, v) \<leftarrow> dispatcher_command cs ?ctx ?v;
      (case res of
         Child_gone \<Rightarrow> Some (Child_gone, v)
       | Parent (status, ctx) \<Rightarrow>
           shell_loop fd (True, shell_reset_input (ctx\<lparr>last_exit_status := shell_normalize_status status\<rparr>),
             command_free cs v)) }"
      using loop run by (auto simp: split: outcome.splits intro!: bind_cong_Some)
  qed (use u in \<open>simp_all add: heard_def\<close>)
qed

section \<open>Leaving\<close>

definition exit_command :: "string list \<Rightarrow> Command" where
  "exit_command args = \<lparr>argv = ''exit'' # args, background = False,
     redirect = \<lparr>input_file = None, output_file = None, append = False\<rparr>\<rparr>"

text \<open>
  The answers that take leave: after some interruptions the input ends, or the line \<^verbatim>\<open>exit\<close>, with
  any arguments, is typed.
\<close>

inductive takes_leave :: "int \<Rightarrow> answer list \<Rightarrow> bool" for fd where
  end_of_input: "types fd as [] \<Longrightarrow> stdin_ready fd s \<Longrightarrow> a_ret a = 0 \<Longrightarrow> takes_leave fd (as @ [s, a])"
| exit_typed: "types fd as (render (chain_tokens [exit_command args])) \<Longrightarrow> chain_ok [exit_command args] \<Longrightarrow>
    length (render (chain_tokens [exit_command args])) < SHELL_INPUT_SIZE \<Longrightarrow>
    stdin_ready fd s \<Longrightarrow> gives_char a LF \<Longrightarrow> takes_leave fd (as @ [s, a])"

lemma loop_end_of_input:
  assumes "types fd as []" and "stdin_ready fd s" and "a_ret a = 0" and "w_script w = as @ s # a # rest"
    and "running ctx" and "input_buffer ctx = []"
  shows "\<exists>v. shell_loop fd (False, ctx, w) = Some (Parent (SHELL_STATUS_OK, shell_reset_input ctx), v) \<and> w_script v = rest"
proof -
  obtain u where u: "rtranclp (shell_cycle fd) (False, ctx, w) (False, ctx, u)" "w_script u = s # a # rest"
    using typing_cycles [OF assms(1,4,5)] by (auto dest: heard_script)
  obtain v where v: "heard [] (a # rest) u v"
    "shell_turn fd ctx u = map_option (\<lambda>(res, w). (after_input False res, w)) (shell_read_input ctx v)"
    using turn_reads [OF u(2) assms(2,5)] by blast
  obtain x where x: "sys (Sys_read STDIN_FILENO 1) v = Some (a, x)" "heard [] rest v x"
    using sys_script [OF heard_script [OF v(1)], of "Sys_read STDIN_FILENO 1"] by auto
  have "shell_read_input ctx v = Some (Parent (read_result 0 True True (shell_reset_input ctx)), x)"
    using x(1) assms(3,6) by (simp add: shell_read_input_def input_length_def)
  then have "shell_loop fd (False, ctx, u) = Some (Parent (SHELL_STATUS_OK, shell_reset_input ctx), x)"
    using assms(5) v(2) by (subst shell_loop.simps) (simp add: shell_round_def after_input_def)
  with shell_cycle_loop [OF u(1)] heard_script [OF x(2)] show ?thesis by auto
qed

lemma loop_stopped: "\<not> running ctx \<Longrightarrow> shell_loop fd (p, ctx, w) = Some (Parent (SHELL_STATUS_OK, ctx), w)"
  by (subst shell_loop.simps) (simp add: shell_round_def)

lemma dispatch_exit:
  assumes "3 \<le> credit (w_script w)"
  shows "gives (dispatcher_command [exit_command args] ctx w) (\<lambda>(res, w').
    credit (w_script w) - 3 \<le> credit (w_script w') \<and>
    (\<exists>status. res = Parent (status, ctx\<lparr>running := False\<rparr>) \<and>
      (status = last_exit_status ctx \<or> last_exit_status ctx = 0 \<and> status = ERR_UNKNOWN)))"
proof -
  have exit: "builtin_lookup ''exit'' = Some builtin_exit" by (simp add: builtin_lookup_def builtin_table_def)
  have parts: "argv0 (exit_command args) = Some ''exit''" "\<not> background (exit_command args)"
    "output_file (redirect (exit_command args)) = None" "input_file (redirect (exit_command args)) = None"
    by (simp_all add: exit_command_def argv0_def)
  have checked: "gives (check_output ret v) (\<lambda>(ret', v').
      credit (w_script v) - 3 \<le> credit (w_script v') \<and> (ret' = ret \<or> ret = OK \<and> ret' = ERR_UNKNOWN))"
    if "3 \<le> credit (w_script v)" for ret v
    using that unfolding check_output_def stdout_failed_def
    by (auto intro!: total split: option.splits)
  show ?thesis
    by (simp add: dispatcher_command_def parts exit dispatch_builtin_def builtin_apply_redirect_def
        builtin_restore_redirect_def restore_one_def builtin_exit_def)
      (intro total gives_mono2 [OF checked]; use assms in auto)
qed

lemma loop_exit:
  assumes "types fd as (render (chain_tokens [exit_command args]))" and "chain_ok [exit_command args]"
    and "length (render (chain_tokens [exit_command args])) < SHELL_INPUT_SIZE" and "stdin_ready fd s"
    and "gives_char a LF" and "w_script w = as @ s # a # rest" and "w_allocs w = []"
    and "running ctx" and "input_buffer ctx = []" and "\<not> input_discarding ctx" and "3 \<le> credit rest"
  shows "\<exists>status v. shell_loop fd (False, ctx, w) = Some (Parent (SHELL_STATUS_OK,
      shell_reset_input (ctx\<lparr>running := False, last_exit_status := shell_normalize_status status\<rparr>)), v) \<and>
    credit rest - 3 \<le> credit (w_script v) \<and>
    (status = last_exit_status ctx \<or> last_exit_status ctx = 0 \<and> status = ERR_UNKNOWN)"
proof -
  let ?line = "render (chain_tokens [exit_command args])"
  obtain u where u: "w_script u = rest" and loop: "shell_loop fd (False, ctx, w) = do {
      (res, v) \<leftarrow> dispatcher_command [exit_command args] (ctx\<lparr>input_buffer := ?line\<rparr>) u;
      (case res of
         Child_gone \<Rightarrow> Some (Child_gone, v)
       | Parent (status, ctx) \<Rightarrow>
           shell_loop fd (True, shell_reset_input (ctx\<lparr>last_exit_status := shell_normalize_status status\<rparr>),
             command_free [exit_command args] v)) }"
    using chain_typed [OF assms(1-10)] by blast
  from gives_D [OF dispatch_exit [of u args "ctx\<lparr>input_buffer := ?line\<rparr>"]] assms(11) u
  obtain status v where "dispatcher_command [exit_command args] (ctx\<lparr>input_buffer := ?line\<rparr>) u =
      Some (Parent (status, ctx\<lparr>input_buffer := ?line, running := False\<rparr>), v)"
    "credit rest - 3 \<le> credit (w_script v)"
    "status = last_exit_status ctx \<or> last_exit_status ctx = 0 \<and> status = ERR_UNKNOWN" by auto
  with loop show ?thesis
    by (intro exI [of _ status] exI [of _ "command_free [exit_command args] v"])
      (auto simp: loop_stopped command_free_blocks shell_reset_input_def)
qed

section \<open>A session\<close>

definition typed_keys :: "string \<Rightarrow> answer list" where
  "typed_keys cs = concat (map (\<lambda>c. [ready, key_answer c]) cs)"

lemma ready_stdin: "stdin_ready 3 ready"
  by (simp add: stdin_ready_def ready_def ok_def fd_isset_def)

lemma key_char: "gives_char (key_answer c) c"
  by (simp add: gives_char_def key_answer_def ok_def)

lemma types_keys: "LF \<notin> set cs \<Longrightarrow> types 3 (typed_keys cs) cs"
  by (induction cs) (auto simp: typed_keys_def intro!: types.none types.key ready_stdin key_char)

definition demo_chain :: "Command list" where
  "demo_chain = [\<lparr>argv = [''ls''], background = False, redirect = \<lparr>input_file = None, output_file = None, append = False\<rparr>\<rparr>,
     \<lparr>argv = [''wc'', ''-l''], background = False, redirect = \<lparr>input_file = None, output_file = Some ''n'', append = True\<rparr>\<rparr>]"

lemma demo_chain_ok: "chain_ok demo_chain" "render (chain_tokens demo_chain) = ''ls | wc -l >> n ''"
  by (code_simp, code_simp)

lemma demo_exit_ok: "chain_ok [exit_command []]" "render (chain_tokens [exit_command []]) = ''exit ''"
  by (code_simp, code_simp)

section \<open>Properties\<close>

text \<open>C9: a command line is run as what it says. Whatever well-formed chain of commands, with
  arguments, redirections, pipes and the background sign, is typed at the prompt within the
  length of a line, with interrupted calls in between, the loop gives exactly that chain to the
  dispatcher, keeps its status as the last one, frees it and goes on with a new prompt; a forked child
  never comes back to the loop.\<close>

theorem typed_chain_runs:
  assumes "types fd as (render (chain_tokens cs))" and "chain_ok cs"
    and "length (render (chain_tokens cs)) < SHELL_INPUT_SIZE" and "stdin_ready fd s" and "gives_char a LF"
    and "w_script w = as @ s # a # rest" and "w_allocs w = []"
    and "running ctx" and "input_buffer ctx = []" and "\<not> input_discarding ctx"
  shows "\<exists>v. w_script v = rest \<and> w_err v = w_err w \<and> w_live v = w_live w + chain_blocks cs \<and>
    shell_loop fd (False, ctx, w) = do {
      (res, v) \<leftarrow> dispatcher_command cs (ctx\<lparr>input_buffer := render (chain_tokens cs)\<rparr>) v;
      (case res of
         Child_gone \<Rightarrow> Some (Child_gone, v)
       | Parent (status, ctx) \<Rightarrow>
           shell_loop fd (True, shell_reset_input (ctx\<lparr>last_exit_status := shell_normalize_status status\<rparr>),
             command_free cs v)) }"
  by (rule chain_typed [OF assms])

theorem typed_chain_runs_witness:
  "\<exists>v. w_script v = [fail EAGAIN] \<and>
     shell_loop 3 (False, blank_context\<lparr>running := True\<rparr>,
       init_world (typed_keys ''ls | wc -l >> n '' @ [ready, key_answer LF, fail EAGAIN])) = do {
       (res, v) \<leftarrow> dispatcher_command demo_chain (blank_context\<lparr>running := True, input_buffer := ''ls | wc -l >> n ''\<rparr>) v;
       (case res of
          Child_gone \<Rightarrow> Some (Child_gone, v)
        | Parent (status, ctx) \<Rightarrow>
            shell_loop 3 (True, shell_reset_input (ctx\<lparr>last_exit_status := shell_normalize_status status\<rparr>),
              command_free demo_chain v)) }"
proof -
  have "types 3 (typed_keys (render (chain_tokens demo_chain))) (render (chain_tokens demo_chain))"
    by (rule types_keys) (simp add: demo_chain_ok)
  from typed_chain_runs [OF this demo_chain_ok(1) _ ready_stdin key_char [of LF],
      of "init_world (typed_keys ''ls | wc -l >> n '' @ [ready, key_answer LF, fail EAGAIN])" "[fail EAGAIN]"
        "blank_context\<lparr>running := True\<rparr>"]
  show ?thesis unfolding demo_chain_ok(2) by (auto simp: init_world_def blank_context_def)
qed

text \<open>C10: a session that is left ends. When the input ends, or \<^verbatim>\<open>exit\<close> is typed, the loop
  stops with success; its status is the one of the last command (or 1, where that was 0 and standard
  output could not be flushed); and the shell is torn down, however many jobs are left and
  whatever they do, within a number of calls that the job table bounds, plus two for every call
  that is interrupted.\<close>

theorem session_ends:
  assumes "takes_leave fd as" and "w_script w = as @ rest" and "cleanup_cost (ctx_jobs ctx) + 3 \<le> credit rest"
    and "w_allocs w = []" and "running ctx" and "input_buffer ctx = []" and "\<not> input_discarding ctx"
    and "0 \<le> last_exit_status ctx"
  shows "\<exists>ctx' v ctx'' u. shell_loop fd (False, ctx, w) = Some (Parent (SHELL_STATUS_OK, ctx'), v) \<and>
    shell_cleanup ctx' v = Some (ctx'', u) \<and>
    (last_exit_status ctx' = last_exit_status ctx \<or> last_exit_status ctx = 0 \<and> last_exit_status ctx' = 1)"
proof -
  have "\<exists>ctx' v. shell_loop fd (False, ctx, w) = Some (Parent (SHELL_STATUS_OK, ctx'), v) \<and>
      credit rest - 3 \<le> credit (w_script v) \<and> ctx_jobs ctx' = ctx_jobs ctx \<and>
      (last_exit_status ctx' = last_exit_status ctx \<or> last_exit_status ctx = 0 \<and> last_exit_status ctx' = 1)"
    using assms(1)
  proof cases
    case (end_of_input bs s a)
    then show ?thesis using loop_end_of_input [OF end_of_input(2-4), of w rest ctx] assms(2,5,6) by auto
  next
    case (exit_typed bs args s a)
    have "3 \<le> credit rest" using assms(3) process_count_nonneg [of "jobs (ctx_jobs ctx)"]
      by (simp add: cleanup_cost_def shutdown_cost_def)
    with loop_exit [OF exit_typed(2-6), of w rest ctx] exit_typed(1) assms show ?thesis
      by (auto simp: shell_normalize_status_def)
  qed
  then obtain ctx' v where loop: "shell_loop fd (False, ctx, w) = Some (Parent (SHELL_STATUS_OK, ctx'), v)"
    "credit rest - 3 \<le> credit (w_script v)" "ctx_jobs ctx' = ctx_jobs ctx"
    "last_exit_status ctx' = last_exit_status ctx \<or> last_exit_status ctx = 0 \<and> last_exit_status ctx' = 1" by blast
  then have "cleanup_cost (ctx_jobs ctx') \<le> credit (w_script v)" using assms(3) by simp
  from gives_D [OF shell_cleanup_total [OF this]] loop show ?thesis by auto
qed

theorem session_ends_witness:
  "\<exists>ctx' v ctx'' u. shell_loop 3 (False, blank_context\<lparr>running := True, last_exit_status := 7, ctx_jobs := demo_table\<rparr>,
       init_world (typed_keys ''exit '' @ [ready, key_answer LF] @ fail EINTR # replicate 150 (ok 0))) =
       Some (Parent (SHELL_STATUS_OK, ctx'), v) \<and>
     shell_cleanup ctx' v = Some (ctx'', u) \<and> last_exit_status ctx' = 7"
proof -
  have "types 3 (typed_keys ''exit '') (render (chain_tokens [exit_command []]))"
    unfolding demo_exit_ok by (rule types_keys) simp
  from exit_typed [OF this demo_exit_ok(1) _ ready_stdin key_char [of LF]]
  have leave: "takes_leave 3 (typed_keys ''exit '' @ [ready, key_answer LF])" by (simp add: demo_exit_ok)
  have cost: "cleanup_cost demo_table + 3 \<le> credit (fail EINTR # replicate 150 (ok 0))" by code_simp
  from session_ends [OF leave, of "init_world (typed_keys ''exit '' @ [ready, key_answer LF] @ fail EINTR # replicate 150 (ok 0))"
      "fail EINTR # replicate 150 (ok 0)" "blank_context\<lparr>running := True, last_exit_status := 7, ctx_jobs := demo_table\<rparr>"] cost
  show ?thesis by (simp add: init_world_def blank_context_def)
qed

end
