(* ===== verification/Utils.thy ===== *)
theory Utils
  imports CLib
begin

text \<open>
  \<^verbatim>\<open>common/utils.c\<close>, which no other part of the program uses. The buffer is the text in front of its
  NUL; a text longer than \<^verbatim>\<open>INT_MAX\<close> is out of the model.
\<close>

definition trim_line :: "string \<Rightarrow> string" where
  "trim_line buff =
     (let len = length buff
      in if 0 < len \<and> buff ! (len - 1) = LF then take (len - 1) buff else buff)"

text \<open>One line end is removed, and no more; any other text stays.\<close>

lemma trim_line_end: "trim_line (s @ [LF]) = s"
  by (simp add: trim_line_def Let_def nth_append)

lemma trim_line_other: "s = [] \<or> last s \<noteq> LF \<Longrightarrow> trim_line s = s"
  by (auto simp: trim_line_def Let_def last_conv_nth)

lemma trim_line_cases: "s = trim_line s \<or> s = trim_line s @ [LF]"
  by (cases s rule: rev_cases) (auto simp: trim_line_end intro: trim_line_other [symmetric])

end
